theory Spec2Isabelle
  imports Main "HOL-Library.AList"
begin

section \<open>Persisted rows\<close>

text \<open>
  The relational store as the worker sees it through Prisma: one list of rows per table.
  Nullable columns are options. JSON columns are values of \<open>json\<close>; a JSON object is an
  association list (key order as stored, lookup by \<open>map_of\<close>). Timestamps are ticks of a
  clock.
\<close>

datatype json =
    JNull
  | JBool bool
  | JNum int
  | JStr string
  | JArr "json list"
  | JObj "(string \<times> json) list"

datatype CrawlRunStatus = QUEUED | RUNNING | DONE | FAILED | CANCELED

datatype LinkType = INTERNAL | EXTERNAL

datatype Severity = LOW | MEDIUM | HIGH | CRITICAL

datatype db_error =
    RecordNotFound
  | UniqueConstraint
  | Thrown string

record CrawlRun =
  run_id :: string
  run_projectId :: string
  run_status :: CrawlRunStatus
  run_startedAt :: "nat option"
  run_finishedAt :: "nat option"
  run_totalsJson :: json
  run_createdAt :: nat

record Page =
  page_id :: string
  page_crawlRunId :: string
  page_url :: string
  page_normalizedUrl :: string
  page_statusCode :: "int option"
  page_contentType :: "string option"
  page_title :: "string option"
  page_metaDescription :: "string option"
  page_h1Count :: "int option"
  page_canonical :: "string option"
  page_robotsMeta :: "string option"
  page_wordCount :: "int option"
  page_templateSignatureHash :: "string option"
  page_templateSignatureJson :: "json option"

record Link =
  link_id :: string
  link_crawlRunId :: string
  link_fromPageId :: "string option"
  link_toUrl :: string
  link_toNormalizedUrl :: string
  link_linkType :: LinkType
  link_isBroken :: bool
  link_statusCode :: "int option"

record Issue =
  issue_crawlRunId :: string
  issue_pageId :: "string option"
  issue_type :: string
  issue_severity :: Severity
  issue_title :: string
  issue_description :: string
  issue_recommendation :: string
  issue_evidenceJson :: json

record Template =
  template_id :: string
  template_crawlRunId :: string
  template_signatureHash :: string
  template_pageCount :: nat

record Project =
  project_id :: string
  project_startUrl :: string
  project_domain :: string
  project_settingsJson :: json

record DB =
  projects :: "Project list"
  crawlRuns :: "CrawlRun list"
  pages :: "Page list"
  links :: "Link list"
  issues :: "Issue list"
  templates :: "Template list"

section \<open>Post-processor (post-processor.ts)\<close>

text \<open>\<open>String(n)\<close> on an integer: its decimal numeral.\<close>

fun nat_digits :: "nat \<Rightarrow> string" where
  "nat_digits n =
     (if n < 10 then [''0123456789'' ! n]
      else nat_digits (n div 10) @ [''0123456789'' ! (n mod 10)])"

declare nat_digits.simps [simp del]

definition String_of :: "int \<Rightarrow> string" where
  "String_of i = (if i < 0 then CHR ''-'' # nat_digits (nat (- i)) else nat_digits (nat i))"

record ErrorPage =
  ep_url :: string
  ep_statusCode :: int
  ep_count :: nat

record CrawlTotals =
  pagesCount :: nat
  linksCount :: nat
  internalLinksCount :: nat
  externalLinksCount :: nat
  brokenInternalLinksCount :: nat
  statusCodeDistribution :: "(string \<times> nat) list"
  topErrorPages :: "ErrorPage list"

text \<open>
  The first loop of \<open>postProcessCrawl\<close>: one pass over the run's pages that fills
  \<open>pageStatusMap\<close> and \<open>statusCodeDistribution\<close>. A page whose \<open>statusCode\<close> is null
  is skipped by the guard \<open>page.statusCode !== null\<close>.
\<close>

definition countPage ::
  "Page \<Rightarrow> (string \<rightharpoonup> int) \<times> (string \<times> nat) list \<Rightarrow> (string \<rightharpoonup> int) \<times> (string \<times> nat) list"
where
  "countPage page acc =
     (case page_statusCode page of
        None \<Rightarrow> acc
      | Some sc \<Rightarrow>
          (let statusKey = String_of sc;
               prev = (case map_of (snd acc) statusKey of None \<Rightarrow> 0 | Some c \<Rightarrow> c)
           in ((fst acc)(page_normalizedUrl page \<mapsto> sc),
               AList.update statusKey (prev + 1) (snd acc))))"

definition scanPages :: "Page list \<Rightarrow> (string \<rightharpoonup> int) \<times> (string \<times> nat) list" where
  "scanPages ps = fold countPage ps (Map.empty, [])"

text \<open>
  The second loop: every internal link whose target has a recorded status of 400 or more
  is queued for an update and counted against its target in \<open>errorPageCounts\<close>
  (a \<open>Map\<close>, kept here in insertion order).
\<close>

definition checkLink ::
  "(string \<rightharpoonup> int) \<Rightarrow> Link \<Rightarrow> (string \<times> int) list \<times> (string \<times> int \<times> nat) list
     \<Rightarrow> (string \<times> int) list \<times> (string \<times> int \<times> nat) list"
where
  "checkLink pageStatusMap link acc =
     (case pageStatusMap (link_toNormalizedUrl link) of
        None \<Rightarrow> acc
      | Some targetStatus \<Rightarrow>
          if targetStatus \<ge> 400 then
            (fst acc @ [(link_id link, targetStatus)],
             (case map_of (snd acc) (link_toNormalizedUrl link) of
                Some existing \<Rightarrow>
                  AList.update (link_toNormalizedUrl link) (fst existing, snd existing + 1) (snd acc)
              | None \<Rightarrow>
                  AList.update (link_toNormalizedUrl link) (targetStatus, 1) (snd acc)))
          else acc)"

definition scanLinks ::
  "(string \<rightharpoonup> int) \<Rightarrow> Link list \<Rightarrow> (string \<times> int) list \<times> (string \<times> int \<times> nat) list"
where
  "scanLinks pageStatusMap ls = fold (checkLink pageStatusMap) ls ([], [])"

text \<open>
  \<open>prisma.link.update({ where: { id }, data: { isBroken: true, statusCode } })\<close>:
  rejects when no row has the id.
\<close>

definition markBroken :: "int \<Rightarrow> Link \<Rightarrow> Link" where
  "markBroken sc l = l\<lparr>link_isBroken := True, link_statusCode := Some sc\<rparr>"

definition link_update :: "string \<times> int \<Rightarrow> Link list \<Rightarrow> db_error + Link list" where
  "link_update u tbl =
     (if fst u \<in> link_id ` set tbl
      then Inr (map (\<lambda>l. if link_id l = fst u then markBroken (snd u) l else l) tbl)
      else Inl RecordNotFound)"

fun link_updates :: "(string \<times> int) list \<Rightarrow> Link list \<Rightarrow> db_error + Link list" where
  "link_updates [] tbl = Inr tbl"
| "link_updates (u # us) tbl =
     (case link_update u tbl of Inl e \<Rightarrow> Inl e | Inr tbl' \<Rightarrow> link_updates us tbl')"

definition BATCH_SIZE :: nat where
  "BATCH_SIZE = 100"

text \<open>
  Step 3, the batch loop \<open>for (let i = 0; i < brokenLinkUpdates.length; i += BATCH_SIZE)\<close>.
  The updates of one batch are independent row updates, applied here in list order.
\<close>

function updateBatches :: "nat \<Rightarrow> (string \<times> int) list \<Rightarrow> Link list \<Rightarrow> db_error + Link list" where
  "updateBatches i ups tbl =
     (if i < length ups then
        (case link_updates (take BATCH_SIZE (drop i ups)) tbl of
           Inl e \<Rightarrow> Inl e
         | Inr tbl' \<Rightarrow> updateBatches (i + BATCH_SIZE) ups tbl')
      else Inr tbl)"
  by pat_completeness auto
termination
  by (relation "measure (\<lambda>(i, ups, tbl). length ups - i)") (auto simp: BATCH_SIZE_def)

declare updateBatches.simps [simp del]

text \<open>Step 5: sort by count, descending (the sort is stable), and keep the first ten.\<close>

definition buildTopErrorPages :: "(string \<times> int \<times> nat) list \<Rightarrow> ErrorPage list" where
  "buildTopErrorPages epc =
     take 10 (sort_key (\<lambda>e. - int (ep_count e))
       (map (\<lambda>(url, d). \<lparr>ep_url = url, ep_statusCode = fst d, ep_count = snd d\<rparr>) epc))"

definition postProcessCrawl :: "string \<Rightarrow> DB \<Rightarrow> db_error + (CrawlTotals \<times> DB)" where
  "postProcessCrawl crawlRunId db =
     (let runPages = filter (\<lambda>p. page_crawlRunId p = crawlRunId) (pages db);
          scanned = scanPages runPages;
          pageStatusMap = fst scanned;
          internalLinks =
            filter (\<lambda>l. link_crawlRunId l = crawlRunId \<and> link_linkType l = INTERNAL) (links db);
          found = scanLinks pageStatusMap internalLinks;
          brokenLinkUpdates = fst found
      in case updateBatches 0 brokenLinkUpdates (links db) of
           Inl e \<Rightarrow> Inl e
         | Inr links' \<Rightarrow>
             Inr (\<lparr>pagesCount = length runPages,
                   linksCount = length (filter (\<lambda>l. link_crawlRunId l = crawlRunId) links'),
                   internalLinksCount = length internalLinks,
                   externalLinksCount =
                     length (filter (\<lambda>l. link_crawlRunId l = crawlRunId \<and> link_linkType l = EXTERNAL) links'),
                   brokenInternalLinksCount = length brokenLinkUpdates,
                   statusCodeDistribution = snd scanned,
                   topErrorPages = buildTopErrorPages (snd found)\<rparr>,
                  db\<lparr>links := links'\<rparr>))"

text \<open>
  \<open>saveCrawlTotals\<close> replaces the run's whole \<open>totalsJson\<close> by the totals, written as JSON.
\<close>

definition totals_json :: "CrawlTotals \<Rightarrow> (string \<times> json) list" where
  "totals_json t =
     [(''pagesCount'', JNum (int (pagesCount t))),
      (''linksCount'', JNum (int (linksCount t))),
      (''internalLinksCount'', JNum (int (internalLinksCount t))),
      (''externalLinksCount'', JNum (int (externalLinksCount t))),
      (''brokenInternalLinksCount'', JNum (int (brokenInternalLinksCount t))),
      (''statusCodeDistribution'',
         JObj (map (\<lambda>(k, c). (k, JNum (int c))) (statusCodeDistribution t))),
      (''topErrorPages'',
         JArr (map (\<lambda>e. JObj [(''url'', JStr (ep_url e)),
                                (''statusCode'', JNum (ep_statusCode e)),
                                (''count'', JNum (int (ep_count e)))]) (topErrorPages t)))]"

definition findRun :: "string \<Rightarrow> DB \<Rightarrow> CrawlRun option" where
  "findRun crawlRunId db = find (\<lambda>r. run_id r = crawlRunId) (crawlRuns db)"

text \<open>\<open>prisma.crawlRun.update({ where: { id }, data })\<close>: rejects when no row has the id.\<close>

definition crawlRun_update :: "string \<Rightarrow> (CrawlRun \<Rightarrow> CrawlRun) \<Rightarrow> DB \<Rightarrow> db_error + DB" where
  "crawlRun_update crawlRunId f db =
     (case findRun crawlRunId db of
        None \<Rightarrow> Inl RecordNotFound
      | Some _ \<Rightarrow>
          Inr (db\<lparr>crawlRuns := map (\<lambda>r. if run_id r = crawlRunId then f r else r) (crawlRuns db)\<rparr>))"

definition saveCrawlTotals :: "string \<Rightarrow> CrawlTotals \<Rightarrow> DB \<Rightarrow> db_error + DB" where
  "saveCrawlTotals crawlRunId totals db =
     crawlRun_update crawlRunId (\<lambda>r. r\<lparr>run_totalsJson := JObj (totals_json totals)\<rparr>) db"

section \<open>Issue summary (issue-summary.ts)\<close>

record IssueSummary =
  issueCountTotal :: nat
  issueCountByType :: "(string \<times> nat) list"
  issueCountBySeverity :: "(string \<times> nat) list"
  topIssueTypes :: "(string \<times> nat) list"

fun severity_name :: "Severity \<Rightarrow> string" where
  "severity_name LOW = ''LOW''"
| "severity_name MEDIUM = ''MEDIUM''"
| "severity_name HIGH = ''HIGH''"
| "severity_name CRITICAL = ''CRITICAL''"

definition countKey :: "string \<Rightarrow> (string \<times> nat) list \<Rightarrow> (string \<times> nat) list" where
  "countKey k acc = AList.update k ((case map_of acc k of None \<Rightarrow> 0 | Some c \<Rightarrow> c) + 1) acc"

definition computeIssueSummary :: "string \<Rightarrow> DB \<Rightarrow> IssueSummary" where
  "computeIssueSummary crawlRunId db =
     (let runIssues = filter (\<lambda>i. issue_crawlRunId i = crawlRunId) (issues db);
          byType = fold (\<lambda>i. countKey (issue_type i)) runIssues [];
          bySeverity = fold (\<lambda>i. countKey (severity_name (issue_severity i))) runIssues []
      in \<lparr>issueCountTotal = length runIssues,
          issueCountByType = byType,
          issueCountBySeverity = bySeverity,
          topIssueTypes = take 10 (sort_key (\<lambda>e. - int (snd e)) byType)\<rparr>)"

text \<open>
  The own enumerable properties that an object spread \<open>{...v}\<close> copies from a JSON value:
  the members of an object, the indexed elements of an array or string, nothing for
  \<open>null\<close>, a number or a boolean.
\<close>

fun spread :: "json \<Rightarrow> (string \<times> json) list" where
  "spread (JObj kvs) = kvs"
| "spread (JArr xs) = zip (map (\<lambda>i. String_of (int i)) [0..<length xs]) xs"
| "spread (JStr s) = zip (map (\<lambda>i. String_of (int i)) [0..<length s]) (map (\<lambda>c. JStr [c]) s)"
| "spread JNull = []"
| "spread (JNum n) = []"
| "spread (JBool b) = []"

definition counts_json :: "(string \<times> nat) list \<Rightarrow> json" where
  "counts_json cs = JObj (map (\<lambda>(k, c). (k, JNum (int c))) cs)"

definition topIssueTypes_json :: "(string \<times> nat) list \<Rightarrow> json" where
  "topIssueTypes_json ts =
     JArr (map (\<lambda>(t, c). JObj [(''type'', JStr t), (''count'', JNum (int c))]) ts)"

text \<open>
  \<open>saveIssueSummary\<close>: read the run's \<open>totalsJson\<close> (\<open>{}\<close> when the run or the value is
  missing), overwrite the four summary keys on a copy, and write the copy back.
\<close>

definition mergeIssueSummary :: "IssueSummary \<Rightarrow> (string \<times> json) list \<Rightarrow> (string \<times> json) list" where
  "mergeIssueSummary summary existingTotals =
     AList.update ''topIssueTypes'' (topIssueTypes_json (topIssueTypes summary))
       (AList.update ''issueCountBySeverity'' (counts_json (issueCountBySeverity summary))
         (AList.update ''issueCountByType'' (counts_json (issueCountByType summary))
           (AList.update ''issueCountTotal'' (JNum (int (issueCountTotal summary)))
             existingTotals)))"

definition saveIssueSummary :: "string \<Rightarrow> IssueSummary \<Rightarrow> DB \<Rightarrow> db_error + DB" where
  "saveIssueSummary crawlRunId summary db =
     (let existingTotals =
            (case findRun crawlRunId db of
               None \<Rightarrow> []
             | Some crawlRun \<Rightarrow> spread (run_totalsJson crawlRun));
          updatedTotals = mergeIssueSummary summary existingTotals
      in crawlRun_update crawlRunId (\<lambda>r. r\<lparr>run_totalsJson := JObj updatedTotals\<rparr>) db)"

definition issueSummaryKeys :: "string list" where
  "issueSummaryKeys =
     [''issueCountTotal'', ''issueCountByType'', ''issueCountBySeverity'', ''topIssueTypes'']"

section \<open>Rule evaluator (shared/issues)\<close>

text \<open>
  A JavaScript string is modelled by the list of its bytes in UTF-8, which for ASCII text
  is the list of its characters; lengths, case mapping and white space are those of ASCII.
  \<open>trim\<close> removes white space and line terminators from both ends.
\<close>

definition is_space :: "char \<Rightarrow> bool" where
  "is_space c \<longleftrightarrow> of_char c \<in> {9, 10, 11, 12, 13, 32 :: nat}"

definition trim :: "string \<Rightarrow> string" where
  "trim s = rev (dropWhile is_space (rev (dropWhile is_space s)))"

definition lower_char :: "char \<Rightarrow> char" where
  "lower_char c =
     (let n = of_char c :: nat
      in if 65 \<le> n \<and> n \<le> 90
         then (case c of Char b0 b1 b2 b3 b4 b5 b6 b7 \<Rightarrow> Char b0 b1 b2 b3 b4 True b6 b7)
         else c)"

definition toLowerCase :: "string \<Rightarrow> string" where
  "toLowerCase s = map lower_char s"

fun startsWith :: "string \<Rightarrow> string \<Rightarrow> bool" where
  "startsWith s [] = True"
| "startsWith [] (p # ps) = False"
| "startsWith (c # cs) (p # ps) = (c = p \<and> startsWith cs ps)"

fun includes_str :: "string \<Rightarrow> string \<Rightarrow> bool" where
  "includes_str [] p = (p = [])"
| "includes_str (c # cs) p = (startsWith (c # cs) p \<or> includes_str cs p)"

datatype IssueType =
    STATUS_4XX_5XX
  | STATUS_3XX_REDIRECT
  | REDIRECT_CHAIN_LONG
  | MISSING_TITLE
  | DUPLICATE_TITLE
  | TITLE_TOO_LONG
  | TITLE_TOO_SHORT
  | MISSING_META_DESCRIPTION
  | H1_MISSING
  | H1_MULTIPLE
  | CANONICAL_MISSING
  | ROBOTS_NOINDEX
  | THIN_CONTENT
  | IMAGES_MISSING_ALT

record IssueDraft =
  draft_type :: IssueType
  draft_severity :: Severity
  draft_title :: string
  draft_description :: string
  draft_recommendation :: string
  draft_evidenceJson :: json

record PageAnalysisInput =
  statusCode :: "int option"
  title :: "string option"
  metaDescription :: "string option"
  h1Count :: "int option"
  canonical :: "string option"
  robotsMeta :: "string option"
  wordCount :: "int option"
  redirectChainJson :: "json option"

record ExtraAnalysisInput =
  imagesMissingAlt :: "int option"

record RuleDefinition =
  rule_type :: IssueType
  rule_severity :: Severity
  rule_title :: string
  rule_description :: string
  rule_recommendation :: string
  rule_evaluate :: "PageAnalysisInput \<Rightarrow> ExtraAnalysisInput option \<Rightarrow> bool \<times> json"

text \<open>\<open>x ?? d\<close> on an optional value, and \<open>x ?? null\<close> written into the evidence.\<close>

definition orElse :: "'a option \<Rightarrow> 'a \<Rightarrow> 'a" where
  "orElse x d = (case x of None \<Rightarrow> d | Some v \<Rightarrow> v)"

definition str_or_null :: "string option \<Rightarrow> json" where
  "str_or_null x = (case x of None \<Rightarrow> JNull | Some s \<Rightarrow> JStr s)"

definition num_or_null :: "int option \<Rightarrow> json" where
  "num_or_null x = (case x of None \<Rightarrow> JNull | Some n \<Rightarrow> JNum n)"

text \<open>\<open>page.title?.trim() ?? ''\<close>, and the same for the other optional strings.\<close>

definition trimmed :: "string option \<Rightarrow> string" where
  "trimmed x = orElse (map_option trim x) []"

text \<open>
  The chain length of \<open>REDIRECT_CHAIN_LONG\<close>: the length of \<open>redirectChainJson\<close> when
  it is an array (every array is truthy), and 0 for anything else.
\<close>

definition chainLength :: "json option \<Rightarrow> nat" where
  "chainLength x = (case x of Some (JArr chain) \<Rightarrow> length chain | _ \<Rightarrow> 0)"

definition RULES :: "RuleDefinition list" where
  \<open>RULES =
    [\<lparr>rule_type = STATUS_4XX_5XX, rule_severity = CRITICAL,
      rule_title = ''Page returns error status code'',
      rule_description =
        ''This page returned an HTTP 4xx or 5xx error status code, meaning it is broken or unavailable.'',
      rule_recommendation = ''Fix the server error or update/remove links pointing to this URL.'',
      rule_evaluate = (\<lambda>page extra.
        let sc = orElse (statusCode page) 0
        in (sc \<ge> 400, JObj [(''statusCode'', JNum sc)]))\<rparr>,
     \<lparr>rule_type = STATUS_3XX_REDIRECT, rule_severity = MEDIUM,
      rule_title = ''Page redirects to another URL'',
      rule_description =
        ''This page returns a 3xx redirect status code instead of serving content directly.'',
      rule_recommendation = ''Update internal links to point directly to the final destination URL.'',
      rule_evaluate = (\<lambda>page extra.
        let sc = orElse (statusCode page) 0
        in (sc \<ge> 300 \<and> sc < 400, JObj [(''statusCode'', JNum sc)]))\<rparr>,
     \<lparr>rule_type = REDIRECT_CHAIN_LONG, rule_severity = HIGH,
      rule_title = ''Long redirect chain detected'',
      rule_description =
        ''This page goes through 3 or more redirects before reaching the final destination, which slows down page load.'',
      rule_recommendation =
        ''Reduce redirect chains by updating links to point directly to the final URL.'',
      rule_evaluate = (\<lambda>page extra.
        let n = chainLength (redirectChainJson page)
        in (n \<ge> 3, JObj [(''redirectChainLength'', JNum (int n))]))\<rparr>,
     \<lparr>rule_type = MISSING_TITLE, rule_severity = HIGH,
      rule_title = ''Missing page title'',
      rule_description =
        ''This page is missing a <title> tag, which is critical for SEO and user experience.'',
      rule_recommendation = ''Add a unique, descriptive <title> tag between 30-60 characters.'',
      rule_evaluate = (\<lambda>page extra.
        let t = trimmed (title page)
        in (length t = 0, JObj [(''title'', str_or_null (title page))]))\<rparr>,
     \<lparr>rule_type = TITLE_TOO_LONG, rule_severity = LOW,
      rule_title = ''Page title is too long'',
      rule_description =
        ''The title tag exceeds 60 characters and may be truncated in search results.'',
      rule_recommendation =
        ''Shorten the title to 60 characters or less to ensure it displays fully.'',
      rule_evaluate = (\<lambda>page extra.
        let t = trimmed (title page)
        in (length t > 60, JObj [(''titleLength'', JNum (int (length t))), (''title'', JStr t)]))\<rparr>,
     \<lparr>rule_type = TITLE_TOO_SHORT, rule_severity = LOW,
      rule_title = ''Page title is too short'',
      rule_description =
        ''The title tag has fewer than 10 characters, which may not be descriptive enough.'',
      rule_recommendation =
        ''Expand the title to at least 30 characters with relevant keywords.'',
      rule_evaluate = (\<lambda>page extra.
        let t = trimmed (title page)
        in (length t > 0 \<and> length t < 10,
            JObj [(''titleLength'', JNum (int (length t))), (''title'', JStr t)]))\<rparr>,
     \<lparr>rule_type = MISSING_META_DESCRIPTION, rule_severity = MEDIUM,
      rule_title = ''Missing meta description'',
      rule_description =
        ''This page is missing a meta description, which search engines use as the snippet in results.'',
      rule_recommendation =
        ''Add a meta description between 120-160 characters summarizing the page content.'',
      rule_evaluate = (\<lambda>page extra.
        let m = trimmed (metaDescription page)
        in (length m = 0, JObj [(''metaDescription'', str_or_null (metaDescription page))]))\<rparr>,
     \<lparr>rule_type = H1_MISSING, rule_severity = HIGH,
      rule_title = ''Missing H1 heading'',
      rule_description =
        ''This page has no H1 heading, which is important for content structure and SEO.'',
      rule_recommendation =
        ''Add exactly one H1 heading that describes the main topic of the page.'',
      rule_evaluate = (\<lambda>page extra.
        let h = orElse (h1Count page) 0
        in (h = 0, JObj [(''h1Count'', JNum h)]))\<rparr>,
     \<lparr>rule_type = H1_MULTIPLE, rule_severity = LOW,
      rule_title = ''Multiple H1 headings'',
      rule_description =
        ''This page has more than one H1 heading, which can confuse search engines about the main topic.'',
      rule_recommendation =
        ''Use only one H1 heading per page and use H2-H6 for subheadings.'',
      rule_evaluate = (\<lambda>page extra.
        let h = orElse (h1Count page) 0
        in (h > 1, JObj [(''h1Count'', JNum h)]))\<rparr>,
     \<lparr>rule_type = CANONICAL_MISSING, rule_severity = LOW,
      rule_title = ''Missing canonical tag'',
      rule_description =
        ''This page is missing a canonical URL tag, which helps prevent duplicate content issues.'',
      rule_recommendation =
        ''Add a <link rel="canonical"> tag pointing to the preferred version of this page.'',
      rule_evaluate = (\<lambda>page extra.
        let c = trimmed (canonical page)
        in (length c = 0, JObj [(''canonical'', str_or_null (canonical page))]))\<rparr>,
     \<lparr>rule_type = ROBOTS_NOINDEX, rule_severity = MEDIUM,
      rule_title = ''Page blocked from indexing'',
      rule_description =
        ''This page has a "noindex" directive in the robots meta tag, preventing search engines from indexing it.'',
      rule_recommendation =
        ''Remove "noindex" if you want this page to appear in search results.'',
      rule_evaluate = (\<lambda>page extra.
        let r = orElse (map_option toLowerCase (robotsMeta page)) []
        in (includes_str r ''noindex'', JObj [(''robotsMeta'', str_or_null (robotsMeta page))]))\<rparr>,
     \<lparr>rule_type = THIN_CONTENT, rule_severity = LOW,
      rule_title = ''Thin content detected'',
      rule_description =
        ''This page has fewer than 150 words, which may be considered low-quality content.'',
      rule_recommendation =
        ''Add more valuable content to reach at least 300-500 words for better SEO.'',
      rule_evaluate = (\<lambda>page extra.
        ((case wordCount page of None \<Rightarrow> False | Some w \<Rightarrow> w < 150),
         JObj [(''wordCount'', num_or_null (wordCount page))]))\<rparr>,
     \<lparr>rule_type = IMAGES_MISSING_ALT, rule_severity = LOW,
      rule_title = ''Images missing alt text'',
      rule_description =
        ''One or more images on this page are missing alt attributes, reducing accessibility.'',
      rule_recommendation =
        ''Add descriptive alt text to all images for screen readers and SEO.'',
      rule_evaluate = (\<lambda>page extra.
        let n = orElse (case extra of None \<Rightarrow> None | Some e \<Rightarrow> imagesMissingAlt e) 0
        in (n > 0, JObj [(''imagesMissingAlt'', JNum n)]))\<rparr>]\<close>

definition draftOf :: "RuleDefinition \<Rightarrow> json \<Rightarrow> IssueDraft" where
  "draftOf rule evidence =
     \<lparr>draft_type = rule_type rule, draft_severity = rule_severity rule,
      draft_title = rule_title rule, draft_description = rule_description rule,
      draft_recommendation = rule_recommendation rule, draft_evidenceJson = evidence\<rparr>"

fun evaluateRules ::
  "RuleDefinition list \<Rightarrow> PageAnalysisInput \<Rightarrow> ExtraAnalysisInput option \<Rightarrow> IssueDraft list"
where
  "evaluateRules [] page extra = []"
| "evaluateRules (rule # rules) page extra =
     (let r = rule_evaluate rule page extra
      in if fst r then draftOf rule (snd r) # evaluateRules rules page extra
         else evaluateRules rules page extra)"

definition evaluatePageIssues :: "PageAnalysisInput \<Rightarrow> ExtraAnalysisInput option \<Rightarrow> IssueDraft list" where
  "evaluatePageIssues page extra = evaluateRules RULES page extra"

text \<open>The type and severity of each draft, in order.\<close>

definition kinds :: "IssueDraft list \<Rightarrow> (IssueType \<times> Severity) list" where
  "kinds ds = map (\<lambda>d. (draft_type d, draft_severity d)) ds"

definition fires :: "bool \<Rightarrow> IssueType \<Rightarrow> Severity \<Rightarrow> (IssueType \<times> Severity) list" where
  "fires b t s = (if b then [(t, s)] else [])"

text \<open>
  What the placeholder fetch of the crawl runner hands to the evaluator: status 200 and
  every extracted field null.
\<close>

definition placeholderInput :: PageAnalysisInput where
  "placeholderInput =
     \<lparr>statusCode = Some 200, title = None, metaDescription = None, h1Count = None,
      canonical = None, robotsMeta = None, wordCount = None, redirectChainJson = None\<rparr>"

section \<open>URL canonicalizer (url/normalize.ts)\<close>

subsection \<open>The platform's URL class\<close>

text \<open>
  \<open>normalizeUrl\<close> and \<open>isInternalUrl\<close> work through the platform's \<open>URL\<close> and
  \<open>URLSearchParams\<close> classes and \<open>encodeURIComponent\<close>. They are modelled after the URL
  Standard, for input without a base URL. A URL of scheme \<open>http\<close>, \<open>https\<close>, \<open>ftp\<close>, \<open>ws\<close>
  or \<open>wss\<close> is parsed in full: scheme, optional credentials, a host that is a domain name
  or an IPv4 address, optional port, path segments with dot-segment removal, query and
  fragment, each percent-encoded by its own set. Of a \<open>file\<close> URL and of a URL of any other
  scheme the model reads what the two functions ask for, the scheme and the host (and the
  port, which can make the URL invalid); path, query and fragment are kept aside
  unparsed. What the model leaves out: a host that needs IDNA processing (a code point
  outside ASCII, a label that starts with \<open>xn--\<close>) or is an IPv6 address in brackets is
  rejected here, although the platform may accept it; a percent-escape in a query that is
  not valid UTF-8 is kept as the byte it decodes to.
\<close>

record URL =
  url_scheme :: string
  url_username :: string
  url_password :: string
  url_host :: string
  url_port :: "nat option"
  url_path :: "string list"
  url_query :: "string option"
  url_fragment :: "string option"

definition code :: "char \<Rightarrow> nat" where
  "code c = of_char c"

definition byte :: "nat \<Rightarrow> char" where
  "byte n = Char (odd n) (odd (n div 2)) (odd (n div 4)) (odd (n div 8))
                 (odd (n div 16)) (odd (n div 32)) (odd (n div 64)) (odd (n div 128))"

definition isDigit :: "char \<Rightarrow> bool" where
  "isDigit c \<longleftrightarrow> 48 \<le> code c \<and> code c \<le> 57"

definition isAlpha :: "char \<Rightarrow> bool" where
  "isAlpha c \<longleftrightarrow> (65 \<le> code c \<and> code c \<le> 90) \<or> (97 \<le> code c \<and> code c \<le> 122)"

definition hexValue :: "char \<Rightarrow> nat option" where
  "hexValue c =
     (let n = code c
      in if 48 \<le> n \<and> n \<le> 57 then Some (n - 48)
         else if 65 \<le> n \<and> n \<le> 70 then Some (n - 55)
         else if 97 \<le> n \<and> n \<le> 102 then Some (n - 87)
         else None)"

definition percentEncodeByte :: "char \<Rightarrow> string" where
  "percentEncodeByte c =
     [CHR ''%'', ''0123456789ABCDEF'' ! (code c div 16), ''0123456789ABCDEF'' ! (code c mod 16)]"

definition percentEncode :: "(nat \<Rightarrow> bool) \<Rightarrow> string \<Rightarrow> string" where
  "percentEncode inSet s = concat (map (\<lambda>c. if inSet (code c) then percentEncodeByte c else [c]) s)"

text \<open>The percent-encode sets of the URL Standard, by code point.\<close>

definition c0ControlSet :: "nat \<Rightarrow> bool" where
  "c0ControlSet n \<longleftrightarrow> n < 32 \<or> n > 126"

definition fragmentSet :: "nat \<Rightarrow> bool" where
  "fragmentSet n \<longleftrightarrow> c0ControlSet n \<or> n = 32 \<or> n = 34 \<or> n = 60 \<or> n = 62 \<or> n = 96"

definition querySet :: "nat \<Rightarrow> bool" where
  "querySet n \<longleftrightarrow> c0ControlSet n \<or> n = 32 \<or> n = 34 \<or> n = 35 \<or> n = 60 \<or> n = 62"

definition specialQuerySet :: "nat \<Rightarrow> bool" where
  "specialQuerySet n \<longleftrightarrow> querySet n \<or> n = 39"

definition pathSet :: "nat \<Rightarrow> bool" where
  "pathSet n \<longleftrightarrow> querySet n \<or> n = 63 \<or> n = 94 \<or> n = 96 \<or> n = 123 \<or> n = 125"

definition userinfoSet :: "nat \<Rightarrow> bool" where
  "userinfoSet n \<longleftrightarrow>
     pathSet n \<or> n = 47 \<or> n = 58 \<or> n = 59 \<or> n = 61 \<or> n = 64 \<or> n = 91 \<or> n = 92 \<or> n = 93 \<or> n = 124"

text \<open>
  A forbidden domain code point; code points from 128 on would go through IDNA and are
  rejected with them.
\<close>

definition forbiddenDomain :: "nat \<Rightarrow> bool" where
  "forbiddenDomain n \<longleftrightarrow>
     n \<le> 32 \<or> n = 35 \<or> n = 37 \<or> n = 47 \<or> n = 58 \<or> n = 60 \<or> n = 62 \<or> n = 63 \<or> n = 64
     \<or> n = 91 \<or> n = 92 \<or> n = 93 \<or> n = 94 \<or> n = 124 \<or> n \<ge> 127"

fun splitOn :: "(char \<Rightarrow> bool) \<Rightarrow> string \<Rightarrow> string list" where
  "splitOn d [] = [[]]"
| "splitOn d (c # cs) =
     (if d c then [] # splitOn d cs
      else (case splitOn d cs of [] \<Rightarrow> [[c]] | x # xs \<Rightarrow> (c # x) # xs))"

fun join :: "string \<Rightarrow> string list \<Rightarrow> string" where
  "join sep [] = []"
| "join sep [x] = x"
| "join sep (x # y # ys) = x @ sep @ join sep (y # ys)"

definition endsWith :: "string \<Rightarrow> string \<Rightarrow> bool" where
  "endsWith s suffix \<longleftrightarrow> startsWith (rev s) (rev suffix)"

fun digitsValue :: "string \<Rightarrow> nat \<Rightarrow> nat" where
  "digitsValue [] acc = acc"
| "digitsValue (c # cs) acc = digitsValue cs (10 * acc + (code c - 48))"

text \<open>Percent-decoding: a \<open>%\<close> followed by two hexadecimal digits is the byte they name.\<close>

fun percentDecode :: "string \<Rightarrow> string" where
  "percentDecode [] = []"
| "percentDecode (c # cs) =
     (if c = CHR ''%'' then
        (case cs of
           a # b # rest \<Rightarrow>
             (case (hexValue a, hexValue b) of
                (Some x, Some y) \<Rightarrow> byte (16 * x + y) # percentDecode rest
              | _ \<Rightarrow> c # percentDecode cs)
         | _ \<Rightarrow> c # percentDecode cs)
      else c # percentDecode cs)"

text \<open>
  The IPv4 parser. A part is a number in decimal, in octal after a leading \<open>0\<close>, or in
  hexadecimal after \<open>0x\<close>; there are at most four parts; the last part fills the bytes the
  others leave. A host whose last part reads as a number is an IPv4 address or invalid.
\<close>

definition parseIPv4Number :: "string \<Rightarrow> int option" where
  "parseIPv4Number part =
     (if part = [] then None
      else
        (let hex = (length part \<ge> 2 \<and> toLowerCase (take 2 part) = ''0x'');
             oct = (\<not> hex \<and> length part \<ge> 2 \<and> hd part = CHR ''0'');
             digits = (if hex then drop 2 part else if oct then tl part else part);
             R = (if hex then 16 else if oct then 8 else 10 :: nat)
         in if digits = [] then Some 0
            else if list_all (\<lambda>c. case hexValue c of None \<Rightarrow> False | Some v \<Rightarrow> v < R) digits
            then Some (foldl (\<lambda>acc c. int R * acc + int (the (hexValue c))) 0 digits)
            else None))"

definition hostParts :: "string \<Rightarrow> string list" where
  "hostParts h =
     (let parts = splitOn (\<lambda>c. c = CHR ''.'') h
      in if last parts = [] \<and> length parts > 1 then butlast parts else parts)"

definition endsInNumber :: "string \<Rightarrow> bool" where
  "endsInNumber h =
     (let l = last (hostParts h)
      in (l \<noteq> [] \<and> list_all isDigit l) \<or> parseIPv4Number l \<noteq> None)"

definition parseIPv4 :: "string \<Rightarrow> int option" where
  "parseIPv4 h =
     (let numbers = map parseIPv4Number (hostParts h)
      in if None \<in> set numbers then None
         else
           (case map the numbers of
              [a] \<Rightarrow> if a \<ge> 4294967296 then None else Some a
            | [a, b] \<Rightarrow>
                if a > 255 \<or> b \<ge> 16777216 then None else Some (a * 16777216 + b)
            | [a, b, c] \<Rightarrow>
                if a > 255 \<or> b > 255 \<or> c \<ge> 65536 then None
                else Some (a * 16777216 + b * 65536 + c)
            | [a, b, c, d] \<Rightarrow>
                if a > 255 \<or> b > 255 \<or> c > 255 \<or> d \<ge> 256 then None
                else Some (a * 16777216 + b * 65536 + c * 256 + d)
            | _ \<Rightarrow> None))"

definition serializeIPv4 :: "int \<Rightarrow> string" where
  "serializeIPv4 a =
     join ''.'' [String_of (a div 16777216), String_of (a div 65536 mod 256),
                 String_of (a div 256 mod 256), String_of (a mod 256)]"

text \<open>
  The host parser for a special scheme: percent-decode, lower the case (which is what the
  domain-to-ASCII step does to an ASCII domain without \<open>xn--\<close> labels), reject the
  forbidden code points, and read an IPv4 address when the host ends in a number.
\<close>

definition parseHost :: "string \<Rightarrow> string option" where
  "parseHost input =
     (let decoded = percentDecode input
      in if list_ex (\<lambda>c. code c \<ge> 128) decoded then None
         else
           (let h = toLowerCase decoded
            in if h = [] then None
               else if list_ex (\<lambda>l. take 4 l = ''xn--'') (splitOn (\<lambda>c. c = CHR ''.'') h) then None
               else if list_ex (\<lambda>c. forbiddenDomain (code c)) h then None
               else if endsInNumber h then map_option serializeIPv4 (parseIPv4 h)
               else Some h))"

text \<open>
  The host parser for any other scheme: an opaque host, kept as written but for
  percent-encoding, unless it holds a forbidden host code point.
\<close>

definition forbiddenHost :: "nat \<Rightarrow> bool" where
  "forbiddenHost n \<longleftrightarrow>
     n = 0 \<or> n = 9 \<or> n = 10 \<or> n = 13 \<or> n = 32 \<or> n = 35 \<or> n = 47 \<or> n = 58 \<or> n = 60 \<or> n = 62
     \<or> n = 63 \<or> n = 64 \<or> n = 91 \<or> n = 92 \<or> n = 93 \<or> n = 94 \<or> n = 124"

definition parseOpaqueHost :: "string \<Rightarrow> string option" where
  "parseOpaqueHost input =
     (if list_ex (\<lambda>c. forbiddenHost (code c)) input then None
      else Some (percentEncode c0ControlSet input))"

definition defaultPort :: "string \<Rightarrow> nat option" where
  "defaultPort sch =
     (if sch = ''http'' \<or> sch = ''ws'' then Some 80
      else if sch = ''https'' \<or> sch = ''wss'' then Some 443
      else if sch = ''ftp'' then Some 21
      else None)"

text \<open>
  The port state: no digits leave the port null; a non-digit or a value above 65535
  fails; the scheme's default port is stored as null.
\<close>

definition parsePort :: "string \<Rightarrow> string \<Rightarrow> nat option option" where
  "parsePort sch s =
     (if s = [] then Some None
      else if \<not> list_all isDigit s then None
      else (let p = digitsValue s 0
            in if p > 65535 then None
               else if defaultPort sch = Some p then Some None
               else Some (Some p)))"

text \<open>
  The path state, one segment at a time: a double-dot segment removes the last segment,
  a single-dot segment adds nothing, and either one leaves an empty segment behind when it
  ends the path.
\<close>

definition isSingleDot :: "string \<Rightarrow> bool" where
  "isSingleDot seg \<longleftrightarrow> toLowerCase seg = ''.'' \<or> toLowerCase seg = ''%2e''"

definition isDoubleDot :: "string \<Rightarrow> bool" where
  "isDoubleDot seg \<longleftrightarrow>
     toLowerCase seg = ''..'' \<or> toLowerCase seg = ''.%2e''
     \<or> toLowerCase seg = ''%2e.'' \<or> toLowerCase seg = ''%2e%2e''"

fun pathSegments :: "string list \<Rightarrow> string list \<Rightarrow> string list" where
  "pathSegments [] acc = acc"
| "pathSegments (seg # rest) acc =
     (if isDoubleDot seg then pathSegments rest (butlast acc @ (if rest = [] then [[]] else []))
      else if isSingleDot seg then pathSegments rest (acc @ (if rest = [] then [[]] else []))
      else pathSegments rest (acc @ [percentEncode pathSet seg]))"

definition isSlash :: "char \<Rightarrow> bool" where
  "isSlash c \<longleftrightarrow> c = CHR ''/'' \<or> code c = 92"

definition parsePath :: "string \<Rightarrow> string list" where
  "parsePath p = pathSegments (splitOn isSlash (if p \<noteq> [] \<and> isSlash (hd p) then tl p else p)) []"

text \<open>
  The scheme: an ASCII letter, then letters, digits, \<open>+\<close>, \<open>-\<close> and \<open>.\<close> up to a colon,
  in lower case. Without it there is nothing to resolve against and parsing fails.
\<close>

definition isSchemeChar :: "char \<Rightarrow> bool" where
  "isSchemeChar c \<longleftrightarrow> isAlpha c \<or> isDigit c \<or> c = CHR ''+'' \<or> c = CHR ''-'' \<or> c = CHR ''.''"

definition parseScheme :: "string \<Rightarrow> (string \<times> string) option" where
  "parseScheme input =
     (case input of
        [] \<Rightarrow> None
      | c # cs \<Rightarrow>
          if \<not> isAlpha c then None
          else (case dropWhile isSchemeChar input of
                  [] \<Rightarrow> None
                | d # rest \<Rightarrow>
                    if d = CHR '':'' then Some (toLowerCase (takeWhile isSchemeChar input), rest)
                    else None))"

definition isC0OrSpace :: "char \<Rightarrow> bool" where
  "isC0OrSpace c \<longleftrightarrow> code c \<le> 32"

definition isTabOrNewline :: "char \<Rightarrow> bool" where
  "isTabOrNewline c \<longleftrightarrow> code c = 9 \<or> code c = 10 \<or> code c = 13"

definition isAuthorityEnd :: "char \<Rightarrow> bool" where
  "isAuthorityEnd c \<longleftrightarrow> isSlash c \<or> c = CHR ''?'' \<or> c = CHR ''#''"

text \<open>
  After the scheme of \<open>http\<close>, \<open>https\<close>, \<open>ftp\<close>, \<open>ws\<close> or \<open>wss\<close>: slashes and backslashes
  are skipped, the authority runs up to the next slash, backslash, \<open>?\<close> or \<open>#\<close>, its last
  \<open>@\<close> ends the credentials, and the host must not be empty.
\<close>

definition parseSpecial :: "string \<Rightarrow> string \<Rightarrow> URL option" where
  "parseSpecial sch afterScheme =
     (let afterSlashes = dropWhile isSlash afterScheme;
          authority = takeWhile (\<lambda>c. \<not> isAuthorityEnd c) afterSlashes;
          afterAuthority = dropWhile (\<lambda>c. \<not> isAuthorityEnd c) afterSlashes;
          hasAt = (CHR ''@'' \<in> set authority);
          hostPort = rev (takeWhile (\<lambda>c. c \<noteq> CHR ''@'') (rev authority));
          userinfo = (if hasAt then take (length authority - length hostPort - 1) authority else []);
          user = takeWhile (\<lambda>c. c \<noteq> CHR '':'') userinfo;
          pass = drop 1 (dropWhile (\<lambda>c. c \<noteq> CHR '':'') userinfo);
          hostStr = takeWhile (\<lambda>c. c \<noteq> CHR '':'') hostPort;
          portStr = drop 1 (dropWhile (\<lambda>c. c \<noteq> CHR '':'') hostPort);
          pathStr = takeWhile (\<lambda>c. c \<noteq> CHR ''?'' \<and> c \<noteq> CHR ''#'') afterAuthority;
          afterPath = dropWhile (\<lambda>c. c \<noteq> CHR ''?'' \<and> c \<noteq> CHR ''#'') afterAuthority;
          hasQuery = (afterPath \<noteq> [] \<and> hd afterPath = CHR ''?'');
          queryStr = (if hasQuery then takeWhile (\<lambda>c. c \<noteq> CHR ''#'') (tl afterPath) else []);
          afterQuery = (if hasQuery then dropWhile (\<lambda>c. c \<noteq> CHR ''#'') (tl afterPath) else afterPath)
      in case parseHost hostStr of
           None \<Rightarrow> None
         | Some h \<Rightarrow>
             (case parsePort sch portStr of
                None \<Rightarrow> None
              | Some p \<Rightarrow>
                  Some \<lparr>url_scheme = sch,
                        url_username = percentEncode userinfoSet user,
                        url_password = percentEncode userinfoSet pass,
                        url_host = h,
                        url_port = p,
                        url_path = parsePath pathStr,
                        url_query =
                          (if hasQuery then Some (percentEncode specialQuerySet queryStr)
                           else None),
                        url_fragment =
                          (if afterQuery \<noteq> [] then Some (percentEncode fragmentSet (tl afterQuery))
                           else None)\<rparr>))"

text \<open>
  A URL whose host is all the model reads of it: the text after the host is kept aside
  as one path segment.
\<close>

definition hostOnly :: "string \<Rightarrow> string \<Rightarrow> nat option \<Rightarrow> string \<Rightarrow> URL" where
  "hostOnly sch h p rest =
     \<lparr>url_scheme = sch, url_username = [], url_password = [], url_host = h,
      url_port = p, url_path = [rest], url_query = None, url_fragment = None\<rparr>"

text \<open>
  After the scheme \<open>file\<close>: a host is read only behind two slashes or backslashes, up to
  the next slash, backslash, \<open>?\<close> or \<open>#\<close>. A Windows drive letter there is the start of the
  path, and the host \<open>localhost\<close> is stored as the empty host.
\<close>

definition isWindowsDriveLetter :: "string \<Rightarrow> bool" where
  "isWindowsDriveLetter s \<longleftrightarrow>
     length s = 2 \<and> isAlpha (hd s) \<and> (s ! 1 = CHR '':'' \<or> s ! 1 = CHR ''|'')"

definition parseFile :: "string \<Rightarrow> URL option" where
  "parseFile afterScheme =
     (if length afterScheme \<ge> 2 \<and> isSlash (afterScheme ! 0) \<and> isSlash (afterScheme ! 1) then
        (let buffer = takeWhile (\<lambda>c. \<not> isAuthorityEnd c) (drop 2 afterScheme);
             rest = dropWhile (\<lambda>c. \<not> isAuthorityEnd c) (drop 2 afterScheme)
         in if isWindowsDriveLetter buffer then Some (hostOnly ''file'' [] None (buffer @ rest))
            else if buffer = [] then Some (hostOnly ''file'' [] None rest)
            else (case parseHost buffer of
                    None \<Rightarrow> None
                  | Some h \<Rightarrow>
                      Some (hostOnly ''file'' (if h = ''localhost'' then [] else h) None rest)))
      else Some (hostOnly ''file'' [] None afterScheme))"

text \<open>
  After any other scheme: there is an authority only behind \<open>//\<close>; it runs up to the next
  slash, \<open>?\<close> or \<open>#\<close>. Its host is opaque and may be empty, but not when credentials or
  a port come with it. Without \<open>//\<close> the URL has no host and \<open>hostname\<close> is empty.
\<close>

definition parseNonSpecial :: "string \<Rightarrow> string \<Rightarrow> URL option" where
  "parseNonSpecial sch afterScheme =
     (if take 2 afterScheme = ''//'' then
        (let isEnd = (\<lambda>c. c = CHR ''/'' \<or> c = CHR ''?'' \<or> c = CHR ''#'');
             authority = takeWhile (\<lambda>c. \<not> isEnd c) (drop 2 afterScheme);
             rest = dropWhile (\<lambda>c. \<not> isEnd c) (drop 2 afterScheme);
             hasAt = (CHR ''@'' \<in> set authority);
             hostPort = rev (takeWhile (\<lambda>c. c \<noteq> CHR ''@'') (rev authority));
             hasColon = (CHR '':'' \<in> set hostPort);
             hostStr = takeWhile (\<lambda>c. c \<noteq> CHR '':'') hostPort;
             portStr = drop 1 (dropWhile (\<lambda>c. c \<noteq> CHR '':'') hostPort)
         in if hostStr = [] \<and> (hasAt \<or> hasColon) then None
            else (case parseOpaqueHost hostStr of
                    None \<Rightarrow> None
                  | Some h \<Rightarrow>
                      (case parsePort sch portStr of
                         None \<Rightarrow> None
                       | Some p \<Rightarrow> Some (hostOnly sch h p rest))))
      else Some (hostOnly sch [] None afterScheme))"

text \<open>\<open>new URL(rawUrl)\<close>; \<open>None\<close> when the constructor throws.\<close>

definition parseURL :: "string \<Rightarrow> URL option" where
  "parseURL rawUrl =
     (let stripped = rev (dropWhile isC0OrSpace (rev (dropWhile isC0OrSpace rawUrl)));
          input = filter (\<lambda>c. \<not> isTabOrNewline c) stripped
      in case parseScheme input of
           None \<Rightarrow> None
         | Some (sch, afterScheme) \<Rightarrow>
             if sch = ''file'' then parseFile afterScheme
             else if sch \<in> set [''http'', ''https'', ''ftp'', ''ws'', ''wss'']
             then parseSpecial sch afterScheme
             else parseNonSpecial sch afterScheme)"

text \<open>The getters and the serializer (\<open>toString\<close>, \<open>href\<close>).\<close>

definition protocol :: "URL \<Rightarrow> string" where
  "protocol u = url_scheme u @ '':''"

definition hostname :: "URL \<Rightarrow> string" where
  "hostname u = url_host u"

definition port :: "URL \<Rightarrow> string" where
  "port u = (case url_port u of None \<Rightarrow> [] | Some p \<Rightarrow> nat_digits p)"

definition pathname :: "URL \<Rightarrow> string" where
  "pathname u = concat (map (\<lambda>seg. CHR ''/'' # seg) (url_path u))"

definition search :: "URL \<Rightarrow> string" where
  "search u = (case url_query u of None \<Rightarrow> [] | Some q \<Rightarrow> if q = [] then [] else CHR ''?'' # q)"

definition href :: "URL \<Rightarrow> string" where
  "href u =
     url_scheme u @ ''://''
     @ (if url_username u \<noteq> [] \<or> url_password u \<noteq> []
        then url_username u @ (if url_password u \<noteq> [] then CHR '':'' # url_password u else []) @ ''@''
        else [])
     @ url_host u
     @ (case url_port u of None \<Rightarrow> [] | Some p \<Rightarrow> CHR '':'' # nat_digits p)
     @ pathname u
     @ (case url_query u of None \<Rightarrow> [] | Some q \<Rightarrow> CHR ''?'' # q)
     @ (case url_fragment u of None \<Rightarrow> [] | Some f \<Rightarrow> CHR ''#'' # f)"

text \<open>
  The setters \<open>normalizeUrl\<close> uses: \<open>url.hostname = v\<close> (ignored when \<open>v\<close> is not a host),
  \<open>url.port = ''\<close>, \<open>url.hash = ''\<close> and \<open>url.search = v\<close>.
\<close>

definition set_hostname :: "string \<Rightarrow> URL \<Rightarrow> URL" where
  "set_hostname v u = (case parseHost v of None \<Rightarrow> u | Some h \<Rightarrow> u\<lparr>url_host := h\<rparr>)"

definition clear_port :: "URL \<Rightarrow> URL" where
  "clear_port u = u\<lparr>url_port := None\<rparr>"

definition clear_hash :: "URL \<Rightarrow> URL" where
  "clear_hash u = u\<lparr>url_fragment := None\<rparr>"

definition set_search :: "string \<Rightarrow> URL \<Rightarrow> URL" where
  "set_search v u =
     (if v = [] then u\<lparr>url_query := None\<rparr>
      else (let input = (if hd v = CHR ''?'' then tl v else v)
            in u\<lparr>url_query :=
                   Some (percentEncode specialQuerySet (filter (\<lambda>c. \<not> isTabOrNewline c) input))\<rparr>))"

subsection \<open>Query parameters\<close>

definition plusToSpace :: "string \<Rightarrow> string" where
  "plusToSpace s = map (\<lambda>c. if c = CHR ''+'' then CHR '' '' else c) s"

text \<open>
  \<open>new URLSearchParams(search)\<close> and its entries: a leading \<open>?\<close> is dropped, the rest is
  split at \<open>&\<close>, empty pieces are skipped, each piece is split at its first \<open>=\<close>, and
  name and value are decoded.
\<close>

definition URLSearchParams :: "string \<Rightarrow> (string \<times> string) list" where
  "URLSearchParams init =
     (let input = (if init \<noteq> [] \<and> hd init = CHR ''?'' then tl init else init);
          pieces = filter (\<lambda>p. p \<noteq> []) (splitOn (\<lambda>c. c = CHR ''&'') input)
      in map (\<lambda>p. (percentDecode (plusToSpace (takeWhile (\<lambda>c. c \<noteq> CHR ''='') p)),
                    percentDecode (plusToSpace (drop 1 (dropWhile (\<lambda>c. c \<noteq> CHR ''='') p))))) pieces)"

definition isUnreserved :: "char \<Rightarrow> bool" where
  "isUnreserved c \<longleftrightarrow> isAlpha c \<or> isDigit c \<or> c \<in> set ''-_.!~*'' \<or> code c = 39 \<or> c \<in> set ''()''"

definition encodeURIComponent :: "string \<Rightarrow> string" where
  "encodeURIComponent s = concat (map (\<lambda>c. if isUnreserved c then [c] else percentEncodeByte c) s)"

text \<open>
  \<open>Array.prototype.sort\<close> with a comparator is stable: an element goes before the first
  element it does not compare greater than.
\<close>

fun insertBy :: "('a \<Rightarrow> 'a \<Rightarrow> int) \<Rightarrow> 'a \<Rightarrow> 'a list \<Rightarrow> 'a list" where
  "insertBy cmp x [] = [x]"
| "insertBy cmp x (y # ys) = (if cmp x y \<le> 0 then x # y # ys else y # insertBy cmp x ys)"

definition sortBy :: "('a \<Rightarrow> 'a \<Rightarrow> int) \<Rightarrow> 'a list \<Rightarrow> 'a list" where
  "sortBy cmp xs = foldr (insertBy cmp) xs []"

subsection \<open>normalizeUrl\<close>

text \<open>
  \<open>localeCompare\<close> is the platform's collation of two strings, a parameter here: it
  depends on the locale the worker runs in.
\<close>

definition rebuildSearch :: "(string \<times> string) list \<Rightarrow> string" where
  "rebuildSearch filteredParams =
     CHR ''?'' # join ''&''
       (map (\<lambda>(k, v). if v = [] then encodeURIComponent k
                       else encodeURIComponent k @ ''='' @ encodeURIComponent v) filteredParams)"

definition normalizeUrl :: "(string \<Rightarrow> string \<Rightarrow> int) \<Rightarrow> string \<Rightarrow> string list \<Rightarrow> string option" where
  "normalizeUrl localeCompare rawUrl ignoreParams =
     (case parseURL rawUrl of
        None \<Rightarrow> None
      | Some url0 \<Rightarrow>
          if protocol url0 \<noteq> ''http:'' \<and> protocol url0 \<noteq> ''https:'' then None
          else
            (let url1 = set_hostname (toLowerCase (hostname url0)) url0;
                 url2 = (if (protocol url1 = ''http:'' \<and> port url1 = ''80'')
                            \<or> (protocol url1 = ''https:'' \<and> port url1 = ''443'')
                         then clear_port url1 else url1);
                 url3 = clear_hash url2;
                 params = URLSearchParams (search url3);
                 ignoreSet = map toLowerCase ignoreParams;
                 filteredParams =
                   sortBy (\<lambda>a b. localeCompare (fst a) (fst b))
                     (filter (\<lambda>(key, value). toLowerCase key \<notin> set ignoreSet) params);
                 url4 = (if length filteredParams > 0 then set_search (rebuildSearch filteredParams) url3
                         else set_search [] url3);
                 normalized = href url4
             in if pathname url4 \<noteq> ''/'' \<and> endsWith normalized ''/''
                then Some (butlast normalized) else Some normalized))"

definition codeUnitCompare :: "string \<Rightarrow> string \<Rightarrow> int" where
  "codeUnitCompare a b =
     (if a = b then 0 else if lexordp (\<lambda>x y. code x < code y) a b then - 1 else 1)"

section \<open>Internal URLs (url/isInternal.ts)\<close>

text \<open>
  A URL is internal when its host name is the base domain or, with subdomains included,
  ends with a dot and the base domain; a string that is not a URL is not internal.
\<close>

definition isInternalUrl :: "string \<Rightarrow> string \<Rightarrow> bool \<Rightarrow> bool" where
  "isInternalUrl candidateUrl baseDomain inclSubdomains =
     (case parseURL candidateUrl of
        None \<Rightarrow> False
      | Some url \<Rightarrow>
          (let host = toLowerCase (hostname url);
               domain = toLowerCase baseDomain
           in if host = domain then True
              else if inclSubdomains \<and> endsWith host (CHR ''.'' # domain) then True
              else False))"

section \<open>Crawl settings and fetch results (types.ts)\<close>

record CrawlSettings =
  maxPages :: int
  maxDepth :: int
  ignoreParams :: "json list"
  respectRobots :: bool
  throttleMs :: int
  includeSubdomains :: bool

definition DEFAULT_CRAWL_SETTINGS :: CrawlSettings where
  "DEFAULT_CRAWL_SETTINGS =
     \<lparr>maxPages = 1000, maxDepth = 5,
      ignoreParams = map JStr [''utm_source'', ''utm_medium'', ''utm_campaign'', ''utm_term'',
                               ''utm_content'', ''gclid'', ''fbclid''],
      respectRobots = True, throttleMs = 100, includeSubdomains = False\<rparr>"

text \<open>A property read \<open>settings.key\<close>: undefined unless the value is an object with the key.\<close>

definition getProp :: "json \<Rightarrow> string \<Rightarrow> json option" where
  "getProp v k = (case v of JObj kvs \<Rightarrow> map_of kvs k | _ \<Rightarrow> None)"

definition numberOr :: "json option \<Rightarrow> int \<Rightarrow> int" where
  "numberOr v d = (case v of Some (JNum n) \<Rightarrow> n | _ \<Rightarrow> d)"

definition booleanOr :: "json option \<Rightarrow> bool \<Rightarrow> bool" where
  "booleanOr v d = (case v of Some (JBool b) \<Rightarrow> b | _ \<Rightarrow> d)"

definition arrayOr :: "json option \<Rightarrow> json list \<Rightarrow> json list" where
  "arrayOr v d = (case v of Some (JArr xs) \<Rightarrow> xs | _ \<Rightarrow> d)"

definition buildCrawlSettings :: "json \<Rightarrow> CrawlSettings" where
  "buildCrawlSettings settingsJson =
     \<lparr>maxPages = numberOr (getProp settingsJson ''maxPages'') (maxPages DEFAULT_CRAWL_SETTINGS),
      maxDepth = numberOr (getProp settingsJson ''maxDepth'') (maxDepth DEFAULT_CRAWL_SETTINGS),
      ignoreParams = arrayOr (getProp settingsJson ''ignoreParams'') (ignoreParams DEFAULT_CRAWL_SETTINGS),
      respectRobots = booleanOr (getProp settingsJson ''respectRobots'') (respectRobots DEFAULT_CRAWL_SETTINGS),
      throttleMs = numberOr (getProp settingsJson ''throttleMs'') (throttleMs DEFAULT_CRAWL_SETTINGS),
      includeSubdomains =
        booleanOr (getProp settingsJson ''includeSubdomains'') (includeSubdomains DEFAULT_CRAWL_SETTINGS)\<rparr>"

record PageResult =
  pr_url :: string
  pr_statusCode :: "int option"
  pr_contentType :: "string option"
  pr_title :: "string option"
  pr_metaDescription :: "string option"
  pr_h1Count :: "int option"
  pr_canonical :: "string option"
  pr_robotsMeta :: "string option"
  pr_wordCount :: "int option"
  pr_links :: "string list"
  pr_imagesMissingAlt :: int
  pr_error :: "string option"
  pr_html :: "string option"

section \<open>Global issues (crawl/global-issues.ts)\<close>

fun issueType_name :: "IssueType \<Rightarrow> string" where
  "issueType_name STATUS_4XX_5XX = ''STATUS_4XX_5XX''"
| "issueType_name STATUS_3XX_REDIRECT = ''STATUS_3XX_REDIRECT''"
| "issueType_name REDIRECT_CHAIN_LONG = ''REDIRECT_CHAIN_LONG''"
| "issueType_name MISSING_TITLE = ''MISSING_TITLE''"
| "issueType_name DUPLICATE_TITLE = ''DUPLICATE_TITLE''"
| "issueType_name TITLE_TOO_LONG = ''TITLE_TOO_LONG''"
| "issueType_name TITLE_TOO_SHORT = ''TITLE_TOO_SHORT''"
| "issueType_name MISSING_META_DESCRIPTION = ''MISSING_META_DESCRIPTION''"
| "issueType_name H1_MISSING = ''H1_MISSING''"
| "issueType_name H1_MULTIPLE = ''H1_MULTIPLE''"
| "issueType_name CANONICAL_MISSING = ''CANONICAL_MISSING''"
| "issueType_name ROBOTS_NOINDEX = ''ROBOTS_NOINDEX''"
| "issueType_name THIN_CONTENT = ''THIN_CONTENT''"
| "issueType_name IMAGES_MISSING_ALT = ''IMAGES_MISSING_ALT''"

text \<open>
  \<open>detectDuplicateTitles\<close>: the run's pages with a title that is not empty after
  \<open>trim\<close>, grouped by the lower-cased title in order of first occurrence; every page
  of a group of two or more gets a \<open>DUPLICATE_TITLE\<close> issue.
\<close>

definition addToGroup ::
  "Page \<Rightarrow> (string \<times> (string \<times> string \<times> string) list) list
     \<Rightarrow> (string \<times> (string \<times> string \<times> string) list) list"
where
  "addToGroup page titleGroups =
     (case page_title page of
        None \<Rightarrow> titleGroups
      | Some t \<Rightarrow>
          (let title = trim t
           in if title = [] then titleGroups
              else (let normalizedTitle = toLowerCase title;
                        grp = (case map_of titleGroups normalizedTitle of None \<Rightarrow> [] | Some g \<Rightarrow> g)
                    in AList.update normalizedTitle (grp @ [(page_id page, page_url page, title)])
                         titleGroups)))"

definition duplicateTitleIssues :: "string \<Rightarrow> (string \<times> string \<times> string) list \<Rightarrow> Issue list" where
  "duplicateTitleIssues crawlRunId grp =
     (let exampleUrls = map (\<lambda>p. fst (snd p)) (take 5 grp);
          originalTitle = snd (snd (hd grp))
      in map (\<lambda>p.
           \<lparr>issue_crawlRunId = crawlRunId, issue_pageId = Some (fst p),
            issue_type = issueType_name DUPLICATE_TITLE, issue_severity = MEDIUM,
            issue_title = ''Duplicate title'',
            issue_description =
              ''This page shares the same title with other pages. Duplicate titles can reduce SEO clarity.'',
            issue_recommendation = ''Make titles unique and descriptive for each page.'',
            issue_evidenceJson =
              JObj [(''duplicateTitle'', JStr originalTitle),
                    (''count'', JNum (int (length grp))),
                    (''examples'', JArr (map JStr exampleUrls))]\<rparr>) grp)"

definition generateGlobalIssues :: "string \<Rightarrow> DB \<Rightarrow> DB" where
  "generateGlobalIssues crawlRunId db =
     (let pagesWithTitles =
            filter (\<lambda>p. page_crawlRunId p = crawlRunId \<and> page_title p \<noteq> None) (pages db);
          titleGroups = fold addToGroup pagesWithTitles [];
          duplicateGroups = filter (\<lambda>g. length (snd g) \<ge> 2) titleGroups;
          issueData = concat (map (\<lambda>g. duplicateTitleIssues crawlRunId (snd g)) duplicateGroups)
      in db\<lparr>issues := issues db @ issueData\<rparr>)"

section \<open>BFS driver (crawl/crawl-runner.ts)\<close>

text \<open>
  What the driver reaches outside this model is gathered in an environment: the page
  fetcher (a placeholder in the source), the platform's resolution of a link against a
  base URL (\<open>new URL(link, base).toString()\<close>, \<open>None\<close> when it throws), the template
  signature of an HTML document (hash and JSON, \<open>None\<close> when there is none or the
  computation throws), the platform's collation, and what the \<open>n\<close>-th poll of the run's
  status finds (the API may cancel the run at any time).
\<close>

record crawl_env =
  env_fetchAndParsePage :: "string \<Rightarrow> PageResult"
  env_resolve :: "string \<Rightarrow> string \<Rightarrow> string option"
  env_computeTemplateSignature :: "string \<Rightarrow> (string \<times> json) option"
  env_localeCompare :: "string \<Rightarrow> string \<Rightarrow> int"
  env_isCrawlCanceled :: "nat \<Rightarrow> bool"

text \<open>The placeholder \<open>fetchAndParsePage\<close> of the source.\<close>

definition fetchAndParsePage :: "string \<Rightarrow> PageResult" where
  "fetchAndParsePage url =
     \<lparr>pr_url = url, pr_statusCode = Some 200, pr_contentType = Some ''text/html'',
      pr_title = None, pr_metaDescription = None, pr_h1Count = None, pr_canonical = None,
      pr_robotsMeta = None, pr_wordCount = None, pr_links = [], pr_imagesMissingAlt = 0,
      pr_error = None, pr_html = None\<rparr>"

text \<open>Truthiness of a \<open>string | null\<close>: null and the empty string are falsy.\<close>

definition truthy :: "string option \<Rightarrow> bool" where
  "truthy x = (case x of None \<Rightarrow> False | Some s \<Rightarrow> s \<noteq> [])"

text \<open>
  \<open>normalizeUrl\<close> on the settings' \<open>ignoreParams\<close> array: an element that is not a string
  makes \<open>p.toLowerCase()\<close> throw inside the function's \<open>try\<close>, for a URL that got that far.
\<close>

definition isJStr :: "json \<Rightarrow> bool" where
  "isJStr v = (case v of JStr _ \<Rightarrow> True | _ \<Rightarrow> False)"

definition strOf :: "json \<Rightarrow> string" where
  "strOf v = (case v of JStr s \<Rightarrow> s | _ \<Rightarrow> [])"

definition normalizeWith :: "crawl_env \<Rightarrow> CrawlSettings \<Rightarrow> string \<Rightarrow> string option" where
  "normalizeWith env settings rawUrl =
     (if list_all isJStr (ignoreParams settings)
      then normalizeUrl (env_localeCompare env) rawUrl (map strOf (ignoreParams settings))
      else None)"

definition resolveAndNormalize :: "crawl_env \<Rightarrow> CrawlSettings \<Rightarrow> string \<Rightarrow> string \<Rightarrow> string option" where
  "resolveAndNormalize env settings link baseUrl =
     (case env_resolve env link baseUrl of
        None \<Rightarrow> None
      | Some resolved \<Rightarrow> normalizeWith env settings resolved)"

definition computePageTemplateSignature :: "crawl_env \<Rightarrow> PageResult \<Rightarrow> (string \<times> json) option" where
  "computePageTemplateSignature env result =
     (if \<not> truthy (pr_html result)
         \<or> \<not> (case pr_contentType result of None \<Rightarrow> False | Some ct \<Rightarrow> includes_str ct ''text/html'')
      then None
      else env_computeTemplateSignature env (the (pr_html result)))"

text \<open>
  \<open>prisma.page.create\<close>: rejects a second row with the same \<open>(crawlRunId, normalizedUrl)\<close>.
  \<open>prisma.issue.createMany\<close> appends its rows.
\<close>

definition page_create :: "Page \<Rightarrow> DB \<Rightarrow> db_error + DB" where
  "page_create page db =
     (if list_ex (\<lambda>p. page_crawlRunId p = page_crawlRunId page
                       \<and> page_normalizedUrl p = page_normalizedUrl page) (pages db)
      then Inl UniqueConstraint
      else Inr (db\<lparr>pages := pages db @ [page]\<rparr>))"

definition issue_createMany :: "Issue list \<Rightarrow> DB \<Rightarrow> DB" where
  "issue_createMany rows db = db\<lparr>issues := issues db @ rows\<rparr>"

record crawl_state =
  queue :: "(string \<times> nat) list"
  visited :: "string list"
  pagesProcessed :: nat
  cancelCheckCounter :: nat
  polls :: nat
  created :: nat
  cs_db :: DB

text \<open>
  \<open>visited\<close> is the \<open>Set\<close> in insertion order; \<open>polls\<close> counts the status polls made and
  \<open>created\<close> the page rows created, from which the row's id is made.
\<close>

definition CANCEL_CHECK_INTERVAL :: nat where
  "CANCEL_CHECK_INTERVAL = 20"

definition issueRow :: "string \<Rightarrow> string \<Rightarrow> IssueDraft \<Rightarrow> Issue" where
  "issueRow crawlRunId pageId draft =
     \<lparr>issue_crawlRunId = crawlRunId, issue_pageId = Some pageId,
      issue_type = issueType_name (draft_type draft), issue_severity = draft_severity draft,
      issue_title = draft_title draft, issue_description = draft_description draft,
      issue_recommendation = draft_recommendation draft,
      issue_evidenceJson = draft_evidenceJson draft\<rparr>"

text \<open>The loop over \<open>result.links\<close>: one discovered link.\<close>

definition enqueueLink ::
  "crawl_env \<Rightarrow> CrawlSettings \<Rightarrow> string \<Rightarrow> string \<Rightarrow> nat \<Rightarrow> string list \<Rightarrow> string
     \<Rightarrow> (string \<times> nat) list \<Rightarrow> (string \<times> nat) list"
where
  "enqueueLink env settings baseDomain normalizedUrl depth visitedNow link q =
     (case resolveAndNormalize env settings link normalizedUrl of
        None \<Rightarrow> q
      | Some normalizedLink \<Rightarrow>
          if \<not> isInternalUrl normalizedLink baseDomain (includeSubdomains settings) then q
          else if normalizedLink \<in> set visitedNow then q
          else q @ [(normalizedLink, depth + 1)])"

text \<open>
  The \<open>try\<close> block of one iteration, for a URL that has just been marked visited: fetch,
  skip on a fetch error, create the page row, create its issues, enqueue its links. An
  exception (here: the page row cannot be created) is caught and logged, and the loop goes on.
\<close>

definition processPage ::
  "crawl_env \<Rightarrow> CrawlSettings \<Rightarrow> string \<Rightarrow> string \<Rightarrow> string \<Rightarrow> nat \<Rightarrow> crawl_state \<Rightarrow> crawl_state"
where
  "processPage env settings crawlRunId baseDomain normalizedUrl depth st =
     (let result = env_fetchAndParsePage env normalizedUrl
      in if truthy (pr_error result) then st
         else
           (let sig = computePageTemplateSignature env result;
                pageId = ''page-'' @ nat_digits (created st);
                page = \<lparr>page_id = pageId, page_crawlRunId = crawlRunId,
                        page_url = normalizedUrl, page_normalizedUrl = normalizedUrl,
                        page_statusCode = pr_statusCode result,
                        page_contentType = pr_contentType result,
                        page_title = pr_title result,
                        page_metaDescription = pr_metaDescription result,
                        page_h1Count = pr_h1Count result,
                        page_canonical = pr_canonical result,
                        page_robotsMeta = pr_robotsMeta result,
                        page_wordCount = pr_wordCount result,
                        page_templateSignatureHash = map_option fst sig,
                        page_templateSignatureJson = map_option snd sig\<rparr>
            in case page_create page (cs_db st) of
                 Inl e \<Rightarrow> st
               | Inr db1 \<Rightarrow>
                   (let issueDrafts =
                          (if pr_statusCode result \<noteq> None then
                             evaluatePageIssues
                               \<lparr>statusCode = pr_statusCode result, title = pr_title result,
                                metaDescription = pr_metaDescription result,
                                h1Count = pr_h1Count result, canonical = pr_canonical result,
                                robotsMeta = pr_robotsMeta result, wordCount = pr_wordCount result,
                                redirectChainJson = None\<rparr>
                               (Some \<lparr>imagesMissingAlt = Some (pr_imagesMissingAlt result)\<rparr>)
                           else []);
                        db2 = (if length issueDrafts > 0
                               then issue_createMany (map (issueRow crawlRunId pageId) issueDrafts) db1
                               else db1)
                    in st\<lparr>queue := fold (enqueueLink env settings baseDomain normalizedUrl depth (visited st))
                                       (pr_links result) (queue st),
                          created := created st + 1,
                          cs_db := db2\<rparr>)))"

datatype loop_exit = QueueEmpty | CanceledExit | MaxPagesReached

text \<open>
  One iteration of \<open>while (queue.length > 0)\<close>, for a non-empty queue: \<open>Inl\<close> leaves the
  loop (\<open>return\<close> on cancellation, \<open>break\<close> at the page limit), \<open>Inr\<close> goes round again.
\<close>

definition dequeueStep ::
  "crawl_env \<Rightarrow> CrawlSettings \<Rightarrow> string \<Rightarrow> string \<Rightarrow> crawl_state \<Rightarrow> (loop_exit \<times> crawl_state) + crawl_state"
where
  "dequeueStep env settings crawlRunId baseDomain st =
     (if int (length (visited st)) \<ge> maxPages settings then Inl (MaxPagesReached, st)
      else
        (case queue st of
           [] \<Rightarrow> Inl (QueueEmpty, st)
         | item # rest \<Rightarrow>
             (let url = fst item; depth = snd item; st1 = st\<lparr>queue := rest\<rparr>
              in if int depth > maxDepth settings then Inr st1
                 else
                   (case normalizeWith env settings url of
                      None \<Rightarrow> Inr st1
                    | Some normalizedUrl \<Rightarrow>
                        if normalizedUrl \<in> set (visited st1) then Inr st1
                        else
                          Inr (processPage env settings crawlRunId baseDomain normalizedUrl depth
                                 (st1\<lparr>visited := visited st1 @ [normalizedUrl],
                                      pagesProcessed := pagesProcessed st1 + 1\<rparr>))))))"

definition bfsIteration ::
  "crawl_env \<Rightarrow> CrawlSettings \<Rightarrow> string \<Rightarrow> string \<Rightarrow> crawl_state \<Rightarrow> (loop_exit \<times> crawl_state) + crawl_state"
where
  "bfsIteration env settings crawlRunId baseDomain st =
     (let counted = cancelCheckCounter st + 1
      in if counted \<ge> CANCEL_CHECK_INTERVAL then
           (let st0 = st\<lparr>cancelCheckCounter := 0, polls := polls st + 1\<rparr>
            in if env_isCrawlCanceled env (polls st) then Inl (CanceledExit, st0)
               else dequeueStep env settings crawlRunId baseDomain st0)
         else dequeueStep env settings crawlRunId baseDomain (st\<lparr>cancelCheckCounter := counted\<rparr>))"

function bfsLoop ::
  "crawl_env \<Rightarrow> CrawlSettings \<Rightarrow> string \<Rightarrow> string \<Rightarrow> crawl_state \<Rightarrow> loop_exit \<times> crawl_state"
where
  "bfsLoop env settings crawlRunId baseDomain st =
     (if queue st = [] then (QueueEmpty, st)
      else (case bfsIteration env settings crawlRunId baseDomain st of
              Inl ex \<Rightarrow> ex
            | Inr st' \<Rightarrow> bfsLoop env settings crawlRunId baseDomain st'))"
  by pat_completeness auto
termination
proof (relation "measures [\<lambda>(env, settings, crawlRunId, baseDomain, st).
                             nat (maxPages settings - int (length (visited st))),
                           \<lambda>(env, settings, crawlRunId, baseDomain, st). length (queue st)]")
  show "wf (measures [\<lambda>(env, settings, crawlRunId, baseDomain, st).
                             nat (maxPages settings - int (length (visited st))),
                           \<lambda>(env, settings, crawlRunId, baseDomain, st). length (queue st)])"
    by simp
next
  fix env :: crawl_env and settings crawlRunId baseDomain st st'
  assume it: "bfsIteration env settings crawlRunId baseDomain st = Inr st'"
  have vp: "visited (processPage env settings crawlRunId baseDomain n d s) = visited s" for n d s
    by (simp add: processPage_def Let_def split: sum.splits)
  from it obtain st0 where st0: "dequeueStep env settings crawlRunId baseDomain st0 = Inr st'"
    "visited st0 = visited st" "queue st0 = queue st"
    by (auto simp: bfsIteration_def Let_def split: if_splits)
  from st0(1) have "(visited st' = visited st0 \<and> length (queue st') < length (queue st0))
         \<or> (length (visited st') = Suc (length (visited st0))
              \<and> int (length (visited st0)) < maxPages settings)"
    by (auto simp: dequeueStep_def Let_def vp split: if_splits list.splits option.splits)
  with st0(2,3)
  show "((env, settings, crawlRunId, baseDomain, st'), (env, settings, crawlRunId, baseDomain, st))
          \<in> measures [\<lambda>(env, settings, crawlRunId, baseDomain, st).
                             nat (maxPages settings - int (length (visited st))),
                           \<lambda>(env, settings, crawlRunId, baseDomain, st). length (queue st)]"
    by auto
qed

declare bfsLoop.simps [simp del]

text \<open>The idempotency clean-up at the start of \<open>runCrawl\<close>: three \<open>deleteMany\<close> calls.\<close>

definition wipeRunData :: "string \<Rightarrow> DB \<Rightarrow> DB" where
  "wipeRunData crawlRunId db =
     db\<lparr>issues := filter (\<lambda>i. issue_crawlRunId i \<noteq> crawlRunId) (issues db),
        links := filter (\<lambda>l. link_crawlRunId l \<noteq> crawlRunId) (links db),
        pages := filter (\<lambda>p. page_crawlRunId p \<noteq> crawlRunId) (pages db)\<rparr>"

definition seed :: "string \<Rightarrow> DB \<Rightarrow> crawl_state" where
  "seed normalizedStart db =
     \<lparr>queue = [(normalizedStart, 0)], visited = [], pagesProcessed = 0,
      cancelCheckCounter = 0, polls = 0, created = 0, cs_db = db\<rparr>"

text \<open>
  The tail of \<open>runCrawl\<close> after the loop. An exception leaves \<open>runCrawl\<close> with the store
  as it is at that point: \<open>Inl\<close> carries the error and that store.
\<close>

definition postProcessing :: "string \<Rightarrow> DB \<Rightarrow> (db_error \<times> DB) + DB" where
  "postProcessing crawlRunId db =
     (case postProcessCrawl crawlRunId db of
        Inl e \<Rightarrow> Inl (e, db)
      | Inr (totals, db1) \<Rightarrow>
          (case saveCrawlTotals crawlRunId totals db1 of
             Inl e \<Rightarrow> Inl (e, db1)
           | Inr db2 \<Rightarrow>
               (let db3 = generateGlobalIssues crawlRunId db2;
                    issueSummary = computeIssueSummary crawlRunId db3
                in case saveIssueSummary crawlRunId issueSummary db3 of
                     Inl e \<Rightarrow> Inl (e, db3)
                   | Inr db4 \<Rightarrow> Inr db4)))"

definition runCrawl :: "crawl_env \<Rightarrow> string \<Rightarrow> string \<Rightarrow> DB \<Rightarrow> (db_error \<times> DB) + DB" where
  "runCrawl env projectId crawlRunId db =
     (case find (\<lambda>p. project_id p = projectId) (projects db) of
        None \<Rightarrow> Inl (Thrown (''Project '' @ projectId @ '' not found''), db)
      | Some project \<Rightarrow>
          (case findRun crawlRunId db of
             None \<Rightarrow> Inl (Thrown (''CrawlRun '' @ crawlRunId @ '' not found''), db)
           | Some crawlRun \<Rightarrow>
               (let settings = buildCrawlSettings (project_settingsJson project);
                    db0 = wipeRunData crawlRunId db;
                    startUrl = project_startUrl project;
                    baseDomain = project_domain project
                in case normalizeWith env settings startUrl of
                     None \<Rightarrow> Inl (Thrown (''Invalid start URL: '' @ startUrl), db0)
                   | Some normalizedStart \<Rightarrow>
                       (case bfsLoop env settings crawlRunId baseDomain (seed normalizedStart db0) of
                          (CanceledExit, st) \<Rightarrow> Inr (cs_db st)
                        | (_, st) \<Rightarrow> postProcessing crawlRunId (cs_db st)))))"

section \<open>Run lifecycle: the job runner (worker index.ts) and cancel (crawl.service.ts)\<close>

datatype OrgRole = ADMIN | MEMBER | VIEWER

datatype api_error =
    NotFoundException
  | BadRequestException
  | ForbiddenException
  | InternalServerError

text \<open>
  \<open>findFirst\<close> over the project's \<open>QUEUED\<close> and \<open>RUNNING\<close> runs, newest first: the
  first of the runs with the greatest \<open>createdAt\<close>.
\<close>

definition latestActiveRun :: "string \<Rightarrow> DB \<Rightarrow> CrawlRun option" where
  "latestActiveRun projectId db =
     (case filter (\<lambda>r. run_projectId r = projectId
                        \<and> (run_status r = QUEUED \<or> run_status r = RUNNING)) (crawlRuns db) of
        [] \<Rightarrow> None
      | r # rs \<Rightarrow> Some (fold (\<lambda>x best. if run_createdAt x > run_createdAt best then x else best) rs r))"

text \<open>
  \<open>cancel\<close> of the crawl service, cut at the await between the read of the run and the
  write: a step of the worker can come in between. \<open>cancel_read\<close> is the call up to the
  check that the run can be cancelled; it gives the row the call goes on with, or the
  exception thrown. \<open>access\<close> is what \<open>getProjectWithAccess\<close> gives: the caller's role in
  the project's organization, or the exception it throws. \<open>cancel_write\<close> is the
  \<open>update\<close> that ends the call, by the id of the row read; \<open>now\<close> is the clock. Removing
  the job of a \<open>QUEUED\<close> run from the queue leaves the store alone. \<open>cancel\<close> is a call
  with nothing in between.
\<close>

definition lookupForCancel :: "string \<Rightarrow> string option \<Rightarrow> DB \<Rightarrow> api_error + CrawlRun" where
  "lookupForCancel projectId crawlRunId db =
     (if truthy crawlRunId then
        (case findRun (the crawlRunId) db of
           None \<Rightarrow> Inl NotFoundException
         | Some crawlRun \<Rightarrow>
             if run_projectId crawlRun \<noteq> projectId then Inl BadRequestException
             else Inr crawlRun)
      else
        (case latestActiveRun projectId db of
           None \<Rightarrow> Inl NotFoundException
         | Some crawlRun \<Rightarrow> Inr crawlRun))"

definition cancel_read :: "api_error + OrgRole \<Rightarrow> string \<Rightarrow> string option \<Rightarrow> DB \<Rightarrow> api_error + CrawlRun" where
  "cancel_read access projectId crawlRunId db =
     (case access of
        Inl e \<Rightarrow> Inl e
      | Inr role \<Rightarrow>
          if role = VIEWER then Inl ForbiddenException
          else
            (case lookupForCancel projectId crawlRunId db of
               Inl e \<Rightarrow> Inl e
             | Inr crawlRun \<Rightarrow>
                 if run_status crawlRun = DONE \<or> run_status crawlRun = FAILED
                    \<or> run_status crawlRun = CANCELED
                 then Inl BadRequestException
                 else Inr crawlRun))"

definition cancel_write :: "CrawlRun \<Rightarrow> nat \<Rightarrow> DB \<Rightarrow> api_error + DB" where
  "cancel_write crawlRun now db =
     (case crawlRun_update (run_id crawlRun)
             (\<lambda>r. r\<lparr>run_status := CANCELED, run_finishedAt := Some now\<rparr>) db of
        Inl e \<Rightarrow> Inl InternalServerError
      | Inr db' \<Rightarrow> Inr db')"

definition cancel :: "api_error + OrgRole \<Rightarrow> string \<Rightarrow> string option \<Rightarrow> nat \<Rightarrow> DB \<Rightarrow> api_error + DB" where
  "cancel access projectId crawlRunId now db =
     (case cancel_read access projectId crawlRunId db of
        Inl e \<Rightarrow> Inl e
      | Inr crawlRun \<Rightarrow> cancel_write crawlRun now db)"

text \<open>
  \<open>processJob\<close> is cut at its awaits, where a \<open>cancel\<close> of the API can come in between.
  Each point names the statement the worker executes next; \<open>AtRunningUpdate\<close> remembers
  the status that \<open>findUnique\<close> returned, \<open>AtFailedUpdate\<close> the message of the exception.
\<close>

datatype job_pc =
    AtFindUnique
  | AtRunningUpdate CrawlRunStatus
  | AtRunCrawl
  | AtRecheck
  | AtDoneUpdate
  | AtFailedUpdate string

datatype worker = Idle | At job_pc

fun error_message :: "db_error \<Rightarrow> string" where
  "error_message (Thrown msg) = msg"
| "error_message RecordNotFound = ''Record to update not found.''"
| "error_message UniqueConstraint = ''Unique constraint failed''"

text \<open>
  One step of \<open>processJob\<close> for the job \<open>(crawlRunId, projectId)\<close>.
  \<open>AtFindUnique\<close>: load the run, throw when it is missing.
  \<open>AtRunningUpdate st\<close>: return when the loaded status is \<open>CANCELED\<close>, otherwise write
  \<open>RUNNING\<close> and \<open>startedAt\<close>; an exception here is outside the \<open>try\<close>.
  \<open>AtRunCrawl\<close>: \<open>runCrawl\<close>, which returns or throws.
  \<open>AtRecheck\<close>: load the run again and return when it is \<open>CANCELED\<close>.
  \<open>AtDoneUpdate\<close>: write \<open>DONE\<close> and \<open>finishedAt\<close>.
  \<open>AtFailedUpdate\<close>: the \<open>catch\<close> block writes \<open>FAILED\<close>, \<open>finishedAt\<close> and the message,
  and rethrows.
  \<open>runCrawl\<close> is taken as one step: it writes no status and reads none from the store
  (what its polls find is the environment's), and \<open>cancel\<close> writes \<open>status\<close> and
  \<open>finishedAt\<close> only, so a call in the midst of it acts as one before or after it.
\<close>

fun processJob_step ::
  "crawl_env \<Rightarrow> nat \<Rightarrow> string \<Rightarrow> string \<Rightarrow> job_pc \<Rightarrow> DB \<Rightarrow> DB \<times> worker"
where
  "processJob_step env now projectId crawlRunId AtFindUnique db =
     (case findRun crawlRunId db of
        None \<Rightarrow> (db, Idle)
      | Some crawlRun \<Rightarrow> (db, At (AtRunningUpdate (run_status crawlRun))))"
| "processJob_step env now projectId crawlRunId (AtRunningUpdate st) db =
     (if st = CANCELED then (db, Idle)
      else
        (case crawlRun_update crawlRunId
                (\<lambda>r. r\<lparr>run_status := RUNNING, run_startedAt := Some now\<rparr>) db of
           Inl e \<Rightarrow> (db, Idle)
         | Inr db' \<Rightarrow> (db', At AtRunCrawl)))"
| "processJob_step env now projectId crawlRunId AtRunCrawl db =
     (case runCrawl env projectId crawlRunId db of
        Inl (e, db') \<Rightarrow> (db', At (AtFailedUpdate (error_message e)))
      | Inr db' \<Rightarrow> (db', At AtRecheck))"
| "processJob_step env now projectId crawlRunId AtRecheck db =
     (case findRun crawlRunId db of
        None \<Rightarrow> (db, At AtDoneUpdate)
      | Some updatedCrawlRun \<Rightarrow>
          if run_status updatedCrawlRun = CANCELED then (db, Idle) else (db, At AtDoneUpdate))"
| "processJob_step env now projectId crawlRunId AtDoneUpdate db =
     (case crawlRun_update crawlRunId
             (\<lambda>r. r\<lparr>run_status := DONE, run_finishedAt := Some now\<rparr>) db of
        Inl e \<Rightarrow> (db, At (AtFailedUpdate (error_message e)))
      | Inr db' \<Rightarrow> (db', Idle))"
| "processJob_step env now projectId crawlRunId (AtFailedUpdate errorMessage) db =
     (case crawlRun_update crawlRunId
             (\<lambda>r. r\<lparr>run_status := FAILED, run_finishedAt := Some now,
                     run_totalsJson := JObj [(''lastErrorMessage'', JStr errorMessage)]\<rparr>) db of
        Inl e \<Rightarrow> (db, Idle)
      | Inr db' \<Rightarrow> (db', Idle))"

text \<open>
  The data of a job on the queue. The job's id is the run's id, so that one run has at
  most one job, which the queue may deliver again after a failure (it is configured with
  three attempts).
\<close>

record CrawlJobData =
  job_crawlRunId :: string
  job_projectId :: string

text \<open>
  What can happen: the queue delivers a job to a worker (a first delivery or a
  re-delivery; nothing happens while the job is being worked on), the worker of a job
  takes a step in some environment, a \<open>cancel\<close> call of the API reads its run, or one of
  the calls that have read their run writes. \<open>active\<close> holds the jobs being worked on,
  each with the statement its worker executes next; \<open>cancels\<close> holds the calls between
  their read and their write, each with the row it has read.
\<close>

datatype event =
    Deliver CrawlJobData
  | Work CrawlJobData crawl_env nat
  | CancelRead "api_error + OrgRole" string "string option"
  | CancelWrite nat nat

record lifecycle =
  store :: DB
  active :: "(CrawlJobData \<times> job_pc) list"
  cancels :: "CrawlRun list"

definition workerOf :: "lifecycle \<Rightarrow> CrawlJobData \<Rightarrow> worker" where
  "workerOf s job = (case map_of (active s) job of None \<Rightarrow> Idle | Some pc \<Rightarrow> At pc)"

definition setWorker :: "CrawlJobData \<Rightarrow> worker \<Rightarrow> lifecycle \<Rightarrow> lifecycle" where
  "setWorker job w s =
     s\<lparr>active := (case w of Idle \<Rightarrow> [] | At pc \<Rightarrow> [(job, pc)])
                   @ filter (\<lambda>e. fst e \<noteq> job) (active s)\<rparr>"

fun fire :: "event \<Rightarrow> lifecycle \<Rightarrow> lifecycle" where
  "fire (Deliver job) s =
     (case workerOf s job of Idle \<Rightarrow> setWorker job (At AtFindUnique) s | At pc \<Rightarrow> s)"
| "fire (Work job env now) s =
     (case workerOf s job of
        Idle \<Rightarrow> s
      | At pc \<Rightarrow>
          (let r = processJob_step env now (job_projectId job) (job_crawlRunId job) pc (store s)
           in setWorker job (snd r) (s\<lparr>store := fst r\<rparr>)))"
| "fire (CancelRead access pid rid) s =
     (case cancel_read access pid rid (store s) of
        Inl e \<Rightarrow> s
      | Inr crawlRun \<Rightarrow> s\<lparr>cancels := cancels s @ [crawlRun]\<rparr>)"
| "fire (CancelWrite k now) s =
     (if k < length (cancels s) then
        (let others = take k (cancels s) @ drop (Suc k) (cancels s)
         in case cancel_write (cancels s ! k) now (store s) of
              Inl e \<Rightarrow> s\<lparr>cancels := others\<rparr>
            | Inr db' \<Rightarrow> s\<lparr>store := db', cancels := others\<rparr>)
      else s)"

definition exec :: "event list \<Rightarrow> lifecycle \<Rightarrow> lifecycle" where
  "exec es s = fold fire es s"

fun delivers :: "string \<Rightarrow> event \<Rightarrow> bool" where
  "delivers crawlRunId (Deliver job) = (job_crawlRunId job = crawlRunId)"
| "delivers crawlRunId e = False"

definition terminal :: "CrawlRunStatus \<Rightarrow> bool" where
  "terminal st \<longleftrightarrow> st = DONE \<or> st = FAILED \<or> st = CANCELED"

definition statusOf :: "string \<Rightarrow> DB \<Rightarrow> CrawlRunStatus option" where
  "statusOf crawlRunId db = map_option run_status (findRun crawlRunId db)"

text \<open>Run ids are a primary key.\<close>

definition runIdsUnique :: "DB \<Rightarrow> bool" where
  "runIdsUnique db \<longleftrightarrow> distinct (map run_id (crawlRuns db))"

text \<open>
  A run is at rest in a terminal status when no job of it is being worked on and no
  \<open>cancel\<close> call that has read it is still to write. A \<open>CANCELED\<close> run is at rest also
  while the worker of its job has only loaded it, and whatever calls are still to write.
\<close>

definition noJobOf :: "string \<Rightarrow> lifecycle \<Rightarrow> bool" where
  "noJobOf crawlRunId s \<longleftrightarrow> list_all (\<lambda>e. job_crawlRunId (fst e) \<noteq> crawlRunId) (active s)"

definition noCancelOf :: "string \<Rightarrow> lifecycle \<Rightarrow> bool" where
  "noCancelOf crawlRunId s \<longleftrightarrow> list_all (\<lambda>c. run_id c \<noteq> crawlRunId) (cancels s)"

definition terminal_idle :: "string \<Rightarrow> CrawlRunStatus \<Rightarrow> lifecycle \<Rightarrow> bool" where
  "terminal_idle crawlRunId st s \<longleftrightarrow>
     runIdsUnique (store s) \<and> terminal st
     \<and> statusOf crawlRunId (store s) = Some st
     \<and> noJobOf crawlRunId s \<and> noCancelOf crawlRunId s"

definition canceled_at_rest :: "string \<Rightarrow> lifecycle \<Rightarrow> bool" where
  "canceled_at_rest crawlRunId s \<longleftrightarrow>
     runIdsUnique (store s)
     \<and> statusOf crawlRunId (store s) = Some CANCELED
     \<and> list_all (\<lambda>e. job_crawlRunId (fst e) \<noteq> crawlRunId
                      \<or> snd e = AtFindUnique \<or> snd e = AtRunningUpdate CANCELED) (active s)"

section \<open>Worked data\<close>

text \<open>
  A run with two pages, the second answering 404, and three internal links: one to the
  404 page, one to the start page, one to a URL that was never fetched.
\<close>

definition mkPage :: "string \<Rightarrow> string \<Rightarrow> string \<Rightarrow> int option \<Rightarrow> Page" where
  "mkPage pid rid u sc =
     \<lparr>page_id = pid, page_crawlRunId = rid, page_url = u, page_normalizedUrl = u,
      page_statusCode = sc, page_contentType = Some ''text/html'', page_title = None,
      page_metaDescription = None, page_h1Count = None, page_canonical = None,
      page_robotsMeta = None, page_wordCount = None, page_templateSignatureHash = None,
      page_templateSignatureJson = None\<rparr>"

definition mkLink :: "string \<Rightarrow> string \<Rightarrow> string \<Rightarrow> LinkType \<Rightarrow> Link" where
  "mkLink lid rid u ty =
     \<lparr>link_id = lid, link_crawlRunId = rid, link_fromPageId = None, link_toUrl = u,
      link_toNormalizedUrl = u, link_linkType = ty, link_isBroken = False,
      link_statusCode = None\<rparr>"

definition proj1 :: Project where
  "proj1 = \<lparr>project_id = ''proj1'', project_startUrl = ''https://a.test/'',
            project_domain = ''a.test'', project_settingsJson = JObj []\<rparr>"

definition run1 :: CrawlRun where
  "run1 = \<lparr>run_id = ''run1'', run_projectId = ''proj1'', run_status = RUNNING,
           run_startedAt = Some 10, run_finishedAt = None,
           run_totalsJson = JObj [(''pagesCount'', JNum 2), (''issueCountTotal'', JNum 7)],
           run_createdAt = 5\<rparr>"

definition brokenLinkDB :: DB where
  "brokenLinkDB =
     \<lparr>projects = [proj1],
      crawlRuns = [run1],
      pages = [mkPage ''p1'' ''run1'' ''https://a.test/'' (Some 200),
               mkPage ''p2'' ''run1'' ''https://a.test/missing'' (Some 404)],
      links = [mkLink ''l1'' ''run1'' ''https://a.test/missing'' INTERNAL,
               mkLink ''l2'' ''run1'' ''https://a.test/'' INTERNAL,
               mkLink ''l3'' ''run1'' ''https://a.test/later'' INTERNAL],
      issues = [],
      templates = []\<rparr>"

text \<open>A run whose only page has no status code (its \<open>statusCode\<close> column is null).\<close>

definition nullStatusDB :: DB where
  "nullStatusDB =
     \<lparr>projects = [proj1],
      crawlRuns = [run1],
      pages = [mkPage ''p1'' ''run1'' ''https://a.test/'' None],
      links = [],
      issues = [],
      templates = []\<rparr>"

section \<open>Specification predicates\<close>

text \<open>
  Link \<open>l\<close> has a broken target with status \<open>s\<close>: some page of the run has the link's
  normalized target URL and status \<open>s \<ge> 400\<close>.
\<close>

definition brokenTarget :: "string \<Rightarrow> Page list \<Rightarrow> Link \<Rightarrow> int \<Rightarrow> bool" where
  "brokenTarget crawlRunId ps l s \<longleftrightarrow>
     (\<exists>p \<in> set ps. page_crawlRunId p = crawlRunId
        \<and> page_normalizedUrl p = link_toNormalizedUrl l
        \<and> page_statusCode p = Some s \<and> s \<ge> 400)"

text \<open>
  Auxiliary notions for the proofs about the post-processor: the links the second loop
  selects, the net effect of a list of updates on one row, the pages of a run, and the
  update list the post-processor builds.
\<close>

definition isBrokenLink :: "(string \<rightharpoonup> int) \<Rightarrow> Link \<Rightarrow> bool" where
  "isBrokenLink m l \<longleftrightarrow> (case m (link_toNormalizedUrl l) of None \<Rightarrow> False | Some s \<Rightarrow> s \<ge> 400)"

definition applyTo :: "(string \<times> int) list \<Rightarrow> Link \<Rightarrow> Link" where
  "applyTo ups l = fold (\<lambda>u l. if link_id l = fst u then markBroken (snd u) l else l) ups l"

definition runPagesOf :: "string \<Rightarrow> DB \<Rightarrow> Page list" where
  "runPagesOf crawlRunId db = filter (\<lambda>p. page_crawlRunId p = crawlRunId) (pages db)"

definition brokenUpdatesOf :: "string \<Rightarrow> DB \<Rightarrow> (string \<times> int) list" where
  "brokenUpdatesOf crawlRunId db =
     fst (scanLinks (fst (scanPages (runPagesOf crawlRunId db)))
       (filter (\<lambda>l. link_crawlRunId l = crawlRunId \<and> link_linkType l = INTERNAL) (links db)))"

text \<open>The status column of every run, by run id.\<close>

definition statuses :: "DB \<Rightarrow> (string \<times> CrawlRunStatus) list" where
  "statuses db = map (\<lambda>r. (run_id r, run_status r)) (crawlRuns db)"

text \<open>
  The invariant of the crawl loop: \<open>visited\<close> holds no URL twice and
  \<open>pagesProcessed\<close> counts it; the pages of the run are for pairwise different URLs, each
  of them visited and fetched without error.
\<close>

definition crawlInv :: "crawl_env \<Rightarrow> string \<Rightarrow> crawl_state \<Rightarrow> bool" where
  "crawlInv env crawlRunId st \<longleftrightarrow>
     distinct (visited st)
     \<and> pagesProcessed st = length (visited st)
     \<and> distinct (map page_normalizedUrl (runPagesOf crawlRunId (cs_db st)))
     \<and> list_all (\<lambda>p. page_normalizedUrl p \<in> set (visited st)
                      \<and> \<not> truthy (pr_error (env_fetchAndParsePage env (page_normalizedUrl p))))
          (runPagesOf crawlRunId (cs_db st))"

text \<open>
  The top of an iteration: the bookkeeping of the cancellation check, and whether the
  check finds the run cancelled.
\<close>

definition ticked :: "crawl_state \<Rightarrow> crawl_state" where
  "ticked st =
     (if cancelCheckCounter st + 1 \<ge> CANCEL_CHECK_INTERVAL
      then st\<lparr>cancelCheckCounter := 0, polls := polls st + 1\<rparr>
      else st\<lparr>cancelCheckCounter := cancelCheckCounter st + 1\<rparr>)"

definition canceledNow :: "crawl_env \<Rightarrow> crawl_state \<Rightarrow> bool" where
  "canceledNow env st \<longleftrightarrow>
     cancelCheckCounter st + 1 \<ge> CANCEL_CHECK_INTERVAL \<and> env_isCrawlCanceled env (polls st)"

text \<open>
  The URL under which a queue item is processed, if it is processed: its depth is within
  the limit and its URL normalizes to one that is not visited yet.
\<close>

definition admitted :: "crawl_env \<Rightarrow> CrawlSettings \<Rightarrow> string list \<Rightarrow> string \<times> nat \<Rightarrow> string option" where
  "admitted env settings vis item =
     (if int (snd item) > maxDepth settings then None
      else (case normalizeWith env settings (fst item) of
              None \<Rightarrow> None
            | Some n \<Rightarrow> if n \<in> set vis then None else Some n))"

text \<open>
  The links of the page at \<open>n\<close> that qualify for the frontier: those that resolve and
  normalize, are internal, and are not among the visited URLs \<open>vis\<close>.
\<close>

definition discovered :: "crawl_env \<Rightarrow> CrawlSettings \<Rightarrow> string \<Rightarrow> string \<Rightarrow> string list \<Rightarrow> string list" where
  "discovered env settings baseDomain n vis =
     filter (\<lambda>nl. isInternalUrl nl baseDomain (includeSubdomains settings) \<and> nl \<notin> set vis)
       (concat (map (\<lambda>link. case resolveAndNormalize env settings link n of
                               None \<Rightarrow> [] | Some nl \<Rightarrow> [nl])
                  (pr_links (env_fetchAndParsePage env n))))"

subsection \<open>Worked crawls\<close>

text \<open>
  A site whose pages carry absolute links only: resolving such a link does not consult
  the base. The site never cancels and has no template signatures.
\<close>

definition resolveAbsolute :: "string \<Rightarrow> string \<Rightarrow> string option" where
  "resolveAbsolute link baseUrl = map_option href (parseURL link)"

definition siteEnv :: "(string \<Rightarrow> PageResult) \<Rightarrow> crawl_env" where
  "siteEnv fetch =
     \<lparr>env_fetchAndParsePage = fetch, env_resolve = resolveAbsolute,
      env_computeTemplateSignature = (\<lambda>html. None),
      env_localeCompare = codeUnitCompare, env_isCrawlCanceled = (\<lambda>n. False)\<rparr>"

text \<open>A fetcher for which every request fails, and one whose start page links twice to \<open>/x\<close>.\<close>

definition failingFetch :: "string \<Rightarrow> PageResult" where
  "failingFetch url = (fetchAndParsePage url)\<lparr>pr_statusCode := None, pr_error := Some ''ECONNREFUSED''\<rparr>"

definition twoLinksFetch :: "string \<Rightarrow> PageResult" where
  "twoLinksFetch url =
     (fetchAndParsePage url)
       \<lparr>pr_links := (if url = ''https://a.test/''
                      then [''https://a.test/x'', ''https://a.test/x''] else [])\<rparr>"

text \<open>The data of \<open>brokenLinkDB\<close> with one template row of the run added.\<close>

definition templateDB :: DB where
  "templateDB =
     brokenLinkDB\<lparr>templates :=
       [\<lparr>template_id = ''t1'', template_crawlRunId = ''run1'',
         template_signatureHash = ''abc'', template_pageCount = 2\<rparr>]\<rparr>"

text \<open>
  The store of \<open>brokenLinkDB\<close> with its run in a given status and a second, newer run of
  the same project, still queued; and the jobs of the two runs.
\<close>

definition run2 :: CrawlRun where
  "run2 = \<lparr>run_id = ''run2'', run_projectId = ''proj1'', run_status = QUEUED,
           run_startedAt = None, run_finishedAt = None, run_totalsJson = JObj [],
           run_createdAt = 20\<rparr>"

definition twoRuns :: "CrawlRunStatus \<Rightarrow> DB" where
  "twoRuns st = brokenLinkDB\<lparr>crawlRuns := [run1\<lparr>run_status := st\<rparr>, run2]\<rparr>"

definition job1 :: CrawlJobData where
  "job1 = \<lparr>job_crawlRunId = ''run1'', job_projectId = ''proj1''\<rparr>"

definition job2 :: CrawlJobData where
  "job2 = \<lparr>job_crawlRunId = ''run2'', job_projectId = ''proj1''\<rparr>"

text \<open>
  A store with nothing in flight. The second run is crawled on the placeholder site and
  cancelled by a call for the project's latest active run, which reads while the run is
  \<open>RUNNING\<close> and writes after the crawl.
\<close>

definition atRest :: "DB \<Rightarrow> lifecycle" where
  "atRest db = \<lparr>store = db, active = [], cancels = []\<rparr>"

definition cancelDuringCrawl :: "event list" where
  "cancelDuringCrawl =
     [Deliver job2,
      Work job2 (siteEnv fetchAndParsePage) 31,
      Work job2 (siteEnv fetchAndParsePage) 32,
      CancelRead (Inr ADMIN) ''proj1'' None,
      Work job2 (siteEnv fetchAndParsePage) 33,
      CancelWrite 0 34,
      Work job2 (siteEnv fetchAndParsePage) 35]"

text \<open>The job of the first run is delivered and its worker takes two steps.\<close>

definition redelivery :: "event list" where
  "redelivery =
     [Deliver job1,
      Work job1 (siteEnv fetchAndParsePage) 31,
      Work job1 (siteEnv fetchAndParsePage) 32]"

section \<open>The post-processor: broken links and totals\<close>

lemma fold_countPage_map:
  "distinct (map page_normalizedUrl ps) \<Longrightarrow>
   fst (fold countPage ps acc) u =
     (case find (\<lambda>p. page_normalizedUrl p = u) ps of
        None \<Rightarrow> fst acc u
      | Some p \<Rightarrow> (case page_statusCode p of None \<Rightarrow> fst acc u | Some s \<Rightarrow> Some s))"
proof (induction ps arbitrary: acc)
  case Nil
  then show ?case by simp
next
  case (Cons p ps)
  show ?case
  proof (cases "page_normalizedUrl p = u")
    case True
    from Cons.prems have "page_normalizedUrl p \<notin> page_normalizedUrl ` set ps"
      by simp
    with True have "find (\<lambda>q. page_normalizedUrl q = u) ps = None"
      unfolding find_None_iff by blast
    with True Cons show ?thesis
      by (simp add: countPage_def Let_def split: option.splits)
  next
    case False
    with Cons show ?thesis
      by (simp add: countPage_def Let_def split: option.splits)
  qed
qed

lemma scanPages_lookup:
  assumes "distinct (map page_normalizedUrl ps)"
  shows "fst (scanPages ps) u = Some s \<longleftrightarrow>
           (\<exists>p \<in> set ps. page_normalizedUrl p = u \<and> page_statusCode p = Some s)"
proof -
  have eq: "fst (scanPages ps) u =
      (case find (\<lambda>p. page_normalizedUrl p = u) ps of
         None \<Rightarrow> None | Some p \<Rightarrow> page_statusCode p)"
    using fold_countPage_map [OF assms, of "(Map.empty, [])" u]
    by (simp add: scanPages_def split: option.splits)
  show ?thesis
  proof
    assume "fst (scanPages ps) u = Some s"
    then obtain p where "find (\<lambda>p. page_normalizedUrl p = u) ps = Some p" "page_statusCode p = Some s"
      using eq by (auto split: option.splits)
    then show "\<exists>p \<in> set ps. page_normalizedUrl p = u \<and> page_statusCode p = Some s"
      by (auto simp: find_Some_iff)
  next
    assume "\<exists>p \<in> set ps. page_normalizedUrl p = u \<and> page_statusCode p = Some s"
    then obtain p where p: "p \<in> set ps" "page_normalizedUrl p = u" "page_statusCode p = Some s"
      by blast
    then obtain q where q: "find (\<lambda>p. page_normalizedUrl p = u) ps = Some q"
      by (cases "find (\<lambda>p. page_normalizedUrl p = u) ps") (auto simp: find_None_iff)
    then have "q \<in> set ps" "page_normalizedUrl q = u"
      by (auto simp: find_Some_iff)
    with p assms have "q = p"
      by (metis distinct_map inj_onD)
    with q p eq show "fst (scanPages ps) u = Some s" by simp
  qed
qed

lemma fold_checkLink_fst:
  "fst (fold (checkLink m) ls acc) =
     fst acc @ map (\<lambda>l. (link_id l, the (m (link_toNormalizedUrl l)))) (filter (isBrokenLink m) ls)"
  by (induction ls arbitrary: acc) (auto simp: checkLink_def isBrokenLink_def split: option.splits)

lemma scanLinks_fst:
  "fst (scanLinks m ls) =
     map (\<lambda>l. (link_id l, the (m (link_toNormalizedUrl l)))) (filter (isBrokenLink m) ls)"
  by (simp add: scanLinks_def fold_checkLink_fst)

lemma link_updates_append:
  "link_updates (us @ vs) tbl =
     (case link_updates us tbl of Inl e \<Rightarrow> Inl e | Inr tbl' \<Rightarrow> link_updates vs tbl')"
  by (induction us arbitrary: tbl) (auto split: sum.splits)

lemma updateBatches_drop:
  "updateBatches i ups tbl = link_updates (drop i ups) tbl"
proof (induction i ups tbl rule: updateBatches.induct)
  case (1 i ups tbl)
  show ?case
  proof (cases "i < length ups")
    case False
    then show ?thesis by (simp add: updateBatches.simps)
  next
    case True
    have split: "drop i ups = take BATCH_SIZE (drop i ups) @ drop (i + BATCH_SIZE) ups"
      by (metis append_take_drop_id drop_drop add.commute)
    show ?thesis
    proof (cases "link_updates (take BATCH_SIZE (drop i ups)) tbl")
      case (Inl e)
      with True show ?thesis
        by (subst split, subst updateBatches.simps) (simp add: link_updates_append)
    next
      case (Inr tbl')
      with True "1.IH" [OF True Inr] show ?thesis
        by (subst split, subst updateBatches.simps) (simp add: link_updates_append)
    qed
  qed
qed

lemma link_id_markBroken [simp]: "link_id (markBroken s l) = link_id l"
  by (simp add: markBroken_def)

lemma link_updates_map:
  "fst ` set ups \<subseteq> link_id ` set tbl \<Longrightarrow> link_updates ups tbl = Inr (map (applyTo ups) tbl)"
proof (induction ups arbitrary: tbl)
  case Nil
  then show ?case by (simp add: applyTo_def)
next
  case (Cons u ups)
  let ?tbl' = "map (\<lambda>l. if link_id l = fst u then markBroken (snd u) l else l) tbl"
  have "map link_id ?tbl' = map link_id tbl"
    by (simp add: comp_def if_distrib [of link_id])
  then have ids: "link_id ` set ?tbl' = link_id ` set tbl"
    by (metis set_map)
  from Cons.prems have "link_update u tbl = Inr ?tbl'"
    by (simp add: link_update_def)
  moreover from Cons.prems ids have "link_updates ups ?tbl' = Inr (map (applyTo ups) ?tbl')"
    by (intro Cons.IH) simp
  ultimately show ?case
    by (simp add: applyTo_def comp_def)
qed

lemma applyTo_cases:
  "\<forall>u \<in> set ups. fst u = link_id l \<longrightarrow> snd u = s \<Longrightarrow>
   applyTo ups l = (if link_id l \<in> fst ` set ups then markBroken s l else l)"
proof (induction ups arbitrary: l)
  case Nil
  then show ?case by (simp add: applyTo_def)
next
  case (Cons u ups)
  show ?case
  proof (cases "fst u = link_id l")
    case True
    with Cons.prems have s: "snd u = s" by simp
    have "applyTo ups (markBroken s l) =
            (if link_id (markBroken s l) \<in> fst ` set ups then markBroken s (markBroken s l)
             else markBroken s l)"
      using Cons.prems by (intro Cons.IH) simp
    with True s show ?thesis
      by (simp add: applyTo_def markBroken_def)
  next
    case False
    have "applyTo ups l = (if link_id l \<in> fst ` set ups then markBroken s l else l)"
      using Cons.prems by (intro Cons.IH) simp
    with False show ?thesis
      by (auto simp: applyTo_def)
  qed
qed

lemma brokenUpdatesOf_ids: "fst ` set (brokenUpdatesOf rid db) \<subseteq> link_id ` set (links db)"
  by (auto simp: brokenUpdatesOf_def scanLinks_fst)

lemma postProcessCrawl_links:
  "\<exists>totals. postProcessCrawl rid db =
      Inr (totals, db\<lparr>links := map (applyTo (brokenUpdatesOf rid db)) (links db)\<rparr>)"
proof -
  have "updateBatches 0 (brokenUpdatesOf rid db) (links db) =
          Inr (map (applyTo (brokenUpdatesOf rid db)) (links db))"
    using link_updates_map [OF brokenUpdatesOf_ids] by (simp add: updateBatches_drop)
  then show ?thesis
    by (simp add: postProcessCrawl_def brokenUpdatesOf_def runPagesOf_def Let_def)
qed

lemma applyTo_resolved:
  assumes ids: "distinct (map link_id (links db))"
    and urls: "distinct (map page_normalizedUrl (runPagesOf rid db))"
    and l: "l \<in> set (links db)"
  shows "applyTo (brokenUpdatesOf rid db) l =
           (if link_crawlRunId l = rid \<and> link_linkType l = INTERNAL
               \<and> (\<exists>s. brokenTarget rid (pages db) l s)
            then markBroken (THE s. brokenTarget rid (pages db) l s) l else l)"
proof -
  let ?m = "fst (scanPages (runPagesOf rid db))"
  let ?int = "filter (\<lambda>l. link_crawlRunId l = rid \<and> link_linkType l = INTERNAL) (links db)"
  have bt: "brokenTarget rid (pages db) k s \<longleftrightarrow> (?m (link_toNormalizedUrl k) = Some s \<and> s \<ge> 400)" for k s
    unfolding scanPages_lookup [OF urls] by (auto simp: brokenTarget_def runPagesOf_def)
  have ups: "brokenUpdatesOf rid db =
      map (\<lambda>l. (link_id l, the (?m (link_toNormalizedUrl l)))) (filter (isBrokenLink ?m) ?int)"
    by (simp add: brokenUpdatesOf_def scanLinks_fst)
  have inj: "inj_on link_id (set (links db))"
    using ids by (simp add: distinct_map)
  have same: "snd u = the (?m (link_toNormalizedUrl l))"
    if "u \<in> set (brokenUpdatesOf rid db)" "fst u = link_id l" for u
  proof -
    from that obtain k where k: "k \<in> set (links db)" "u = (link_id k, the (?m (link_toNormalizedUrl k)))"
      unfolding ups by auto
    with that inj l have "k = l" by (auto dest: inj_onD)
    with k show ?thesis by simp
  qed
  have mem: "link_id l \<in> fst ` set (brokenUpdatesOf rid db) \<longleftrightarrow>
      (link_crawlRunId l = rid \<and> link_linkType l = INTERNAL \<and> isBrokenLink ?m l)"
  proof
    assume "link_id l \<in> fst ` set (brokenUpdatesOf rid db)"
    then obtain k where k: "k \<in> set ?int" "isBrokenLink ?m k" "link_id k = link_id l"
      unfolding ups by auto
    with inj l have "k = l" by (auto dest: inj_onD)
    with k show "link_crawlRunId l = rid \<and> link_linkType l = INTERNAL \<and> isBrokenLink ?m l"
      by simp
  next
    assume "link_crawlRunId l = rid \<and> link_linkType l = INTERNAL \<and> isBrokenLink ?m l"
    with l show "link_id l \<in> fst ` set (brokenUpdatesOf rid db)"
      unfolding ups by (force simp: image_iff)
  qed
  have ib: "isBrokenLink ?m l \<longleftrightarrow> (\<exists>s. brokenTarget rid (pages db) l s)"
    by (auto simp: bt isBrokenLink_def split: option.splits)
  have the_eq: "(THE s. brokenTarget rid (pages db) l s) = the (?m (link_toNormalizedUrl l))"
    if "isBrokenLink ?m l"
    using that by (auto simp: bt isBrokenLink_def split: option.splits)
  have "applyTo (brokenUpdatesOf rid db) l =
      (if link_id l \<in> fst ` set (brokenUpdatesOf rid db)
       then markBroken (the (?m (link_toNormalizedUrl l))) l else l)"
    using same by (intro applyTo_cases) blast
  then show ?thesis
    using mem ib the_eq by auto
qed

lemma brokenTarget_unique:
  assumes "distinct (map page_normalizedUrl (runPagesOf rid db))"
    and "brokenTarget rid (pages db) l s" "brokenTarget rid (pages db) l t"
  shows "s = t"
proof -
  from assms(2) obtain p where p: "p \<in> set (runPagesOf rid db)"
      "page_normalizedUrl p = link_toNormalizedUrl l" "page_statusCode p = Some s"
    by (auto simp: brokenTarget_def runPagesOf_def)
  from assms(3) obtain q where q: "q \<in> set (runPagesOf rid db)"
      "page_normalizedUrl q = link_toNormalizedUrl l" "page_statusCode q = Some t"
    by (auto simp: brokenTarget_def runPagesOf_def)
  from assms(1) p q have "p = q"
    by (metis distinct_map inj_onD)
  with p q show ?thesis by simp
qed

text \<open>
  Claim C1. Link ids are a primary key and \<open>(crawlRunId, normalizedUrl)\<close> is a unique
  index of \<open>Page\<close>. For an internal link of the run that is still as it was inserted
  (\<open>isBroken = false\<close>, \<open>statusCode = null\<close>), post-processing completes and afterwards the
  row has \<open>isBroken = true\<close> and \<open>statusCode = s\<close> exactly when some page of the run has the
  link's \<open>toNormalizedUrl\<close> and status \<open>s \<ge> 400\<close>; when there is no such page (in
  particular when no page with a known status has that URL) the row keeps
  \<open>isBroken = false\<close> and \<open>statusCode = null\<close>.
\<close>

theorem broken_links_resolved:
  assumes ids: "distinct (map link_id (links db))"
    and urls: "distinct (map page_normalizedUrl (runPagesOf rid db))"
    and i: "i < length (links db)"
    and run: "link_crawlRunId (links db ! i) = rid"
    and internal: "link_linkType (links db ! i) = INTERNAL"
    and fresh: "\<not> link_isBroken (links db ! i)" "link_statusCode (links db ! i) = None"
  shows "\<exists>totals db'. postProcessCrawl rid db = Inr (totals, db')
           \<and> pages db' = pages db
           \<and> length (links db') = length (links db)
           \<and> link_id (links db' ! i) = link_id (links db ! i)
           \<and> (\<forall>s. (link_isBroken (links db' ! i) \<and> link_statusCode (links db' ! i) = Some s)
                    = brokenTarget rid (pages db) (links db ! i) s)
           \<and> ((\<forall>s. \<not> brokenTarget rid (pages db) (links db ! i) s)
                 \<longrightarrow> \<not> link_isBroken (links db' ! i) \<and> link_statusCode (links db' ! i) = None)"
proof -
  let ?l = "links db ! i"
  let ?l' = "applyTo (brokenUpdatesOf rid db) ?l"
  from i have mem: "?l \<in> set (links db)" by simp
  obtain totals where pp: "postProcessCrawl rid db =
      Inr (totals, db\<lparr>links := map (applyTo (brokenUpdatesOf rid db)) (links db)\<rparr>)"
    using postProcessCrawl_links by blast
  have l': "?l' = (if \<exists>s. brokenTarget rid (pages db) ?l s
                   then markBroken (THE s. brokenTarget rid (pages db) ?l s) ?l else ?l)"
    using applyTo_resolved [OF ids urls mem] run internal by simp
  have char: "(link_isBroken ?l' \<and> link_statusCode ?l' = Some s) = brokenTarget rid (pages db) ?l s" for s
  proof (cases "\<exists>t. brokenTarget rid (pages db) ?l t")
    case False
    with l' fresh show ?thesis by simp
  next
    case True
    then obtain t where t: "brokenTarget rid (pages db) ?l t" by blast
    then have "(THE s. brokenTarget rid (pages db) ?l s) = t"
      using brokenTarget_unique [OF urls] by blast
    with True l' have "?l' = markBroken t ?l" by simp
    then have lhs: "(link_isBroken ?l' \<and> link_statusCode ?l' = Some s) = (t = s)"
      by (simp add: markBroken_def)
    have "brokenTarget rid (pages db) ?l s = (t = s)"
      using t brokenTarget_unique [OF urls] by blast
    with lhs show ?thesis by simp
  qed
  have none: "(\<forall>s. \<not> brokenTarget rid (pages db) ?l s)
                 \<longrightarrow> \<not> link_isBroken ?l' \<and> link_statusCode ?l' = None"
    using l' fresh by simp
  have id: "link_id ?l' = link_id ?l"
    using l' by simp
  let ?db' = "db\<lparr>links := map (applyTo (brokenUpdatesOf rid db)) (links db)\<rparr>"
  have nth: "links ?db' ! i = ?l'"
    using i by simp
  have "postProcessCrawl rid db = Inr (totals, ?db')
           \<and> pages ?db' = pages db
           \<and> length (links ?db') = length (links db)
           \<and> link_id (links ?db' ! i) = link_id (links db ! i)
           \<and> (\<forall>s. (link_isBroken (links ?db' ! i) \<and> link_statusCode (links ?db' ! i) = Some s)
                    = brokenTarget rid (pages db) (links db ! i) s)
           \<and> ((\<forall>s. \<not> brokenTarget rid (pages db) (links db ! i) s)
                 \<longrightarrow> \<not> link_isBroken (links ?db' ! i) \<and> link_statusCode (links ?db' ! i) = None)"
    unfolding nth using pp char none id by simp
  then show ?thesis by blast
qed

lemmas brokenLinkDB_defs = brokenLinkDB_def mkPage_def mkLink_def runPagesOf_def brokenTarget_def

text \<open>
  The theorem at the first link of \<open>brokenLinkDB\<close>, whose target answered 404.
\<close>

theorem broken_links_resolved_witness:
  "distinct (map link_id (links brokenLinkDB))
   \<and> distinct (map page_normalizedUrl (runPagesOf ''run1'' brokenLinkDB))
   \<and> (0::nat) < length (links brokenLinkDB)
   \<and> link_crawlRunId (links brokenLinkDB ! 0) = ''run1''
   \<and> link_linkType (links brokenLinkDB ! 0) = INTERNAL
   \<and> \<not> link_isBroken (links brokenLinkDB ! 0)
   \<and> link_statusCode (links brokenLinkDB ! 0) = None
   \<and> brokenTarget ''run1'' (pages brokenLinkDB) (links brokenLinkDB ! 0) 404
   \<and> (\<exists>totals db'. postProcessCrawl ''run1'' brokenLinkDB = Inr (totals, db')
         \<and> link_isBroken (links db' ! 0) \<and> link_statusCode (links db' ! 0) = Some 404)"
proof -
  have h1: "distinct (map link_id (links brokenLinkDB))"
    by (simp add: brokenLinkDB_defs)
  have h2: "distinct (map page_normalizedUrl (runPagesOf ''run1'' brokenLinkDB))"
    by (simp add: brokenLinkDB_defs)
  have h3: "(0::nat) < length (links brokenLinkDB)"
    by (simp add: brokenLinkDB_defs)
  have h4: "link_crawlRunId (links brokenLinkDB ! 0) = ''run1''"
    by (simp add: brokenLinkDB_defs)
  have h5: "link_linkType (links brokenLinkDB ! 0) = INTERNAL"
    by (simp add: brokenLinkDB_defs)
  have h6: "\<not> link_isBroken (links brokenLinkDB ! 0)"
    by (simp add: brokenLinkDB_defs)
  have h7: "link_statusCode (links brokenLinkDB ! 0) = None"
    by (simp add: brokenLinkDB_defs)
  have bt: "brokenTarget ''run1'' (pages brokenLinkDB) (links brokenLinkDB ! 0) 404"
    by (simp add: brokenLinkDB_defs)
  from broken_links_resolved [OF h1 h2 h3 h4 h5 h6 h7]
  obtain totals db' where r: "postProcessCrawl ''run1'' brokenLinkDB = Inr (totals, db')"
    and c: "\<forall>s. (link_isBroken (links db' ! 0) \<and> link_statusCode (links db' ! 0) = Some s)
               = brokenTarget ''run1'' (pages brokenLinkDB) (links brokenLinkDB ! 0) s"
    by blast
  from c bt have "link_isBroken (links db' ! 0) \<and> link_statusCode (links db' ! 0) = Some 404"
    by simp
  with r have "\<exists>totals db'. postProcessCrawl ''run1'' brokenLinkDB = Inr (totals, db')
         \<and> link_isBroken (links db' ! 0) \<and> link_statusCode (links db' ! 0) = Some 404"
    by blast
  with h1 h2 h3 h4 h5 h6 h7 bt show ?thesis by simp
qed

subsection \<open>Status code distribution\<close>

lemma sum_update_aux:
  "sum_list (map snd (AList.update k v al)) + (case map_of al k of None \<Rightarrow> 0 | Some c \<Rightarrow> c)
     = sum_list (map snd al) + (v::nat)"
  by (induction al) (auto split: option.splits)

lemma sum_update_incr:
  "sum_list (map snd (AList.update k ((case map_of al k of None \<Rightarrow> 0 | Some c \<Rightarrow> c) + 1) al))
     = sum_list (map snd al) + (1::nat)"
  using sum_update_aux [of k "(case map_of al k of None \<Rightarrow> 0 | Some c \<Rightarrow> c) + 1" al]
  by simp

lemma countPage_sum:
  "sum_list (map snd (snd (countPage p acc)))
     = sum_list (map snd (snd acc)) + (if page_statusCode p = None then 0 else 1)"
proof (cases "page_statusCode p")
  case None
  then show ?thesis by (simp add: countPage_def)
next
  case (Some sc)
  then show ?thesis
    using sum_update_incr [of "String_of sc" "snd acc"]
    by (simp add: countPage_def Let_def)
qed

lemma fold_countPage_sum:
  "sum_list (map snd (snd (fold countPage ps acc)))
     = sum_list (map snd (snd acc)) + length (filter (\<lambda>p. page_statusCode p \<noteq> None) ps)"
  by (induction ps arbitrary: acc) (simp_all add: countPage_sum)

lemma scanPages_sum:
  "sum_list (map snd (snd (scanPages ps))) = length (filter (\<lambda>p. page_statusCode p \<noteq> None) ps)"
  by (simp add: scanPages_def fold_countPage_sum)

lemma postProcessCrawl_totals:
  assumes "postProcessCrawl rid db = Inr (totals, db')"
  shows "pagesCount totals = length (runPagesOf rid db)"
    and "statusCodeDistribution totals = snd (scanPages (runPagesOf rid db))"
  using assms
  by (auto simp: postProcessCrawl_def runPagesOf_def Let_def split: sum.splits)

text \<open>
  Claim C9, as the code has it. Post-processing completes; \<open>pagesCount\<close> is the number of
  Page rows of the run; and the values of \<open>statusCodeDistribution\<close> sum to the number of the
  run's pages whose \<open>statusCode\<close> is not null, so that the sum plus the number of
  null-status pages is \<open>pagesCount\<close>.
\<close>

theorem statusCodeDistribution_sum:
  "\<exists>totals db'. postProcessCrawl rid db = Inr (totals, db')
     \<and> pagesCount totals = length (filter (\<lambda>p. page_crawlRunId p = rid) (pages db))
     \<and> sum_list (map snd (statusCodeDistribution totals))
         + length (filter (\<lambda>p. page_crawlRunId p = rid \<and> page_statusCode p = None) (pages db))
       = pagesCount totals"
proof -
  obtain totals db' where pp: "postProcessCrawl rid db = Inr (totals, db')"
    using postProcessCrawl_links by blast
  let ?ps = "runPagesOf rid db"
  have "length (filter (\<lambda>p. page_statusCode p \<noteq> None) ?ps)
          + length (filter (\<lambda>p. page_statusCode p = None) ?ps) = length ?ps"
    using sum_length_filter_compl [of "\<lambda>p. page_statusCode p \<noteq> None" ?ps] by simp
  moreover have "filter (\<lambda>p. page_statusCode p = None) ?ps
      = filter (\<lambda>p. page_crawlRunId p = rid \<and> page_statusCode p = None) (pages db)"
    by (simp add: runPagesOf_def conj_commute)
  ultimately have "sum_list (map snd (statusCodeDistribution totals))
         + length (filter (\<lambda>p. page_crawlRunId p = rid \<and> page_statusCode p = None) (pages db))
       = pagesCount totals"
    using postProcessCrawl_totals [OF pp] by (simp add: scanPages_sum)
  moreover have "pagesCount totals = length (filter (\<lambda>p. page_crawlRunId p = rid) (pages db))"
    using postProcessCrawl_totals(1) [OF pp] by (simp add: runPagesOf_def)
  ultimately show ?thesis using pp by blast
qed

lemmas postProcess_eval =
  postProcessCrawl_def scanPages_def scanLinks_def countPage_def checkLink_def
  updateBatches.simps Let_def

text \<open>
  Claim C9 as stated fails on a run whose only page has a null \<open>statusCode\<close>: the
  distribution is empty, and \<open>pagesCount\<close> is 1.
\<close>

theorem statusCodeDistribution_sum_counterexample:
  "\<not> isl (postProcessCrawl ''run1'' nullStatusDB)
   \<and> pagesCount (fst (projr (postProcessCrawl ''run1'' nullStatusDB))) = 1
   \<and> sum_list (map snd (statusCodeDistribution (fst (projr (postProcessCrawl ''run1'' nullStatusDB))))) = 0
   \<and> sum_list (map snd (statusCodeDistribution (fst (projr (postProcessCrawl ''run1'' nullStatusDB)))))
       \<noteq> pagesCount (fst (projr (postProcessCrawl ''run1'' nullStatusDB)))"
  by (simp add: postProcess_eval nullStatusDB_def mkPage_def)

section \<open>The issue summary leaves the other totals alone\<close>

lemma find_map_same_key:
  "(\<And>r. run_id (g r) = run_id r) \<Longrightarrow>
   find (\<lambda>r. run_id r = rid) (map g rs) = map_option g (find (\<lambda>r. run_id r = rid) rs)"
  by (induction rs) simp_all

lemma map_of_mergeIssueSummary:
  "k \<notin> set issueSummaryKeys \<Longrightarrow> map_of (mergeIssueSummary summary ex) k = map_of ex k"
  by (simp add: mergeIssueSummary_def issueSummaryKeys_def update_conv')

text \<open>
  Claim C10. Saving the issue summary of an existing run succeeds, and every key of the
  run's \<open>totalsJson\<close> other than \<open>issueCountTotal\<close>, \<open>issueCountByType\<close>,
  \<open>issueCountBySeverity\<close> and \<open>topIssueTypes\<close> reads as before (present with the same
  value, or absent as before); the run's status and the page, link and issue tables are
  untouched.
\<close>

theorem saveIssueSummary_frame:
  assumes run: "findRun rid db = Some r"
    and k: "k \<notin> set issueSummaryKeys"
  shows "\<exists>db' r'. saveIssueSummary rid summary db = Inr db'
           \<and> findRun rid db' = Some r'
           \<and> map_of (spread (run_totalsJson r')) k = map_of (spread (run_totalsJson r)) k
           \<and> run_status r' = run_status r
           \<and> pages db' = pages db \<and> links db' = links db \<and> issues db' = issues db"
proof -
  let ?upd = "\<lambda>x. x\<lparr>run_totalsJson := JObj (mergeIssueSummary summary (spread (run_totalsJson r)))\<rparr>"
  let ?db' = "db\<lparr>crawlRuns := map (\<lambda>x. if run_id x = rid then ?upd x else x) (crawlRuns db)\<rparr>"
  have save: "saveIssueSummary rid summary db = Inr ?db'"
    using run by (simp add: saveIssueSummary_def crawlRun_update_def Let_def)
  have "findRun rid ?db' = map_option (\<lambda>x. if run_id x = rid then ?upd x else x) (findRun rid db)"
    unfolding findRun_def by (simp add: find_map_same_key)
  moreover from run have "run_id r = rid"
    by (auto simp: findRun_def find_Some_iff)
  ultimately have found: "findRun rid ?db' = Some (?upd r)"
    using run by simp
  have "map_of (spread (run_totalsJson (?upd r))) k = map_of (spread (run_totalsJson r)) k"
    using k by (simp add: map_of_mergeIssueSummary)
  with save found show ?thesis
    by (intro exI [of _ ?db'] exI [of _ "?upd r"]) simp
qed

text \<open>
  The theorem at \<open>run1\<close>, whose \<open>pagesCount\<close> of 2 survives the save.
\<close>

theorem saveIssueSummary_frame_witness:
  "findRun ''run1'' brokenLinkDB = Some run1
   \<and> ''pagesCount'' \<notin> set issueSummaryKeys
   \<and> (\<exists>db' r'. saveIssueSummary ''run1'' (computeIssueSummary ''run1'' brokenLinkDB) brokenLinkDB = Inr db'
         \<and> findRun ''run1'' db' = Some r'
         \<and> map_of (spread (run_totalsJson r')) ''pagesCount'' = Some (JNum 2))"
proof -
  have h1: "findRun ''run1'' brokenLinkDB = Some run1"
    by (simp add: findRun_def brokenLinkDB_def run1_def)
  have h2: "''pagesCount'' \<notin> set issueSummaryKeys"
    by (simp add: issueSummaryKeys_def)
  have v: "map_of (spread (run_totalsJson run1)) ''pagesCount'' = Some (JNum 2)"
    by (simp add: run1_def)
  from saveIssueSummary_frame [OF h1 h2, of "computeIssueSummary ''run1'' brokenLinkDB"] v
  have "\<exists>db' r'. saveIssueSummary ''run1'' (computeIssueSummary ''run1'' brokenLinkDB) brokenLinkDB = Inr db'
         \<and> findRun ''run1'' db' = Some r'
         \<and> map_of (spread (run_totalsJson r')) ''pagesCount'' = Some (JNum 2)"
    by auto
  with h1 h2 show ?thesis by simp
qed

section \<open>The rule evaluator fires exactly the applicable rules\<close>

lemma kinds_Cons:
  "kinds (evaluateRules (rule # rules) page extra) =
     fires (fst (rule_evaluate rule page extra)) (rule_type rule) (rule_severity rule)
       @ kinds (evaluateRules rules page extra)"
  by (simp add: kinds_def fires_def draftOf_def Let_def)

lemma kinds_Nil: "kinds (evaluateRules [] page extra) = []"
  by (simp add: kinds_def)

text \<open>
  Claim C5, as the code has it. For every input the evaluator returns, in rule order,
  exactly one draft for each rule whose trigger holds, with the rule's severity, and nothing
  else. An absent (null) status, title, meta description, canonical, robots meta or image
  count is read as 0 or as the empty string; titles, meta descriptions and canonicals are
  measured after \<open>trim\<close>; and \<open>H1_MISSING\<close> fires when \<open>h1Count\<close> is 0 or absent.
\<close>

theorem evaluatePageIssues_kinds:
  "kinds (evaluatePageIssues page extra) =
     fires (\<exists>s. statusCode page = Some s \<and> s \<ge> 400) STATUS_4XX_5XX CRITICAL
     @ fires (\<exists>s. statusCode page = Some s \<and> 300 \<le> s \<and> s < 400) STATUS_3XX_REDIRECT MEDIUM
     @ fires (\<exists>chain. redirectChainJson page = Some (JArr chain) \<and> length chain \<ge> 3)
         REDIRECT_CHAIN_LONG HIGH
     @ fires (trimmed (title page) = []) MISSING_TITLE HIGH
     @ fires (length (trimmed (title page)) > 60) TITLE_TOO_LONG LOW
     @ fires (0 < length (trimmed (title page)) \<and> length (trimmed (title page)) < 10)
         TITLE_TOO_SHORT LOW
     @ fires (trimmed (metaDescription page) = []) MISSING_META_DESCRIPTION MEDIUM
     @ fires (h1Count page = Some 0 \<or> h1Count page = None) H1_MISSING HIGH
     @ fires (\<exists>h. h1Count page = Some h \<and> h > 1) H1_MULTIPLE LOW
     @ fires (trimmed (canonical page) = []) CANONICAL_MISSING LOW
     @ fires (\<exists>r. robotsMeta page = Some r \<and> includes_str (toLowerCase r) ''noindex'')
         ROBOTS_NOINDEX MEDIUM
     @ fires (\<exists>w. wordCount page = Some w \<and> w < 150) THIN_CONTENT LOW
     @ fires (\<exists>e n. extra = Some e \<and> imagesMissingAlt e = Some n \<and> n > 0)
         IMAGES_MISSING_ALT LOW"
proof -
  have 1: "(orElse (statusCode page) 0 \<ge> 400) = (\<exists>s. statusCode page = Some s \<and> s \<ge> 400)"
    by (cases "statusCode page") (simp_all add: orElse_def)
  have 2: "(orElse (statusCode page) 0 \<ge> 300 \<and> orElse (statusCode page) 0 < 400)
             = (\<exists>s. statusCode page = Some s \<and> 300 \<le> s \<and> s < 400)"
    by (cases "statusCode page") (simp_all add: orElse_def)
  have 3: "(chainLength (redirectChainJson page) \<ge> 3)
             = (\<exists>chain. redirectChainJson page = Some (JArr chain) \<and> length chain \<ge> 3)"
    by (auto simp: chainLength_def split: option.splits json.splits)
  have 8: "(orElse (h1Count page) 0 = 0) = (h1Count page = Some 0 \<or> h1Count page = None)"
    by (cases "h1Count page") (simp_all add: orElse_def)
  have 9: "(orElse (h1Count page) 0 > 1) = (\<exists>h. h1Count page = Some h \<and> h > 1)"
    by (cases "h1Count page") (simp_all add: orElse_def)
  have 11: "includes_str (orElse (map_option toLowerCase (robotsMeta page)) []) ''noindex''
             = (\<exists>r. robotsMeta page = Some r \<and> includes_str (toLowerCase r) ''noindex'')"
    by (cases "robotsMeta page") (simp_all add: orElse_def)
  have 12: "(case wordCount page of None \<Rightarrow> False | Some w \<Rightarrow> w < 150)
             = (\<exists>w. wordCount page = Some w \<and> w < 150)"
    by (cases "wordCount page") simp_all
  have 13: "(orElse (case extra of None \<Rightarrow> None | Some e \<Rightarrow> imagesMissingAlt e) 0 > 0)
             = (\<exists>e n. extra = Some e \<and> imagesMissingAlt e = Some n \<and> n > 0)"
    by (cases extra; cases "imagesMissingAlt (the extra)") (simp_all add: orElse_def)
  show ?thesis
    unfolding evaluatePageIssues_def RULES_def kinds_Cons kinds_Nil
    by (simp add: Let_def 1 2 3 8 9 11 12 13)
qed

text \<open>
  Claim C5 as stated fails where \<open>h1Count\<close> is null: \<open>h1Count = 0\<close> does not hold, and
  \<open>H1_MISSING\<close> is reported all the same.
\<close>

theorem h1_missing_counterexample:
  "h1Count placeholderInput \<noteq> Some 0
   \<and> (H1_MISSING, HIGH) \<in> set (kinds (evaluatePageIssues placeholderInput (Some \<lparr>imagesMissingAlt = Some 0\<rparr>)))"
  by (simp add: evaluatePageIssues_def RULES_def kinds_def draftOf_def placeholderInput_def orElse_def Let_def)

section \<open>The canonicalizer at trailing slashes\<close>

lemma normalizeUrl_slash_query:
  "normalizeUrl cmp ''https://a.test/x/?a=1'' [] = Some ''https://a.test/x/?a=1''"
  by code_simp

lemma normalizeUrl_noslash_query:
  "normalizeUrl cmp ''https://a.test/x?a=1'' [] = Some ''https://a.test/x?a=1''"
  by code_simp

lemma normalizeUrl_two_slashes:
  "normalizeUrl cmp ''http://a.test/b//'' [] = Some ''http://a.test/b/''"
  by code_simp

lemma normalizeUrl_one_slash:
  "normalizeUrl cmp ''http://a.test/b/'' [] = Some ''http://a.test/b''"
  by code_simp

text \<open>
  Claim C7, at a URL with a query string. The path \<open>/x/\<close> keeps its trailing slash: the
  test for the slash looks at the end of the whole serialized URL, where the query is. The
  same URL without the slash normalizes to a different string.
\<close>

theorem trailing_slash_kept_before_query:
  "normalizeUrl cmp ''https://a.test/x/?a=1'' [] = Some ''https://a.test/x/?a=1''
   \<and> normalizeUrl cmp ''https://a.test/x?a=1'' [] = Some ''https://a.test/x?a=1''
   \<and> normalizeUrl cmp ''https://a.test/x/?a=1'' [] \<noteq> normalizeUrl cmp ''https://a.test/x?a=1'' []"
  by (simp add: normalizeUrl_slash_query normalizeUrl_noslash_query)

text \<open>
  Claim C6, at a path that ends in two slashes. One slash is removed, the result still
  ends in a slash, and normalizing the result removes that one: the second normalization
  differs from the first.
\<close>

theorem normalizeUrl_twice_differs:
  "normalizeUrl cmp ''http://a.test/b//'' [] = Some ''http://a.test/b/''
   \<and> normalizeUrl cmp ''http://a.test/b/'' [] = Some ''http://a.test/b''
   \<and> normalizeUrl cmp ''http://a.test/b/'' [] \<noteq> normalizeUrl cmp ''http://a.test/b//'' []"
  by (simp add: normalizeUrl_two_slashes normalizeUrl_one_slash)

section \<open>The crawl loop\<close>

lemma visited_processPage:
  "visited (processPage env settings crawlRunId baseDomain normalizedUrl depth st) = visited st"
  by (simp add: processPage_def Let_def split: sum.splits)

lemma runPagesOf_issue_createMany [simp]:
  "runPagesOf rid (issue_createMany rows db) = runPagesOf rid db"
  by (simp add: runPagesOf_def issue_createMany_def)

lemma page_create_runPages:
  assumes "page_create page db = Inr db1" "page_crawlRunId page = rid"
  shows "runPagesOf rid db1 = runPagesOf rid db @ [page]"
    and "page_normalizedUrl page \<notin> page_normalizedUrl ` set (runPagesOf rid db)"
  using assms
  by (auto simp: page_create_def runPagesOf_def list_ex_iff split: if_splits)

lemma processPage_inv:
  assumes inv: "crawlInv env rid st" and n: "n \<in> set (visited st)"
  shows "crawlInv env rid (processPage env settings rid bd n depth st)"
proof (cases "truthy (pr_error (env_fetchAndParsePage env n))")
  case True
  with inv show ?thesis by (simp add: processPage_def)
next
  case noerr: False
  let ?result = "env_fetchAndParsePage env n"
  let ?sig = "computePageTemplateSignature env ?result"
  let ?page = "\<lparr>page_id = ''page-'' @ nat_digits (created st), page_crawlRunId = rid,
                 page_url = n, page_normalizedUrl = n,
                 page_statusCode = pr_statusCode ?result,
                 page_contentType = pr_contentType ?result,
                 page_title = pr_title ?result,
                 page_metaDescription = pr_metaDescription ?result,
                 page_h1Count = pr_h1Count ?result,
                 page_canonical = pr_canonical ?result,
                 page_robotsMeta = pr_robotsMeta ?result,
                 page_wordCount = pr_wordCount ?result,
                 page_templateSignatureHash = map_option fst ?sig,
                 page_templateSignatureJson = map_option snd ?sig\<rparr>"
  show ?thesis
  proof (cases "page_create ?page (cs_db st)")
    case (Inl e)
    with noerr inv show ?thesis by (simp add: processPage_def Let_def)
  next
    case (Inr db1)
    have pg: "runPagesOf rid db1 = runPagesOf rid (cs_db st) @ [?page]"
      and fresh: "n \<notin> page_normalizedUrl ` set (runPagesOf rid (cs_db st))"
      using page_create_runPages [OF Inr, of rid] by simp_all
    have "crawlInv env rid (st\<lparr>queue := q, created := c, cs_db := db1\<rparr>)" for q c
      using inv n noerr fresh
      by (simp add: crawlInv_def pg)
    moreover have "crawlInv env rid (st\<lparr>queue := q, created := c, cs_db := issue_createMany rows db1\<rparr>)" for q c rows
      using inv n noerr fresh
      by (simp add: crawlInv_def pg)
    ultimately show ?thesis
      using noerr Inr by (simp add: processPage_def Let_def)
  qed
qed

lemma crawlInv_cong:
  "visited st' = visited st \<Longrightarrow> pagesProcessed st' = pagesProcessed st \<Longrightarrow> cs_db st' = cs_db st \<Longrightarrow>
   crawlInv env rid st' = crawlInv env rid st"
  by (simp add: crawlInv_def)

lemma dequeueStep_inv:
  assumes inv: "crawlInv env rid st"
  shows "case dequeueStep env settings rid bd st of
           Inl r \<Rightarrow> crawlInv env rid (snd r) | Inr st' \<Rightarrow> crawlInv env rid st'"
proof -
  have rest: "crawlInv env rid (st\<lparr>queue := q\<rparr>)" for q
    using inv by (simp add: crawlInv_def)
  have proc: "crawlInv env rid
        (processPage env settings rid bd n depth
           (st\<lparr>queue := q, visited := visited st @ [n], pagesProcessed := pagesProcessed st + 1\<rparr>))"
    if "n \<notin> set (visited st)" for n depth q
  proof (rule processPage_inv)
    show "crawlInv env rid (st\<lparr>queue := q, visited := visited st @ [n], pagesProcessed := pagesProcessed st + 1\<rparr>)"
      using inv that by (auto simp: crawlInv_def list_all_iff)
    show "n \<in> set (visited (st\<lparr>queue := q, visited := visited st @ [n], pagesProcessed := pagesProcessed st + 1\<rparr>))"
      by simp
  qed
  show ?thesis
    using inv rest proc
    by (simp add: dequeueStep_def Let_def split: list.splits option.splits)
qed

lemma bfsIteration_inv:
  assumes inv: "crawlInv env rid st"
  shows "case bfsIteration env settings rid bd st of
           Inl r \<Rightarrow> crawlInv env rid (snd r) | Inr st' \<Rightarrow> crawlInv env rid st'"
proof -
  have c: "crawlInv env rid (st\<lparr>cancelCheckCounter := k\<rparr>)" for k
    using inv by (simp add: crawlInv_def)
  have p: "crawlInv env rid (st\<lparr>cancelCheckCounter := k, polls := m\<rparr>)" for k m
    using inv by (simp add: crawlInv_def)
  show ?thesis
    using dequeueStep_inv [OF c] dequeueStep_inv [OF p] p
    by (simp add: bfsIteration_def Let_def)
qed

lemma bfsLoop_inv:
  "crawlInv env rid st \<Longrightarrow> crawlInv env rid (snd (bfsLoop env settings rid bd st))"
proof (induction env settings rid bd st rule: bfsLoop.induct)
  case (1 env settings rid bd st)
  show ?case
  proof (cases "queue st = []")
    case True
    with "1.prems" show ?thesis by (simp add: bfsLoop.simps)
  next
    case False
    show ?thesis
    proof (cases "bfsIteration env settings rid bd st")
      case (Inl r)
      with bfsIteration_inv [OF "1.prems", of settings bd] False show ?thesis
        by (simp add: bfsLoop.simps)
    next
      case (Inr st')
      with bfsIteration_inv [OF "1.prems", of settings bd] have "crawlInv env rid st'"
        by simp
      from "1.IH" [OF False Inr this] False Inr show ?thesis
        by (simp add: bfsLoop.simps)
    qed
  qed
qed

lemma seed_inv: "crawlInv env rid (seed start (wipeRunData rid db))"
  by (simp add: crawlInv_def seed_def wipeRunData_def runPagesOf_def)

lemma pages_postProcessing:
  assumes "postProcessing rid db = Inr db'"
  shows "pages db' = pages db"
proof -
  obtain totals where pp: "postProcessCrawl rid db =
      Inr (totals, db\<lparr>links := map (applyTo (brokenUpdatesOf rid db)) (links db)\<rparr>)"
    using postProcessCrawl_links by blast
  let ?db1 = "db\<lparr>links := map (applyTo (brokenUpdatesOf rid db)) (links db)\<rparr>"
  from assms pp obtain db2 where s1: "saveCrawlTotals rid totals ?db1 = Inr db2"
    by (cases "saveCrawlTotals rid totals ?db1") (simp_all add: postProcessing_def)
  let ?db3 = "generateGlobalIssues rid db2"
  from assms pp s1 have s2: "saveIssueSummary rid (computeIssueSummary rid ?db3) ?db3 = Inr db'"
    by (cases "saveIssueSummary rid (computeIssueSummary rid ?db3) ?db3")
       (simp_all add: postProcessing_def Let_def)
  from s1 have "pages db2 = pages db"
    by (auto simp: saveCrawlTotals_def crawlRun_update_def split: option.splits)
  moreover from s2 have "pages db' = pages ?db3"
    by (auto simp: saveIssueSummary_def crawlRun_update_def Let_def split: option.splits)
  ultimately show ?thesis
    by (simp add: generateGlobalIssues_def Let_def)
qed

lemma runCrawl_pages:
  assumes "runCrawl env pid rid db = Inr db'"
  shows "\<exists>settings bd start.
           pages db' = pages (cs_db (snd (bfsLoop env settings rid bd (seed start (wipeRunData rid db)))))"
proof -
  from assms obtain project where
    p: "find (\<lambda>p. project_id p = pid) (projects db) = Some project"
    by (cases "find (\<lambda>p. project_id p = pid) (projects db)") (simp_all add: runCrawl_def)
  from assms p obtain crawlRun where c: "findRun rid db = Some crawlRun"
    by (cases "findRun rid db") (simp_all add: runCrawl_def)
  let ?settings = "buildCrawlSettings (project_settingsJson project)"
  from assms p c obtain start where
    n: "normalizeWith env ?settings (project_startUrl project) = Some start"
    by (cases "normalizeWith env ?settings (project_startUrl project)")
       (simp_all add: runCrawl_def Let_def)
  let ?loop = "bfsLoop env ?settings rid (project_domain project) (seed start (wipeRunData rid db))"
  from assms p c n have r:
    "(case ?loop of (CanceledExit, st) \<Rightarrow> Inr (cs_db st)
                  | (_, st) \<Rightarrow> postProcessing rid (cs_db st)) = Inr db'"
    by (simp add: runCrawl_def Let_def)
  have "pages db' = pages (cs_db (snd ?loop))"
  proof (cases ?loop)
    case (Pair ex st)
    with r show ?thesis
      by (cases ex) (auto dest: pages_postProcessing)
  qed
  then show ?thesis by blast
qed

text \<open>
  One iteration, and what \<open>processPage\<close> does to the queue.
\<close>

lemma fold_enqueueLink:
  "fold (enqueueLink env settings bd n depth vis) ls q =
     q @ map (\<lambda>nl. (nl, depth + 1))
           (filter (\<lambda>nl. isInternalUrl nl bd (includeSubdomains settings) \<and> nl \<notin> set vis)
              (concat (map (\<lambda>link. case resolveAndNormalize env settings link n of
                                      None \<Rightarrow> [] | Some nl \<Rightarrow> [nl]) ls)))"
  by (induction ls arbitrary: q) (auto simp: enqueueLink_def split: option.splits)

lemma processPage_error:
  "truthy (pr_error (env_fetchAndParsePage env n)) \<Longrightarrow>
   processPage env settings rid bd n depth st = st"
  by (simp add: processPage_def)

lemma processPage_stored:
  assumes "\<not> truthy (pr_error (env_fetchAndParsePage env n))"
    and "\<not> list_ex (\<lambda>p. page_normalizedUrl p = n) (runPagesOf rid (cs_db st))"
  shows "queue (processPage env settings rid bd n depth st)
           = queue st @ map (\<lambda>nl. (nl, depth + 1)) (discovered env settings bd n (visited st))"
proof -
  have "page_create page (cs_db st) \<noteq> Inl e"
    if "page_crawlRunId page = rid" "page_normalizedUrl page = n" for page e
    using assms(2) that by (auto simp: page_create_def runPagesOf_def list_ex_iff)
  then show ?thesis
    using assms(1)
    by (auto simp: processPage_def Let_def fold_enqueueLink discovered_def split: sum.splits)
qed

lemma queue_processPage_prefix:
  "take (length (queue st)) (queue (processPage env settings rid bd n depth st)) = queue st"
  by (simp add: processPage_def Let_def fold_enqueueLink split: sum.splits)

lemma bfsIteration_step:
  assumes "queue st = item # rest" "\<not> canceledNow env st" "int (length (visited st)) < maxPages settings"
  shows "bfsIteration env settings rid bd st =
     (case admitted env settings (visited st) item of
        None \<Rightarrow> Inr ((ticked st)\<lparr>queue := rest\<rparr>)
      | Some n \<Rightarrow>
          Inr (processPage env settings rid bd n (snd item)
                 ((ticked st)\<lparr>queue := rest, visited := visited st @ [n],
                              pagesProcessed := pagesProcessed st + 1\<rparr>)))"
  using assms
  by (auto simp: bfsIteration_def dequeueStep_def ticked_def canceledNow_def admitted_def Let_def
           split: option.splits)

lemma bfsIteration_Inr:
  assumes "bfsIteration env settings rid bd st = Inr st'"
  shows "\<not> canceledNow env st \<and> int (length (visited st)) < maxPages settings"
  using assms
  by (auto simp: bfsIteration_def dequeueStep_def canceledNow_def Let_def split: if_splits)

lemma bfsIteration_Inl:
  assumes "bfsIteration env settings rid bd st = Inl r" "queue st \<noteq> []"
  shows "visited (snd r) = visited st \<and> queue (snd r) = queue st \<and> cs_db (snd r) = cs_db st"
  using assms
  by (auto simp: bfsIteration_def dequeueStep_def Let_def split: if_splits list.splits option.splits)

text \<open>
  Claim C2, as the code has it. A URL whose fetch returns an error result gets no Page
  row: when \<open>runCrawl\<close> returns, the run has no page with that URL. Processing it changes
  nothing; the iteration that dequeues it marks it visited, counts it, takes it off the
  queue and leaves the store and the rest of the queue as they were, and the loop goes on
  from there with the next queue item.
\<close>

theorem fetch_error_page_not_persisted:
  assumes "truthy (pr_error (env_fetchAndParsePage env u))"
  shows "(case runCrawl env projectId crawlRunId db of
            Inl e \<Rightarrow> True
          | Inr db' \<Rightarrow> \<not> list_ex (\<lambda>p. page_normalizedUrl p = u) (runPagesOf crawlRunId db'))
         \<and> processPage env settings crawlRunId baseDomain u depth st = st
         \<and> (queue st = item # rest \<and> admitted env settings (visited st) item = Some u
              \<and> \<not> canceledNow env st \<and> int (length (visited st)) < maxPages settings
            \<longrightarrow> bfsIteration env settings crawlRunId baseDomain st
                  = Inr ((ticked st)\<lparr>queue := rest, visited := visited st @ [u],
                                     pagesProcessed := pagesProcessed st + 1\<rparr>)
                \<and> bfsLoop env settings crawlRunId baseDomain st
                    = bfsLoop env settings crawlRunId baseDomain
                        ((ticked st)\<lparr>queue := rest, visited := visited st @ [u],
                                     pagesProcessed := pagesProcessed st + 1\<rparr>))"
proof -
  have "\<not> list_ex (\<lambda>p. page_normalizedUrl p = u) (runPagesOf crawlRunId db')"
    if run: "runCrawl env projectId crawlRunId db = Inr db'" for db'
  proof -
    from runCrawl_pages [OF run] obtain settings bd start where
      pg: "pages db' = pages (cs_db (snd (bfsLoop env settings crawlRunId bd
                                            (seed start (wipeRunData crawlRunId db)))))"
      by blast
    have "crawlInv env crawlRunId (snd (bfsLoop env settings crawlRunId bd
                                          (seed start (wipeRunData crawlRunId db))))"
      by (rule bfsLoop_inv [OF seed_inv])
    then have "list_all (\<lambda>p. \<not> truthy (pr_error (env_fetchAndParsePage env (page_normalizedUrl p))))
                 (runPagesOf crawlRunId db')"
      using pg by (simp add: crawlInv_def runPagesOf_def list_all_iff)
    with assms show ?thesis
      by (auto simp: list_all_iff list_ex_iff)
  qed
  then have 1: "case runCrawl env projectId crawlRunId db of
            Inl e \<Rightarrow> True
          | Inr db' \<Rightarrow> \<not> list_ex (\<lambda>p. page_normalizedUrl p = u) (runPagesOf crawlRunId db')"
    by (simp split: sum.splits)
  have 2: "processPage env settings crawlRunId baseDomain u depth st = st" for depth st
    using assms by (rule processPage_error)
  let ?next = "(ticked st)\<lparr>queue := rest, visited := visited st @ [u],
                            pagesProcessed := pagesProcessed st + 1\<rparr>"
  have 3: "bfsIteration env settings crawlRunId baseDomain st = Inr ?next
           \<and> bfsLoop env settings crawlRunId baseDomain st
               = bfsLoop env settings crawlRunId baseDomain ?next"
    if q: "queue st = item # rest" and a: "admitted env settings (visited st) item = Some u"
      and c: "\<not> canceledNow env st" and m: "int (length (visited st)) < maxPages settings"
  proof -
    have it: "bfsIteration env settings crawlRunId baseDomain st = Inr ?next"
      using bfsIteration_step [OF q c m, of crawlRunId baseDomain] a 2 by simp
    with q have "bfsLoop env settings crawlRunId baseDomain st
               = bfsLoop env settings crawlRunId baseDomain ?next"
      by (subst bfsLoop.simps) simp
    with it show ?thesis by simp
  qed
  from 1 2 3 show ?thesis by blast
qed

lemma failingFetch_error: "truthy (pr_error (env_fetchAndParsePage (siteEnv failingFetch) ''https://a.test/''))"
  by (simp add: siteEnv_def failingFetch_def truthy_def)

lemma runCrawl_failingFetch_returns:
  "\<not> isl (runCrawl (siteEnv failingFetch) ''proj1'' ''run1'' brokenLinkDB)"
  by code_simp

lemma admitted_start:
  "admitted (siteEnv fetch) DEFAULT_CRAWL_SETTINGS [] (''https://a.test/'', 0) = Some ''https://a.test/''"
  by code_simp

lemma seed_facts:
  "queue (seed start db) = [(start, 0)]" "visited (seed start db) = []"
  "\<not> canceledNow env (seed start db)"
  "int (length (visited (seed start db))) < maxPages DEFAULT_CRAWL_SETTINGS"
  "ticked (seed start db) = (seed start db)\<lparr>cancelCheckCounter := 1\<rparr>"
  "0 < maxPages DEFAULT_CRAWL_SETTINGS"
  by (simp_all add: seed_def canceledNow_def ticked_def CANCEL_CHECK_INTERVAL_def
                    DEFAULT_CRAWL_SETTINGS_def)

text \<open>
  The theorem on a site where every fetch fails, at the start URL and the seeded state.
\<close>

theorem fetch_error_page_not_persisted_witness:
  "truthy (pr_error (env_fetchAndParsePage (siteEnv failingFetch) ''https://a.test/''))
   \<and> \<not> isl (runCrawl (siteEnv failingFetch) ''proj1'' ''run1'' brokenLinkDB)
   \<and> \<not> list_ex (\<lambda>p. page_normalizedUrl p = ''https://a.test/'')
          (runPagesOf ''run1'' (projr (runCrawl (siteEnv failingFetch) ''proj1'' ''run1'' brokenLinkDB)))
   \<and> queue (seed ''https://a.test/'' (wipeRunData ''run1'' brokenLinkDB)) = [(''https://a.test/'', 0)]
   \<and> admitted (siteEnv failingFetch) DEFAULT_CRAWL_SETTINGS
        (visited (seed ''https://a.test/'' (wipeRunData ''run1'' brokenLinkDB))) (''https://a.test/'', 0)
       = Some ''https://a.test/''
   \<and> \<not> canceledNow (siteEnv failingFetch) (seed ''https://a.test/'' (wipeRunData ''run1'' brokenLinkDB))
   \<and> int (length (visited (seed ''https://a.test/'' (wipeRunData ''run1'' brokenLinkDB))))
       < maxPages DEFAULT_CRAWL_SETTINGS
   \<and> bfsIteration (siteEnv failingFetch) DEFAULT_CRAWL_SETTINGS ''run1'' ''a.test''
        (seed ''https://a.test/'' (wipeRunData ''run1'' brokenLinkDB))
       = Inr \<lparr>queue = [], visited = [''https://a.test/''], pagesProcessed = 1,
              cancelCheckCounter = 1, polls = 0, created = 0,
              cs_db = wipeRunData ''run1'' brokenLinkDB\<rparr>"
proof -
  let ?st = "seed ''https://a.test/'' (wipeRunData ''run1'' brokenLinkDB)"
  obtain db' where r: "runCrawl (siteEnv failingFetch) ''proj1'' ''run1'' brokenLinkDB = Inr db'"
    using runCrawl_failingFetch_returns by (cases "runCrawl (siteEnv failingFetch) ''proj1'' ''run1'' brokenLinkDB") auto
  have a: "admitted (siteEnv failingFetch) DEFAULT_CRAWL_SETTINGS (visited ?st) (''https://a.test/'', 0)
             = Some ''https://a.test/''"
    by (simp add: seed_facts admitted_start)
  note th = fetch_error_page_not_persisted
         [OF failingFetch_error, where projectId = "''proj1''" and crawlRunId = "''run1''"
            and db = brokenLinkDB and st = ?st and settings = DEFAULT_CRAWL_SETTINGS
            and item = "(''https://a.test/'', 0)" and rest = "[]" and baseDomain = "''a.test''"]
  from th have 1: "\<not> list_ex (\<lambda>p. page_normalizedUrl p = ''https://a.test/'') (runPagesOf ''run1'' db')"
    by (simp add: r)
  from th a have "bfsIteration (siteEnv failingFetch) DEFAULT_CRAWL_SETTINGS ''run1'' ''a.test'' ?st
       = Inr ((ticked ?st)\<lparr>queue := [], visited := visited ?st @ [''https://a.test/''],
                           pagesProcessed := pagesProcessed ?st + 1\<rparr>)"
    by (simp add: seed_facts)
  then have 2: "bfsIteration (siteEnv failingFetch) DEFAULT_CRAWL_SETTINGS ''run1'' ''a.test'' ?st
       = Inr \<lparr>queue = [], visited = [''https://a.test/''], pagesProcessed = 1,
              cancelCheckCounter = 1, polls = 0, created = 0,
              cs_db = wipeRunData ''run1'' brokenLinkDB\<rparr>"
    by (simp add: seed_facts) (simp add: seed_def)
  from 1 2 a r failingFetch_error runCrawl_failingFetch_returns show ?thesis
    by (simp add: seed_facts)
qed

text \<open>
  Claim C2 as stated fails on that site: the start URL is dequeued and marked visited,
  its fetch returns an error with a null status, and the run ends without a single page.
\<close>

theorem fetch_error_page_counterexample:
  "pr_error (failingFetch ''https://a.test/'') = Some ''ECONNREFUSED''
   \<and> pr_statusCode (failingFetch ''https://a.test/'') = None
   \<and> visited (snd (bfsLoop (siteEnv failingFetch) DEFAULT_CRAWL_SETTINGS ''run1'' ''a.test''
                      (seed ''https://a.test/'' (wipeRunData ''run1'' brokenLinkDB))))
       = [''https://a.test/'']
   \<and> \<not> isl (runCrawl (siteEnv failingFetch) ''proj1'' ''run1'' brokenLinkDB)
   \<and> runPagesOf ''run1'' (projr (runCrawl (siteEnv failingFetch) ''proj1'' ''run1'' brokenLinkDB)) = []"
  by code_simp

text \<open>
  Claim C3, as the code has it. The seed puts the start URL in the queue and leaves
  \<open>visited\<close> empty. An iteration that leaves the loop changes neither \<open>visited\<close> nor the
  queue. Any other iteration takes the head off the queue: when the head is within the
  depth limit and normalizes to a URL that is not visited yet, exactly that URL is
  appended to \<open>visited\<close> and counted; otherwise \<open>visited\<close>, the count and the store stay as
  they are. The items behind the head stay in front; when the page is fetched without
  error and stored, the frontier then holds every link of the page that resolves, is
  internal and is not visited, each new entry one level deeper, and none of them is added
  to \<open>visited\<close>. So when the loop ends \<open>visited\<close> holds no URL twice, \<open>pagesProcessed\<close> is
  its size, and the run's pages are for pairwise different URLs, all of them in
  \<open>visited\<close>: no URL is processed twice.
\<close>

theorem visited_is_marked_at_dequeue:
  "visited (seed start db0) = [] \<and> queue (seed start db0) = [(start, 0)]
   \<and> (queue st = item # rest \<longrightarrow>
        (case bfsIteration env settings crawlRunId baseDomain st of
           Inl r \<Rightarrow> visited (snd r) = visited st \<and> queue (snd r) = queue st
         | Inr st' \<Rightarrow>
             (case admitted env settings (visited st) item of
                None \<Rightarrow>
                  visited st' = visited st \<and> pagesProcessed st' = pagesProcessed st
                  \<and> queue st' = rest \<and> cs_db st' = cs_db st
              | Some n \<Rightarrow>
                  visited st' = visited st @ [n] \<and> pagesProcessed st' = pagesProcessed st + 1
                  \<and> take (length rest) (queue st') = rest
                  \<and> (\<not> truthy (pr_error (env_fetchAndParsePage env n))
                       \<and> \<not> list_ex (\<lambda>p. page_normalizedUrl p = n) (runPagesOf crawlRunId (cs_db st))
                     \<longrightarrow> fst ` set (queue st')
                           = fst ` set rest \<union> set (discovered env settings baseDomain n (visited st @ [n]))
                         \<and> set (drop (length rest) (queue st'))
                             \<subseteq> (\<lambda>nl. (nl, snd item + 1))
                                 ` set (discovered env settings baseDomain n (visited st @ [n]))))))
   \<and> distinct (visited (snd (bfsLoop env settings crawlRunId baseDomain (seed start (wipeRunData crawlRunId db)))))
   \<and> pagesProcessed (snd (bfsLoop env settings crawlRunId baseDomain (seed start (wipeRunData crawlRunId db))))
       = length (visited (snd (bfsLoop env settings crawlRunId baseDomain (seed start (wipeRunData crawlRunId db)))))
   \<and> distinct (map page_normalizedUrl
        (runPagesOf crawlRunId (cs_db (snd (bfsLoop env settings crawlRunId baseDomain (seed start (wipeRunData crawlRunId db)))))))
   \<and> list_all (\<lambda>p. page_normalizedUrl p \<in> set (visited (snd (bfsLoop env settings crawlRunId baseDomain (seed start (wipeRunData crawlRunId db))))))
        (runPagesOf crawlRunId (cs_db (snd (bfsLoop env settings crawlRunId baseDomain (seed start (wipeRunData crawlRunId db))))))"
proof -
  let ?final = "snd (bfsLoop env settings crawlRunId baseDomain (seed start (wipeRunData crawlRunId db)))"
  let ?it = "bfsIteration env settings crawlRunId baseDomain st"
  have inv: "crawlInv env crawlRunId ?final"
    by (rule bfsLoop_inv [OF seed_inv])
  have step: "case ?it of
           Inl r \<Rightarrow> visited (snd r) = visited st \<and> queue (snd r) = queue st
         | Inr st' \<Rightarrow>
             (case admitted env settings (visited st) item of
                None \<Rightarrow>
                  visited st' = visited st \<and> pagesProcessed st' = pagesProcessed st
                  \<and> queue st' = rest \<and> cs_db st' = cs_db st
              | Some n \<Rightarrow>
                  visited st' = visited st @ [n] \<and> pagesProcessed st' = pagesProcessed st + 1
                  \<and> take (length rest) (queue st') = rest
                  \<and> (\<not> truthy (pr_error (env_fetchAndParsePage env n))
                       \<and> \<not> list_ex (\<lambda>p. page_normalizedUrl p = n) (runPagesOf crawlRunId (cs_db st))
                     \<longrightarrow> fst ` set (queue st')
                           = fst ` set rest \<union> set (discovered env settings baseDomain n (visited st @ [n]))
                         \<and> set (drop (length rest) (queue st'))
                             \<subseteq> (\<lambda>nl. (nl, snd item + 1))
                                 ` set (discovered env settings baseDomain n (visited st @ [n]))))"
    if q: "queue st = item # rest"
  proof (cases ?it)
    case (Inl r)
    with bfsIteration_Inl [OF Inl] q show ?thesis by simp
  next
    case (Inr st')
    note live = bfsIteration_Inr [OF Inr]
    from live have c: "\<not> canceledNow env st" and m: "int (length (visited st)) < maxPages settings"
      by simp_all
    note it = bfsIteration_step [OF q c m, of crawlRunId baseDomain]
    show ?thesis
    proof (cases "admitted env settings (visited st) item")
      case None
      with it Inr have "st' = (ticked st)\<lparr>queue := rest\<rparr>" by simp
      with Inr None show ?thesis by (simp add: ticked_def)
    next
      case (Some n)
      let ?s1 = "(ticked st)\<lparr>queue := rest, visited := visited st @ [n],
                              pagesProcessed := pagesProcessed st + 1\<rparr>"
      from it Inr Some have st': "st' = processPage env settings crawlRunId baseDomain n (snd item) ?s1"
        by simp
      have s1: "queue ?s1 = rest" "visited ?s1 = visited st @ [n]" "cs_db ?s1 = cs_db st"
        "pagesProcessed ?s1 = pagesProcessed st + 1"
        by (simp_all add: ticked_def)
      have v: "visited st' = visited st @ [n]"
        unfolding st' by (simp add: visited_processPage s1)
      have p: "pagesProcessed st' = pagesProcessed st + 1"
        unfolding st' using s1(4) by (simp add: processPage_def Let_def split: sum.splits)
      have pre: "take (length rest) (queue st') = rest"
        unfolding st' using queue_processPage_prefix [of ?s1 env settings crawlRunId baseDomain n "snd item"]
        by (simp only: s1)
      have disc: "fst ` set (queue st')
                    = fst ` set rest \<union> set (discovered env settings baseDomain n (visited st @ [n]))
                  \<and> set (drop (length rest) (queue st'))
                      \<subseteq> (\<lambda>nl. (nl, snd item + 1))
                          ` set (discovered env settings baseDomain n (visited st @ [n]))"
        if ok: "\<not> truthy (pr_error (env_fetchAndParsePage env n))"
          and fresh: "\<not> list_ex (\<lambda>p. page_normalizedUrl p = n) (runPagesOf crawlRunId (cs_db st))"
      proof -
        from fresh have "\<not> list_ex (\<lambda>p. page_normalizedUrl p = n) (runPagesOf crawlRunId (cs_db ?s1))"
          by (simp add: ticked_def)
        from processPage_stored [OF ok this, of settings baseDomain "snd item"]
        have "queue st' = rest @ map (\<lambda>nl. (nl, snd item + 1))
                                   (discovered env settings baseDomain n (visited st @ [n]))"
          unfolding st' by (simp only: s1)
        then show ?thesis
          by (auto simp: image_Un image_image comp_def)
      qed
      from Inr Some v p pre disc show ?thesis by simp
    qed
  qed
  from inv have "distinct (visited ?final)" "pagesProcessed ?final = length (visited ?final)"
    "distinct (map page_normalizedUrl (runPagesOf crawlRunId (cs_db ?final)))"
    "list_all (\<lambda>p. page_normalizedUrl p \<in> set (visited ?final)) (runPagesOf crawlRunId (cs_db ?final))"
    by (simp_all add: crawlInv_def list_all_iff)
  with step show ?thesis
    by (simp add: seed_def)
qed

lemma twoLinks_facts:
  "\<not> truthy (pr_error (env_fetchAndParsePage (siteEnv twoLinksFetch) ''https://a.test/''))"
  "\<not> list_ex (\<lambda>p. page_normalizedUrl p = ''https://a.test/'')
       (runPagesOf ''run1'' (cs_db (seed ''https://a.test/'' (wipeRunData ''run1'' brokenLinkDB))))"
  "discovered (siteEnv twoLinksFetch) DEFAULT_CRAWL_SETTINGS ''a.test'' ''https://a.test/''
     [''https://a.test/''] = [''https://a.test/x'', ''https://a.test/x'']"
  "\<not> isl (bfsIteration (siteEnv twoLinksFetch) DEFAULT_CRAWL_SETTINGS ''run1'' ''a.test''
            (seed ''https://a.test/'' (wipeRunData ''run1'' brokenLinkDB)))"
  by code_simp+

text \<open>
  The theorem at the first iteration on a site whose start page links twice to \<open>/x\<close>.
\<close>

theorem visited_is_marked_at_dequeue_witness:
  "queue (seed ''https://a.test/'' (wipeRunData ''run1'' brokenLinkDB)) = [(''https://a.test/'', 0)]
   \<and> \<not> isl (bfsIteration (siteEnv twoLinksFetch) DEFAULT_CRAWL_SETTINGS ''run1'' ''a.test''
             (seed ''https://a.test/'' (wipeRunData ''run1'' brokenLinkDB)))
   \<and> admitted (siteEnv twoLinksFetch) DEFAULT_CRAWL_SETTINGS
        (visited (seed ''https://a.test/'' (wipeRunData ''run1'' brokenLinkDB))) (''https://a.test/'', 0)
       = Some ''https://a.test/''
   \<and> \<not> truthy (pr_error (env_fetchAndParsePage (siteEnv twoLinksFetch) ''https://a.test/''))
   \<and> \<not> list_ex (\<lambda>p. page_normalizedUrl p = ''https://a.test/'')
          (runPagesOf ''run1'' (cs_db (seed ''https://a.test/'' (wipeRunData ''run1'' brokenLinkDB))))
   \<and> visited (projr (bfsIteration (siteEnv twoLinksFetch) DEFAULT_CRAWL_SETTINGS ''run1'' ''a.test''
                       (seed ''https://a.test/'' (wipeRunData ''run1'' brokenLinkDB))))
       = [''https://a.test/'']
   \<and> fst ` set (queue (projr (bfsIteration (siteEnv twoLinksFetch) DEFAULT_CRAWL_SETTINGS ''run1'' ''a.test''
                                 (seed ''https://a.test/'' (wipeRunData ''run1'' brokenLinkDB)))))
       = {''https://a.test/x''}
   \<and> set (queue (projr (bfsIteration (siteEnv twoLinksFetch) DEFAULT_CRAWL_SETTINGS ''run1'' ''a.test''
                           (seed ''https://a.test/'' (wipeRunData ''run1'' brokenLinkDB)))))
       \<subseteq> {(''https://a.test/x'', 1)}"
proof -
  let ?st = "seed ''https://a.test/'' (wipeRunData ''run1'' brokenLinkDB)"
  let ?it = "bfsIteration (siteEnv twoLinksFetch) DEFAULT_CRAWL_SETTINGS ''run1'' ''a.test'' ?st"
  obtain st' where it: "?it = Inr st'"
    using twoLinks_facts(4) by (cases ?it) auto
  have a: "admitted (siteEnv twoLinksFetch) DEFAULT_CRAWL_SETTINGS (visited ?st) (''https://a.test/'', 0)
             = Some ''https://a.test/''"
    by (simp add: seed_facts admitted_start)
  from visited_is_marked_at_dequeue
         [where st = ?st and item = "(''https://a.test/'', 0)" and rest = "[]"
            and env = "siteEnv twoLinksFetch" and settings = DEFAULT_CRAWL_SETTINGS
            and crawlRunId = "''run1''" and baseDomain = "''a.test''"]
       it a twoLinks_facts(1,2)
  have "visited st' = [''https://a.test/'']
        \<and> fst ` set (queue st') = {''https://a.test/x''}
        \<and> set (queue st') \<subseteq> {(''https://a.test/x'', 1)}"
    by (simp add: seed_facts twoLinks_facts(3))
  with it a twoLinks_facts show ?thesis
    by (simp add: seed_facts)
qed

text \<open>
  Claim C3 as stated fails on a site whose start page links twice to \<open>/x\<close>: the seeded
  start URL is not in \<open>visited\<close>, and after the first iteration the frontier holds
  \<open>/x\<close> twice while \<open>visited\<close> holds the start URL only.
\<close>

theorem admission_time_visited_counterexample:
  "''https://a.test/'' \<notin> set (visited (seed ''https://a.test/'' (wipeRunData ''run1'' brokenLinkDB)))
   \<and> \<not> isl (bfsIteration (siteEnv twoLinksFetch) DEFAULT_CRAWL_SETTINGS ''run1'' ''a.test''
               (seed ''https://a.test/'' (wipeRunData ''run1'' brokenLinkDB)))
   \<and> queue (projr (bfsIteration (siteEnv twoLinksFetch) DEFAULT_CRAWL_SETTINGS ''run1'' ''a.test''
               (seed ''https://a.test/'' (wipeRunData ''run1'' brokenLinkDB))))
       = [(''https://a.test/x'', 1), (''https://a.test/x'', 1)]
   \<and> visited (projr (bfsIteration (siteEnv twoLinksFetch) DEFAULT_CRAWL_SETTINGS ''run1'' ''a.test''
               (seed ''https://a.test/'' (wipeRunData ''run1'' brokenLinkDB))))
       = [''https://a.test/'']"
  by code_simp

lemma wipeRunData_idem: "wipeRunData rid (wipeRunData rid db) = wipeRunData rid db"
  by (simp add: wipeRunData_def)

text \<open>
  Claim C4, as the code has it. The clean-up at the start of \<open>runCrawl\<close> leaves no page,
  link or issue row of the run and does not touch the template table; and the whole job
  runs from the cleaned store: on a store that still holds rows of an earlier delivery it
  does what it does on the store without them.
\<close>

theorem wipe_before_first_fetch:
  "runPagesOf crawlRunId (wipeRunData crawlRunId db) = []
   \<and> filter (\<lambda>l. link_crawlRunId l = crawlRunId) (links (wipeRunData crawlRunId db)) = []
   \<and> filter (\<lambda>i. issue_crawlRunId i = crawlRunId) (issues (wipeRunData crawlRunId db)) = []
   \<and> templates (wipeRunData crawlRunId db) = templates db
   \<and> (find (\<lambda>p. project_id p = projectId) (projects db) \<noteq> None \<and> findRun crawlRunId db \<noteq> None
        \<longrightarrow> runCrawl env projectId crawlRunId db
              = runCrawl env projectId crawlRunId (wipeRunData crawlRunId db))"
proof -
  have f: "findRun crawlRunId (wipeRunData crawlRunId db) = findRun crawlRunId db"
    by (simp add: findRun_def wipeRunData_def)
  have p: "projects (wipeRunData crawlRunId db) = projects db"
    by (simp add: wipeRunData_def)
  have "runCrawl env projectId crawlRunId (wipeRunData crawlRunId db) = runCrawl env projectId crawlRunId db"
    if "find (\<lambda>p. project_id p = projectId) (projects db) \<noteq> None" "findRun crawlRunId db \<noteq> None"
    using that by (auto simp only: runCrawl_def f p wipeRunData_idem option.case)
  then show ?thesis
    by (simp add: wipeRunData_def runPagesOf_def)
qed

text \<open>
  The theorem at \<open>brokenLinkDB\<close>, which holds two pages and three links of the run: a
  crawl of the placeholder site from it is the crawl from the cleaned store.
\<close>

theorem wipe_before_first_fetch_witness:
  "find (\<lambda>p. project_id p = ''proj1'') (projects brokenLinkDB) \<noteq> None
   \<and> findRun ''run1'' brokenLinkDB \<noteq> None
   \<and> length (runPagesOf ''run1'' brokenLinkDB) = 2
   \<and> runPagesOf ''run1'' (wipeRunData ''run1'' brokenLinkDB) = []
   \<and> runCrawl (siteEnv fetchAndParsePage) ''proj1'' ''run1'' brokenLinkDB
       = runCrawl (siteEnv fetchAndParsePage) ''proj1'' ''run1'' (wipeRunData ''run1'' brokenLinkDB)"
proof -
  have h1: "find (\<lambda>p. project_id p = ''proj1'') (projects brokenLinkDB) \<noteq> None"
    by (simp add: brokenLinkDB_def proj1_def)
  have h2: "findRun ''run1'' brokenLinkDB \<noteq> None"
    by (simp add: findRun_def brokenLinkDB_def run1_def)
  have h3: "length (runPagesOf ''run1'' brokenLinkDB) = 2"
    by (simp add: brokenLinkDB_defs)
  from wipe_before_first_fetch
         [where crawlRunId = "''run1''" and db = brokenLinkDB and projectId = "''proj1''"
            and env = "siteEnv fetchAndParsePage"]
       h1 h2 h3
  show ?thesis by blast
qed

text \<open>
  Claim C4 as stated fails for templates: a template row of the run is still there after
  the clean-up.
\<close>

theorem templates_survive_wipe_counterexample:
  "filter (\<lambda>t. template_crawlRunId t = ''run1'') (templates (wipeRunData ''run1'' templateDB))
     = [\<lparr>template_id = ''t1'', template_crawlRunId = ''run1'',
          template_signatureHash = ''abc'', template_pageCount = 2\<rparr>]"
  by (simp add: wipeRunData_def templateDB_def)

subsection \<open>The crawl never writes a run status\<close>

text \<open>
  Whatever \<open>runCrawl\<close> does, and however it ends, every run has the status it had: a
  status changes in \<open>processJob\<close> and in \<open>cancel\<close> only.
\<close>

lemma statuses_crawlRun_update:
  assumes "crawlRun_update rid f db = Inr db'" "\<And>r. run_id (f r) = run_id r" "\<And>r. run_status (f r) = run_status r"
  shows "statuses db' = statuses db"
  using assms
  by (auto simp: crawlRun_update_def statuses_def split: option.splits)

lemma statuses_processPage:
  "statuses (cs_db (processPage env settings rid bd n depth st)) = statuses (cs_db st)"
  by (simp add: processPage_def Let_def page_create_def issue_createMany_def statuses_def
           split: sum.splits)

lemma statuses_dequeueStep:
  "statuses (cs_db (case dequeueStep env settings rid bd st of Inl r \<Rightarrow> snd r | Inr st' \<Rightarrow> st'))
     = statuses (cs_db st)"
  by (simp add: dequeueStep_def Let_def statuses_processPage split: list.splits option.splits)

lemma statuses_bfsIteration:
  "statuses (cs_db (case bfsIteration env settings rid bd st of Inl r \<Rightarrow> snd r | Inr st' \<Rightarrow> st'))
     = statuses (cs_db st)"
  using statuses_dequeueStep [of env settings rid bd "st\<lparr>cancelCheckCounter := 0, polls := Suc (polls st)\<rparr>"]
        statuses_dequeueStep [of env settings rid bd "st\<lparr>cancelCheckCounter := Suc (cancelCheckCounter st)\<rparr>"]
  by (simp add: bfsIteration_def Let_def)

lemma statuses_bfsLoop:
  "statuses (cs_db (snd (bfsLoop env settings rid bd st))) = statuses (cs_db st)"
proof (induction env settings rid bd st rule: bfsLoop.induct)
  case (1 env settings rid bd st)
  show ?case
  proof (cases "queue st = []")
    case True
    then show ?thesis by (simp add: bfsLoop.simps)
  next
    case False
    show ?thesis
    proof (cases "bfsIteration env settings rid bd st")
      case (Inl r)
      with statuses_bfsIteration [of env settings rid bd st] False show ?thesis
        by (simp add: bfsLoop.simps)
    next
      case (Inr st')
      with statuses_bfsIteration [of env settings rid bd st] "1.IH" [OF False Inr] False
      show ?thesis
        by (simp add: bfsLoop.simps)
    qed
  qed
qed

lemma statuses_postProcessing:
  "statuses (case postProcessing rid db of Inl r \<Rightarrow> snd r | Inr db' \<Rightarrow> db') = statuses db"
proof -
  obtain totals where pp: "postProcessCrawl rid db =
      Inr (totals, db\<lparr>links := map (applyTo (brokenUpdatesOf rid db)) (links db)\<rparr>)"
    using postProcessCrawl_links by blast
  let ?db1 = "db\<lparr>links := map (applyTo (brokenUpdatesOf rid db)) (links db)\<rparr>"
  have s1: "statuses ?db1 = statuses db"
    by (simp add: statuses_def)
  show ?thesis
  proof (cases "saveCrawlTotals rid totals ?db1")
    case (Inl e)
    with pp s1 show ?thesis by (simp add: postProcessing_def)
  next
    case (Inr db2)
    then have s2: "statuses db2 = statuses db"
      using s1 statuses_crawlRun_update [of rid _ ?db1 db2] by (simp add: saveCrawlTotals_def)
    let ?db3 = "generateGlobalIssues rid db2"
    have s3: "statuses ?db3 = statuses db"
      using s2 by (simp add: generateGlobalIssues_def Let_def statuses_def)
    show ?thesis
    proof (cases "saveIssueSummary rid (computeIssueSummary rid ?db3) ?db3")
      case (Inl e)
      with pp Inr s3 show ?thesis by (simp add: postProcessing_def Let_def)
    next
      case db4: (Inr db4)
      then have "statuses db4 = statuses ?db3"
        using statuses_crawlRun_update [of rid _ ?db3 db4] by (simp add: saveIssueSummary_def Let_def)
      with pp Inr db4 s3 show ?thesis by (simp add: postProcessing_def Let_def)
    qed
  qed
qed

lemma runCrawl_keeps_statuses:
  "statuses (case runCrawl env pid rid db of Inl r \<Rightarrow> snd r | Inr db' \<Rightarrow> db') = statuses db"
proof -
  have w: "statuses (wipeRunData rid db) = statuses db"
    by (simp add: wipeRunData_def statuses_def)
  have loop: "statuses (cs_db (snd (bfsLoop env settings rid bd (seed start (wipeRunData rid db)))))
                = statuses db" for settings bd start
    using statuses_bfsLoop [of env settings rid bd "seed start (wipeRunData rid db)"] w
    by (simp add: seed_def)
  have tail: "statuses (case (case bfsLoop env settings rid bd (seed start (wipeRunData rid db)) of
                               (CanceledExit, st) \<Rightarrow> Inr (cs_db st)
                             | (_, st) \<Rightarrow> postProcessing rid (cs_db st))
                        of Inl r \<Rightarrow> snd r | Inr db' \<Rightarrow> db') = statuses db" for settings bd start
  proof (cases "bfsLoop env settings rid bd (seed start (wipeRunData rid db))")
    case (Pair ex st)
    with loop [of settings bd start] have "statuses (cs_db st) = statuses db" by simp
    with Pair statuses_postProcessing [of rid "cs_db st"] show ?thesis
      by (cases ex) simp_all
  qed
  show ?thesis
    using w tail by (simp add: runCrawl_def Let_def split: option.splits)
qed

section \<open>Terminal states under cancel and the job runner\<close>

lemma crawlRun_update_ids:
  assumes "crawlRun_update rid' f db = Inr db'" "\<And>r. run_id (f r) = run_id r"
  shows "runIdsUnique db' = runIdsUnique db"
proof -
  from assms(1) have "crawlRuns db' = map (\<lambda>r. if run_id r = rid' then f r else r) (crawlRuns db)"
    by (auto simp: crawlRun_update_def split: option.splits)
  then have "map run_id (crawlRuns db') = map run_id (crawlRuns db)"
    using assms(2) by (simp add: comp_def if_distrib [of run_id])
  then show ?thesis by (simp add: runIdsUnique_def)
qed

lemma crawlRun_update_other:
  assumes "crawlRun_update rid' f db = Inr db'" "\<And>r. run_id (f r) = run_id r" "rid' \<noteq> rid"
  shows "statusOf rid db' = statusOf rid db"
proof -
  from assms(1) have c: "crawlRuns db' = map (\<lambda>r. if run_id r = rid' then f r else r) (crawlRuns db)"
    by (auto simp: crawlRun_update_def split: option.splits)
  have "find (\<lambda>r. run_id r = rid) (map (\<lambda>r. if run_id r = rid' then f r else r) rs)
          = find (\<lambda>r. run_id r = rid) rs" for rs
    using assms(2,3) by (induction rs) auto
  with c show ?thesis
    by (simp add: statusOf_def findRun_def)
qed

lemma latestActiveRun_active:
  assumes "latestActiveRun pid db = Some r"
  shows "r \<in> set (crawlRuns db) \<and> (run_status r = QUEUED \<or> run_status r = RUNNING)"
proof -
  let ?P = "\<lambda>r. run_projectId r = pid \<and> (run_status r = QUEUED \<or> run_status r = RUNNING)"
  have pick: "fold (\<lambda>x best. if run_createdAt x > run_createdAt best then x else best) rs b
                \<in> set (b # rs)" for rs and b :: CrawlRun
    by (induction rs arbitrary: b) auto
  from assms obtain b rs where f: "filter ?P (crawlRuns db) = b # rs"
    and r: "r = fold (\<lambda>x best. if run_createdAt x > run_createdAt best then x else best) rs b"
    by (auto simp: latestActiveRun_def split: list.splits)
  from pick [of rs b] r f have "r \<in> set (filter ?P (crawlRuns db))" by simp
  then show ?thesis by auto
qed

lemma findRun_mem: "findRun rid db = Some r \<Longrightarrow> r \<in> set (crawlRuns db) \<and> run_id r = rid"
  by (auto simp: findRun_def find_Some_iff)

lemma unique_row:
  assumes "runIdsUnique db" "findRun rid db = Some r" "r' \<in> set (crawlRuns db)" "run_id r' = rid"
  shows "r' = r"
proof -
  from assms(2) have "r \<in> set (crawlRuns db)" "run_id r = rid"
    using findRun_mem by blast+
  with assms(1,3,4) show ?thesis
    by (metis runIdsUnique_def distinct_map inj_onD)
qed

lemma crawlRun_update_same:
  assumes "crawlRun_update rid f db = Inr db'" "\<And>r. run_id (f r) = run_id r"
    "\<And>r. run_status (f r) = st"
  shows "statusOf rid db' = Some st"
proof -
  from assms(1) obtain r0 where r0: "findRun rid db = Some r0"
    and c: "crawlRuns db' = map (\<lambda>r. if run_id r = rid then f r else r) (crawlRuns db)"
    by (auto simp: crawlRun_update_def split: option.splits)
  have "find (\<lambda>r. run_id r = rid) (map (\<lambda>r. if run_id r = rid then f r else r) rs)
          = map_option f (find (\<lambda>r. run_id r = rid) rs)" for rs
    using assms(2) by (induction rs) auto
  with c r0 assms(3) show ?thesis
    by (simp add: statusOf_def findRun_def)
qed

lemma cancel_read_live:
  assumes "cancel_read access pid ridOpt db = Inr crawlRun"
  shows "crawlRun \<in> set (crawlRuns db) \<and> \<not> terminal (run_status crawlRun)"
proof -
  from assms have look: "lookupForCancel pid ridOpt db = Inr crawlRun"
    and live: "\<not> terminal (run_status crawlRun)"
    by (auto simp: cancel_read_def terminal_def split: sum.splits if_splits)
  from look have "crawlRun \<in> set (crawlRuns db)"
    by (auto simp: lookupForCancel_def split: if_splits option.splits
             dest: findRun_mem latestActiveRun_active)
  with live show ?thesis by simp
qed

lemma cancel_read_other:
  assumes uniq: "runIdsUnique db" and st: "statusOf rid db = Some st" "terminal st"
    and c: "cancel_read access pid ridOpt db = Inr crawlRun"
  shows "run_id crawlRun \<noteq> rid"
proof
  assume same: "run_id crawlRun = rid"
  from st(1) obtain r where r: "findRun rid db = Some r" "run_status r = st"
    by (auto simp: statusOf_def)
  from cancel_read_live [OF c] have mem: "crawlRun \<in> set (crawlRuns db)"
    and live: "\<not> terminal (run_status crawlRun)"
    by simp_all
  from unique_row [OF uniq r(1) mem same] r(2) st(2) live show False by simp
qed

lemma cancel_write_other:
  assumes "cancel_write c now db = Inr db'" "run_id c \<noteq> rid"
  shows "statusOf rid db' = statusOf rid db"
proof -
  from assms(1) have upd: "crawlRun_update (run_id c)
        (\<lambda>r. r\<lparr>run_status := CANCELED, run_finishedAt := Some now\<rparr>) db = Inr db'"
    by (auto simp: cancel_write_def split: sum.splits)
  from crawlRun_update_other [OF upd _ assms(2)] show ?thesis by simp
qed

lemma cancel_write_same:
  assumes "cancel_write c now db = Inr db'"
  shows "statusOf (run_id c) db' = Some CANCELED"
proof -
  from assms(1) have upd: "crawlRun_update (run_id c)
        (\<lambda>r. r\<lparr>run_status := CANCELED, run_finishedAt := Some now\<rparr>) db = Inr db'"
    by (auto simp: cancel_write_def split: sum.splits)
  from crawlRun_update_same [OF upd, of CANCELED] show ?thesis by simp
qed

lemma cancel_write_ids:
  assumes "cancel_write c now db = Inr db'"
  shows "runIdsUnique db' = runIdsUnique db"
proof -
  from assms(1) have upd: "crawlRun_update (run_id c)
        (\<lambda>r. r\<lparr>run_status := CANCELED, run_finishedAt := Some now\<rparr>) db = Inr db'"
    by (auto simp: cancel_write_def split: sum.splits)
  from crawlRun_update_ids [OF upd] show ?thesis by simp
qed

lemma cancel_keeps_terminal:
  assumes uniq: "runIdsUnique db" and st: "statusOf rid db = Some st" "terminal st"
    and c: "cancel access pid ridOpt now db = Inr db'"
  shows "statusOf rid db' = Some st"
proof -
  from c obtain crawlRun where rd: "cancel_read access pid ridOpt db = Inr crawlRun"
    and wr: "cancel_write crawlRun now db = Inr db'"
    by (auto simp: cancel_def split: sum.splits)
  from cancel_read_other [OF uniq st rd] cancel_write_other [OF wr] st(1) show ?thesis
    by simp
qed

lemma list_all_remove_nth:
  "list_all P xs \<Longrightarrow> list_all P (take k xs @ drop (Suc k) xs)"
  by (auto simp: list_all_iff dest: in_set_takeD in_set_dropD)

text \<open>
  The steps of a job leave the other runs alone: a worker writes the status of its own
  run only, and the crawl writes no status at all.
\<close>

lemma statusOf_statuses: "statusOf rid db = map_of (statuses db) rid"
proof -
  have "map_option run_status (find (\<lambda>r. run_id r = rid) rs)
          = map_of (map (\<lambda>r. (run_id r, run_status r)) rs) rid" for rs
    by (induction rs) simp_all
  then show ?thesis
    by (simp add: statusOf_def findRun_def statuses_def)
qed

lemma runIdsUnique_statuses: "runIdsUnique db = distinct (map fst (statuses db))"
  by (simp add: runIdsUnique_def statuses_def comp_def)

lemma processJob_step_ids:
  "runIdsUnique (fst (processJob_step env now pid rid' pc db)) = runIdsUnique db"
proof (cases pc)
  case AtRunCrawl
  with runCrawl_keeps_statuses [of env pid rid' db] show ?thesis
    by (auto simp: runIdsUnique_statuses split: sum.splits)
qed (auto split: option.splits sum.splits dest: crawlRun_update_ids)

lemma processJob_step_other:
  assumes "rid' \<noteq> rid"
  shows "statusOf rid (fst (processJob_step env now pid rid' pc db)) = statusOf rid db"
proof (cases pc)
  case AtRunCrawl
  with runCrawl_keeps_statuses [of env pid rid' db] show ?thesis
    by (auto simp: statusOf_statuses split: sum.splits)
next
  case (AtRunningUpdate st)
  then show ?thesis
    using assms by (auto split: sum.splits dest: crawlRun_update_other [where rid = rid])
next
  case AtDoneUpdate
  then show ?thesis
    using assms by (auto split: sum.splits dest: crawlRun_update_other [where rid = rid])
next
  case (AtFailedUpdate msg)
  then show ?thesis
    using assms by (auto split: sum.splits dest: crawlRun_update_other [where rid = rid])
qed (auto split: option.splits)

lemma workerOf_At: "workerOf s job = At pc \<Longrightarrow> (job, pc) \<in> set (active s)"
  by (auto simp: workerOf_def split: option.splits dest: map_of_SomeD)

lemma map_of_filter_other: "map_of (filter (\<lambda>e. fst e \<noteq> k) xs) k = None"
  by (induction xs) auto

lemma workerOf_setWorker [simp]: "workerOf (setWorker job w s) job = w"
  by (cases w) (simp_all add: workerOf_def setWorker_def map_of_filter_other)

lemma store_same [simp]: "s\<lparr>store := store s\<rparr> = (s :: lifecycle)"
  by (cases s) simp

lemma setWorker_store_same [simp]: "(setWorker job w s)\<lparr>store := store s\<rparr> = setWorker job w s"
  by (cases s) (simp add: setWorker_def)

lemma active_setWorker:
  "set (active (setWorker job w s)) \<subseteq> (case w of Idle \<Rightarrow> {} | At pc \<Rightarrow> {(job, pc)}) \<union> set (active s)"
  by (cases w) (auto simp: setWorker_def)

lemma setWorker_fields [simp]:
  "store (setWorker job w s) = store s" "cancels (setWorker job w s) = cancels s"
  by (simp_all add: setWorker_def)

lemma noJobOf_setWorker:
  "noJobOf rid s \<Longrightarrow> job_crawlRunId job \<noteq> rid \<Longrightarrow> noJobOf rid (setWorker job w s)"
  by (cases w) (auto simp: noJobOf_def setWorker_def list_all_iff)

lemma noJobOf_Idle:
  assumes "noJobOf rid s" "job_crawlRunId job = rid"
  shows "workerOf s job = Idle"
proof (cases "workerOf s job")
  case (At pc)
  from workerOf_At [OF At] assms show ?thesis
    by (auto simp: noJobOf_def list_all_iff)
qed simp

lemma fire_terminal_idle:
  assumes inv: "terminal_idle rid st s" and e: "\<not> delivers rid e"
  shows "terminal_idle rid st (fire e s)"
proof (cases e)
  case (Deliver job)
  with e have "job_crawlRunId job \<noteq> rid" by simp
  with Deliver inv show ?thesis
    by (auto simp: terminal_idle_def noCancelOf_def noJobOf_setWorker split: worker.splits)
next
  case (Work job env now)
  show ?thesis
  proof (cases "workerOf s job")
    case Idle
    with Work inv show ?thesis by simp
  next
    case (At pc)
    with inv have other: "job_crawlRunId job \<noteq> rid"
      using noJobOf_Idle [of rid s job] by (auto simp: terminal_idle_def)
    let ?r = "processJob_step env now (job_projectId job) (job_crawlRunId job) pc (store s)"
    from inv other have "terminal_idle rid st (setWorker job (snd ?r) (s\<lparr>store := fst ?r\<rparr>))"
      using processJob_step_other [OF other, of env now "job_projectId job" pc "store s"]
            processJob_step_ids [of env now "job_projectId job" "job_crawlRunId job" pc "store s"]
            noJobOf_setWorker [of rid "s\<lparr>store := fst ?r\<rparr>" job "snd ?r"]
      by (simp add: terminal_idle_def noCancelOf_def noJobOf_def)
    with Work At show ?thesis by (simp add: Let_def)
  qed
next
  case (CancelRead access pid' ridOpt)
  show ?thesis
  proof (cases "cancel_read access pid' ridOpt (store s)")
    case (Inl err)
    with CancelRead inv show ?thesis by simp
  next
    case (Inr crawlRun)
    from inv have "runIdsUnique (store s)" "statusOf rid (store s) = Some st" "terminal st"
      by (simp_all add: terminal_idle_def)
    from cancel_read_other [OF this Inr] CancelRead Inr inv show ?thesis
      by (simp add: terminal_idle_def noCancelOf_def noJobOf_def)
  qed
next
  case (CancelWrite k now)
  show ?thesis
  proof (cases "k < length (cancels s)")
    case False
    with CancelWrite inv show ?thesis by simp
  next
    case True
    from inv have all: "list_all (\<lambda>c. run_id c \<noteq> rid) (cancels s)"
      by (simp add: terminal_idle_def noCancelOf_def)
    with True have other: "run_id (cancels s ! k) \<noteq> rid"
      by (simp add: list_all_length)
    note rest = list_all_remove_nth [OF all, of k]
    show ?thesis
    proof (cases "cancel_write (cancels s ! k) now (store s)")
      case (Inl err)
      with CancelWrite True inv rest show ?thesis
        by (simp add: terminal_idle_def noCancelOf_def noJobOf_def Let_def)
    next
      case (Inr db')
      with CancelWrite True inv rest cancel_write_other [OF Inr other] cancel_write_ids [OF Inr]
      show ?thesis
        by (simp add: terminal_idle_def noCancelOf_def noJobOf_def Let_def)
    qed
  qed
qed

lemma exec_terminal_idle:
  "terminal_idle rid st s \<Longrightarrow> list_all (\<lambda>e. \<not> delivers rid e) es \<Longrightarrow>
   terminal_idle rid st (exec es s)"
  unfolding exec_def by (induction es arbitrary: s) (auto simp: fire_terminal_idle)

lemma canceled_at_rest_setWorker:
  assumes "canceled_at_rest rid s"
    and "job_crawlRunId job \<noteq> rid \<or> w = Idle \<or> w = At AtFindUnique \<or> w = At (AtRunningUpdate CANCELED)"
  shows "canceled_at_rest rid (setWorker job w s)"
  using assms by (cases w) (auto simp: canceled_at_rest_def setWorker_def list_all_iff)

lemma fire_canceled_at_rest:
  assumes inv: "canceled_at_rest rid s"
  shows "canceled_at_rest rid (fire e s)"
proof (cases e)
  case (Deliver job)
  with inv show ?thesis
    by (auto simp: canceled_at_rest_setWorker split: worker.splits)
next
  case (Work job env now)
  show ?thesis
  proof (cases "workerOf s job")
    case Idle
    with Work inv show ?thesis by simp
  next
    case (At pc)
    let ?r = "processJob_step env now (job_projectId job) (job_crawlRunId job) pc (store s)"
    have base: "canceled_at_rest rid (s\<lparr>store := fst ?r\<rparr>)
                \<and> (job_crawlRunId job \<noteq> rid \<or> snd ?r = Idle \<or> snd ?r = At AtFindUnique
                     \<or> snd ?r = At (AtRunningUpdate CANCELED))"
    proof (cases "job_crawlRunId job = rid")
      case False
      with inv show ?thesis
        using processJob_step_other [OF False, of env now "job_projectId job" pc "store s"]
              processJob_step_ids [of env now "job_projectId job" "job_crawlRunId job" pc "store s"]
        by (simp add: canceled_at_rest_def)
    next
      case True
      from workerOf_At [OF At] inv True
      have pc: "pc = AtFindUnique \<or> pc = AtRunningUpdate CANCELED"
        by (auto simp: canceled_at_rest_def list_all_iff)
      from inv obtain r where r: "findRun rid (store s) = Some r" "run_status r = CANCELED"
        by (auto simp: canceled_at_rest_def statusOf_def)
      from pc r True inv show ?thesis
        by (auto simp: canceled_at_rest_def)
    qed
    then have "canceled_at_rest rid (setWorker job (snd ?r) (s\<lparr>store := fst ?r\<rparr>))"
      by (intro canceled_at_rest_setWorker) simp_all
    with Work At show ?thesis by (simp add: Let_def)
  qed
next
  case (CancelRead access pid' ridOpt)
  with inv show ?thesis
    by (simp add: canceled_at_rest_def split: sum.splits)
next
  case (CancelWrite k now)
  show ?thesis
  proof (cases "k < length (cancels s)")
    case False
    with CancelWrite inv show ?thesis by simp
  next
    case True
    show ?thesis
    proof (cases "cancel_write (cancels s ! k) now (store s)")
      case (Inl err)
      with CancelWrite True inv show ?thesis
        by (simp add: canceled_at_rest_def Let_def)
    next
      case (Inr db')
      have "statusOf rid db' = Some CANCELED"
      proof (cases "run_id (cancels s ! k) = rid")
        case True
        with cancel_write_same [OF Inr] show ?thesis by simp
      next
        case False
        with cancel_write_other [OF Inr] inv show ?thesis
          by (simp add: canceled_at_rest_def)
      qed
      with CancelWrite True inv Inr cancel_write_ids [OF Inr] show ?thesis
        by (simp add: canceled_at_rest_def Let_def)
    qed
  qed
qed

lemma exec_canceled_at_rest:
  "canceled_at_rest rid s \<Longrightarrow> canceled_at_rest rid (exec es s)"
  unfolding exec_def by (induction es arbitrary: s) (simp_all add: fire_canceled_at_rest)

lemma redelivery_sets_running:
  assumes st: "statusOf (job_crawlRunId job) (store s) = Some st" "st \<noteq> CANCELED"
    and idle: "workerOf s job = Idle"
  shows "statusOf (job_crawlRunId job)
           (store (exec [Deliver job, Work job env now, Work job env' now'] s)) = Some RUNNING"
proof -
  let ?rid = "job_crawlRunId job"
  from st(1) obtain r where r: "findRun ?rid (store s) = Some r" "run_status r = st"
    by (auto simp: statusOf_def)
  let ?s1 = "setWorker job (At AtFindUnique) s"
  let ?s2 = "setWorker job (At (AtRunningUpdate st)) ?s1"
  have 1: "fire (Deliver job) s = ?s1"
    using idle by simp
  have 2: "fire (Work job env now) ?s1 = ?s2"
    using r by (simp add: Let_def)
  obtain db' where upd: "crawlRun_update ?rid
        (\<lambda>r. r\<lparr>run_status := RUNNING, run_startedAt := Some now'\<rparr>) (store s) = Inr db'"
    using r(1) by (simp add: crawlRun_update_def)
  have 3: "store (fire (Work job env' now') ?s2) = db'"
    using st(2) upd by (simp add: Let_def)
  from crawlRun_update_same [OF upd, of RUNNING] have "statusOf ?rid db' = Some RUNNING"
    by simp
  with 1 2 3 show ?thesis
    by (simp add: exec_def)
qed

text \<open>
  Claim C8, as the code has it. A \<open>cancel\<close> call that reads a run which is \<open>DONE\<close>,
  \<open>FAILED\<close> or \<open>CANCELED\<close> does not go on with that run, and as a whole leaves its status
  as it is. A run in one of these states, with no job of it being worked on and no
  \<open>cancel\<close> call that has read it still to write, keeps its status through every sequence
  of deliveries and worker steps of the other runs' jobs and of reads and writes of
  \<open>cancel\<close> calls, as long as its own job is not delivered again. A run that is \<open>CANCELED\<close>
  with no job of it being worked on keeps its status through every sequence of events,
  deliveries of its own job among them. A run that is \<open>DONE\<close> or \<open>FAILED\<close> and whose job is
  delivered again is \<open>RUNNING\<close> after the second step of the worker.
\<close>

theorem terminal_under_cancel_and_canceled_sink:
  "(runIdsUnique db \<and> statusOf crawlRunId db = Some st \<and> terminal st
      \<longrightarrow> (case cancel_read access pid rid db of
              Inl e \<Rightarrow> True | Inr crawlRun \<Rightarrow> run_id crawlRun \<noteq> crawlRunId)
          \<and> (case cancel access pid rid now db of
                Inl e \<Rightarrow> True | Inr db' \<Rightarrow> statusOf crawlRunId db' = Some st))
   \<and> (runIdsUnique (store s) \<and> statusOf crawlRunId (store s) = Some st \<and> terminal st
        \<and> noJobOf crawlRunId s \<and> noCancelOf crawlRunId s
        \<and> list_all (\<lambda>e. \<not> delivers crawlRunId e) es
        \<longrightarrow> statusOf crawlRunId (store (exec es s)) = Some st)
   \<and> (runIdsUnique (store s) \<and> statusOf crawlRunId (store s) = Some CANCELED
        \<and> noJobOf crawlRunId s
        \<longrightarrow> statusOf crawlRunId (store (exec es s)) = Some CANCELED)
   \<and> (statusOf (job_crawlRunId job) (store s) = Some st \<and> (st = DONE \<or> st = FAILED)
        \<and> workerOf s job = Idle
        \<longrightarrow> statusOf (job_crawlRunId job)
              (store (exec [Deliver job, Work job env now, Work job env' now'] s)) = Some RUNNING)"
proof -
  have a: "(case cancel_read access pid rid db of
              Inl e \<Rightarrow> True | Inr crawlRun \<Rightarrow> run_id crawlRun \<noteq> crawlRunId)
          \<and> (case cancel access pid rid now db of
                Inl e \<Rightarrow> True | Inr db' \<Rightarrow> statusOf crawlRunId db' = Some st)"
    if h: "runIdsUnique db" "statusOf crawlRunId db = Some st" "terminal st"
  proof
    show "case cancel_read access pid rid db of
            Inl e \<Rightarrow> True | Inr crawlRun \<Rightarrow> run_id crawlRun \<noteq> crawlRunId"
      using cancel_read_other [OF h] by (simp split: sum.splits)
    show "case cancel access pid rid now db of
            Inl e \<Rightarrow> True | Inr db' \<Rightarrow> statusOf crawlRunId db' = Some st"
      using cancel_keeps_terminal [OF h] by (simp split: sum.splits)
  qed
  have b: "statusOf crawlRunId (store (exec es s)) = Some st"
    if "runIdsUnique (store s)" "statusOf crawlRunId (store s) = Some st" "terminal st"
       "noJobOf crawlRunId s" "noCancelOf crawlRunId s" "list_all (\<lambda>e. \<not> delivers crawlRunId e) es"
    using exec_terminal_idle [of crawlRunId st s es] that
    by (simp add: terminal_idle_def)
  have c: "statusOf crawlRunId (store (exec es s)) = Some CANCELED"
    if "runIdsUnique (store s)" "statusOf crawlRunId (store s) = Some CANCELED" "noJobOf crawlRunId s"
    using exec_canceled_at_rest [of crawlRunId s es] that
    by (simp add: canceled_at_rest_def noJobOf_def list_all_iff)
  have d: "statusOf (job_crawlRunId job)
              (store (exec [Deliver job, Work job env now, Work job env' now'] s)) = Some RUNNING"
    if "statusOf (job_crawlRunId job) (store s) = Some st" "st = DONE \<or> st = FAILED"
       "workerOf s job = Idle"
    using redelivery_sets_running [of job s st env now env' now'] that by auto
  from a b c d show ?thesis by blast
qed

lemma twoRuns_facts:
  "runIdsUnique (twoRuns st)" "statusOf ''run1'' (twoRuns st) = Some st"
  by (simp_all add: twoRuns_def runIdsUnique_def statusOf_def findRun_def run1_def run2_def)

lemma atRest_facts:
  "store (atRest db) = db" "noJobOf rid (atRest db)" "noCancelOf rid (atRest db)"
  "workerOf (atRest db) job = Idle"
  by (simp_all add: atRest_def noJobOf_def noCancelOf_def workerOf_def)

lemma cancelDuringCrawl_run2:
  "statusOf ''run2'' (store (exec cancelDuringCrawl (atRest (twoRuns DONE)))) = Some CANCELED
   \<and> map page_normalizedUrl (runPagesOf ''run2'' (store (exec cancelDuringCrawl (atRest (twoRuns DONE)))))
       = [''https://a.test/'']"
  by code_simp

text \<open>
  The theorem on a store with a finished first run and a queued second run. The second
  run is crawled and cancelled while the first keeps its status; the first run, when
  \<open>CANCELED\<close>, stays so through a re-delivery of its job, a \<open>cancel\<close> call and the crawl
  of the second run; and when \<open>DONE\<close>, it is \<open>RUNNING\<close> after a re-delivery.
\<close>

theorem terminal_under_cancel_and_canceled_sink_witness:
  "runIdsUnique (twoRuns DONE) \<and> statusOf ''run1'' (twoRuns DONE) = Some DONE \<and> terminal DONE
   \<and> cancel_read (Inr ADMIN) ''proj1'' (Some ''run1'') (twoRuns DONE) = Inl BadRequestException
   \<and> cancel (Inr ADMIN) ''proj1'' (Some ''run1'') 30 (twoRuns DONE) = Inl BadRequestException
   \<and> noJobOf ''run1'' (atRest (twoRuns DONE)) \<and> noCancelOf ''run1'' (atRest (twoRuns DONE))
   \<and> list_all (\<lambda>e. \<not> delivers ''run1'' e) cancelDuringCrawl
   \<and> statusOf ''run1'' (store (exec cancelDuringCrawl (atRest (twoRuns DONE)))) = Some DONE
   \<and> statusOf ''run2'' (store (exec cancelDuringCrawl (atRest (twoRuns DONE)))) = Some CANCELED
   \<and> map page_normalizedUrl (runPagesOf ''run2'' (store (exec cancelDuringCrawl (atRest (twoRuns DONE)))))
       = [''https://a.test/'']
   \<and> runIdsUnique (twoRuns CANCELED) \<and> statusOf ''run1'' (twoRuns CANCELED) = Some CANCELED
   \<and> statusOf ''run1''
        (store (exec (redelivery @ CancelRead (Inr ADMIN) ''proj1'' (Some ''run1'') # cancelDuringCrawl)
                  (atRest (twoRuns CANCELED)))) = Some CANCELED
   \<and> workerOf (atRest (twoRuns DONE)) job1 = Idle
   \<and> statusOf ''run1'' (store (exec redelivery (atRest (twoRuns DONE)))) = Some RUNNING"
proof -
  have t: "terminal DONE" by (simp add: terminal_def)
  have d: "list_all (\<lambda>e. \<not> delivers ''run1'' e) cancelDuringCrawl"
    by (simp add: cancelDuringCrawl_def job2_def)
  have r: "cancel_read (Inr ADMIN) ''proj1'' (Some ''run1'') (twoRuns DONE) = Inl BadRequestException"
    by (simp add: cancel_read_def lookupForCancel_def truthy_def twoRuns_def findRun_def
                  brokenLinkDB_def run1_def)
  then have c: "cancel (Inr ADMIN) ''proj1'' (Some ''run1'') 30 (twoRuns DONE) = Inl BadRequestException"
    by (simp add: cancel_def)
  have j: "job_crawlRunId job1 = ''run1''" by (simp add: job1_def)
  note th = terminal_under_cancel_and_canceled_sink [where crawlRunId = "''run1''"]
  from th [where s = "atRest (twoRuns DONE)" and st = DONE and es = cancelDuringCrawl]
       twoRuns_facts [of DONE] t d
  have 2: "statusOf ''run1'' (store (exec cancelDuringCrawl (atRest (twoRuns DONE)))) = Some DONE"
    by (simp add: atRest_facts)
  from th [where s = "atRest (twoRuns CANCELED)"
             and es = "redelivery @ CancelRead (Inr ADMIN) ''proj1'' (Some ''run1'') # cancelDuringCrawl"]
       twoRuns_facts [of CANCELED]
  have 3: "statusOf ''run1''
        (store (exec (redelivery @ CancelRead (Inr ADMIN) ''proj1'' (Some ''run1'') # cancelDuringCrawl)
                  (atRest (twoRuns CANCELED)))) = Some CANCELED"
    by (simp add: atRest_facts)
  from th [where s = "atRest (twoRuns DONE)" and st = DONE and job = job1
             and env = "siteEnv fetchAndParsePage" and now = 31
             and env' = "siteEnv fetchAndParsePage" and now' = 32]
       twoRuns_facts [of DONE] j
  have 4: "statusOf ''run1'' (store (exec redelivery (atRest (twoRuns DONE)))) = Some RUNNING"
    by (simp add: atRest_facts redelivery_def)
  from t d r c 2 3 4 cancelDuringCrawl_run2 twoRuns_facts [of DONE] twoRuns_facts [of CANCELED]
  show ?thesis by (simp add: atRest_facts)
qed

text \<open>
  Claim C8 as stated fails on re-delivery: the job of a \<open>FAILED\<close> run is delivered again,
  \<open>processJob\<close> finds a status other than \<open>CANCELED\<close> and writes \<open>RUNNING\<close>.
\<close>

theorem redelivery_leaves_terminal_counterexample:
  "terminal FAILED
   \<and> statusOf ''run1'' (twoRuns FAILED) = Some FAILED
   \<and> statusOf ''run1'' (store (exec redelivery (atRest (twoRuns FAILED)))) = Some RUNNING"
  by code_simp

text \<open>
  The conditions of rest are needed. A run is crawled; a \<open>cancel\<close> call reads it while
  it is \<open>RUNNING\<close>, after the worker has found it not cancelled; the worker writes \<open>DONE\<close>;
  the call then writes \<open>CANCELED\<close>.
\<close>

lemma cancel_write_after_done:
  "statusOf ''run2''
     (store (exec [Deliver job2,
                   Work job2 (siteEnv fetchAndParsePage) 31,
                   Work job2 (siteEnv fetchAndParsePage) 32,
                   Work job2 (siteEnv fetchAndParsePage) 33,
                   Work job2 (siteEnv fetchAndParsePage) 34,
                   CancelRead (Inr ADMIN) ''proj1'' (Some ''run2''),
                   Work job2 (siteEnv fetchAndParsePage) 35]
               (atRest (twoRuns DONE)))) = Some DONE
   \<and> statusOf ''run2''
       (store (exec [Deliver job2,
                     Work job2 (siteEnv fetchAndParsePage) 31,
                     Work job2 (siteEnv fetchAndParsePage) 32,
                     Work job2 (siteEnv fetchAndParsePage) 33,
                     Work job2 (siteEnv fetchAndParsePage) 34,
                     CancelRead (Inr ADMIN) ''proj1'' (Some ''run2''),
                     Work job2 (siteEnv fetchAndParsePage) 35,
                     CancelWrite 0 36]
                 (atRest (twoRuns DONE)))) = Some CANCELED"
  by code_simp

end
